theory Spec2Isabelle
  imports Main "HOL-Library.Word" "HOL-Library.Multiset"
begin

unbundle bit_operations_syntax

section \<open>Lanes (priority tiers)\<close>

text \<open>
  A lane set is a JavaScript 32-bit integer used as a bit mask. The helpers below are
  imported by the sources from \<^verbatim>\<open>ReactFiberLane\<close>, which is not part of the sources.
\<close>

type_synonym lanes = "32 word"
type_synonym lane = "32 word"

text \<open>Modelled from the spec: \<^verbatim>\<open>NoLane\<close>/\<^verbatim>\<open>NoLanes\<close> of ReactFiberLane, the empty
  bit mask ("0 is a subset of all bitmasks", as processUpdateQueue itself remarks).\<close>
definition NoLane :: lane where
  "NoLane = 0"

definition NoLanes :: lanes where
  "NoLanes = 0"

text \<open>Modelled from the spec: \<^verbatim>\<open>isSubsetOfLanes\<close> of ReactFiberLane ("its priority tier is
  a subset of the currently-rendering priorityMask"): every bit of the subset is in the set.\<close>
definition isSubsetOfLanes :: "lanes \<Rightarrow> lanes \<Rightarrow> bool" where
  "isSubsetOfLanes a b = (a AND b = b)"

text \<open>Modelled from the spec: \<^verbatim>\<open>mergeLanes\<close> of ReactFiberLane, the union of two masks.\<close>
definition mergeLanes :: "lanes \<Rightarrow> lanes \<Rightarrow> lanes" where
  "mergeLanes a b = a OR b"

text \<open>Modelled from the spec: \<^verbatim>\<open>removeLanes\<close> of ReactFiberLane, the mask without the
  bits of the second argument.\<close>
definition removeLanes :: "lanes \<Rightarrow> lanes \<Rightarrow> lanes" where
  "removeLanes a b = a AND NOT b"

section \<open>JavaScript values, effect flags, modes\<close>

datatype jsv =
    JNull
  | JUndefined
  | JBool bool
  | JNum int
  | JStr string
  | JObj "(string \<times> jsv) list"

text \<open>
  The effect flags of \<^verbatim>\<open>ReactFiberFlags\<close> are distinct bits of one integer; a flag word is
  the set of the bits that are on, \<^verbatim>\<open>a | b\<close> is union and \<^verbatim>\<open>a & ~b\<close> is difference.
\<close>

datatype flag =
    Placement | PlacementDEV | ChildDeletion | Forked
  | Callback | Visibility | ShouldCapture | DidCapture | Hydrating

datatype type_of_mode = ConcurrentMode | ProfileMode | StrictLegacyMode

section \<open>Update queue: data\<close>

datatype update_tag = UpdateState | ReplaceState | ForceUpdate | CaptureUpdate

text \<open>
  A payload is either an updater function, called as
  \<^verbatim>\<open>payload.call(instance, prevState, nextProps)\<close>, or a plain value. Updater functions
  are pure (the sources warn: "Update functions should be pure, with zero side-effects").
\<close>

datatype payload =
    PayloadFn "jsv \<Rightarrow> jsv \<Rightarrow> jsv \<Rightarrow> jsv"
  | PayloadVal jsv

text \<open>An update record; the \<^verbatim>\<open>next\<close> link is the position in the list that holds it.
  A callback is named by a number, \<open>None\<close> is \<^verbatim>\<open>null\<close>.\<close>

record update =
  lane :: lane
  tag :: update_tag
  payload :: payload
  callback :: "nat option"

text \<open>The shared queue: \<open>pending\<close> is the circular list, from its first record to the
  record \<^verbatim>\<open>shared.pending\<close> points at (the last one); \<open>[]\<close> is \<^verbatim>\<open>null\<close>.\<close>

record sharedQueue =
  pending :: "update list"
  lanes :: lanes
  hiddenCallbacks :: "nat list option"

text \<open>The queue: \<open>firstBaseUpdate\<close> is the singly-linked base list from
  \<^verbatim>\<open>firstBaseUpdate\<close> to \<^verbatim>\<open>lastBaseUpdate\<close>.\<close>

record updateQueue =
  baseState :: jsv
  firstBaseUpdate :: "update list"
  shared :: sharedQueue
  callbacks :: "nat list option"

section \<open>Children descriptions and fibers: data\<close>

text \<open>
  A thrown JavaScript value: the \<^verbatim>\<open>SuspenseException\<close> object of ReactFiberThenable, a
  thenable (an object with a \<^verbatim>\<open>then\<close> function), an \<^verbatim>\<open>Error\<close> with its message, or any
  other value.
\<close>

datatype thrown =
    SuspenseException
  | ThrownThenable nat
  | ThrownError string
  | ThrownValue jsv

text \<open>
  The type of an element: the fragment symbol, a host tag name, a component function (by
  number) or a lazy wrapper, an object (by number) with what \<^verbatim>\<open>init(payload)\<close> does when
  it is called: throw, or return the wrapped type.
\<close>

datatype etype =
    REACT_FRAGMENT_TYPE
  | HostType string
  | ComponentType nat
  | LazyType nat "thrown + etype"

text \<open>
  The values a child position can hold (the cases reconcileChildFibersImpl, createChild,
  updateSlot and updateFromMap tell apart). A number or bigint is held by the string that
  \<^verbatim>\<open>'' + newChild\<close> gives. A lazy child, a thenable and a context carry what unwrapping
  them does: \<^verbatim>\<open>init(payload)\<close>, \<^verbatim>\<open>unwrapThenable\<close> and
  \<^verbatim>\<open>readContextDuringReconciliation\<close> either throw or return the inner child. \<open>CObject\<close>
  is any other object; its flag says whether \<^verbatim>\<open>$$typeof\<close> is
  \<^verbatim>\<open>REACT_LEGACY_ELEMENT_TYPE\<close>. Iterables other than arrays are outside the model.
\<close>

datatype child =
    CNull
  | CUndefined
  | CBool bool
  | CString string
  | CNumber string
  | CBigInt string
  | CElement element
  | CPortal portal
  | CLazy "thrown + child"
  | CArray "child list"
  | CThenable "thrown + child"
  | CContext child
  | CFunction
  | CSymbol
  | CObject bool
and element =
    Element (type: etype) (key: "string option") (ref: "nat option") (props: props)
and portal =
    Portal (key: "string option") (containerInfo: nat) (implementation: nat) (children: child)
and props =
    Props (attributes: nat) (children: child)

datatype work_tag =
    FunctionComponent | ClassComponent | HostRoot | HostPortal | HostComponent
  | HostText | Fragment | SuspenseComponent | LazyComponent | DehydratedFragment | Throw

text \<open>What \<^verbatim>\<open>pendingProps\<close> holds: the props of an element, the children of a fragment or
  portal, the content of a text node, or the value a throw fiber rethrows.\<close>

datatype pending =
    PendingProps props
  | PendingChildren child
  | PendingText string
  | PendingThrown thrown

text \<open>
  The fields of a fiber that hold plain data. \<open>stateNode\<close> is used for portals only
  (\<^verbatim>\<open>containerInfo\<close> and \<^verbatim>\<open>implementation\<close>).
\<close>

record fiber_data =
  tag :: work_tag
  key :: "string option"
  elementType :: "etype option"
  type :: "etype option"
  stateNode :: "(nat \<times> nat) option"
  pendingProps :: pending
  index :: nat
  ref :: "nat option"
  flags :: "flag set"
  lanes :: lanes
  mode :: "type_of_mode set"
  memoizedState :: jsv
  updateQueue :: "updateQueue option"

text \<open>
  A fiber: its plain fields and the fibers it points to. \<open>alternate\<close> is the current
  fiber a work-in-progress fiber was cloned from, \<open>return\<close> the parent as it was when the
  link was written, \<open>deletions\<close> the array of children to delete (\<open>None\<close> is \<^verbatim>\<open>null\<close>).
  The \<^verbatim>\<open>sibling\<close> link is the position in the list that holds a chain of children:
  a chain is a \<open>fiber list\<close>, \<^verbatim>\<open>null\<close> is \<open>[]\<close>.
\<close>

datatype fiber =
  Fiber (data: fiber_data) (alternate: "fiber option") (return: "fiber option")
    (deletions: "fiber list option")

definition set_data :: "(fiber_data \<Rightarrow> fiber_data) \<Rightarrow> fiber \<Rightarrow> fiber" where
  "set_data g f = Fiber (g (data f)) (alternate f) (return f) (deletions f)"

definition set_return :: "fiber \<Rightarrow> fiber \<Rightarrow> fiber" where
  "set_return returnFiber f = Fiber (data f) (alternate f) (Some returnFiber) (deletions f)"

definition set_deletions :: "fiber list option \<Rightarrow> fiber \<Rightarrow> fiber" where
  "set_deletions ds f = Fiber (data f) (alternate f) (return f) ds"

section \<open>Update queue: processUpdateQueue\<close>

text \<open>
  What the queue code reads from outside its file: \<^verbatim>\<open>shared/assign\<close> (called as
  \<^verbatim>\<open>assign({}, prevState, partialState)\<close>), the constant \<^verbatim>\<open>OffscreenLane\<close>, and the
  values \<^verbatim>\<open>getWorkInProgressRootRenderLanes()\<close> and \<^verbatim>\<open>peekEntangledActionLane()\<close> return
  during the call. None of them is in the sources, so they are parameters.
\<close>

record environment =
  assign :: "jsv \<Rightarrow> jsv \<Rightarrow> jsv"
  OffscreenLane :: lane
  getWorkInProgressRootRenderLanes :: lanes
  peekEntangledActionLane :: lane

text \<open>The two module-level variables of the file.\<close>

record module_state =
  hasForceUpdate :: bool
  didReadFromEntangledAsyncAction :: bool

definition getStateFromUpdate ::
  "environment \<Rightarrow> fiber \<Rightarrow> updateQueue \<Rightarrow> update \<Rightarrow> jsv \<Rightarrow> jsv \<Rightarrow> jsv \<Rightarrow> module_state
    \<Rightarrow> jsv \<times> fiber \<times> module_state" where
  "getStateFromUpdate env workInProgress queue update prevState nextProps instance ms =
    (let merged =
       (let partialState =
              (case payload update of
                 PayloadFn f \<Rightarrow> f instance prevState nextProps
               | PayloadVal v \<Rightarrow> v)
        in if partialState = JNull \<or> partialState = JUndefined then prevState
           else assign env prevState partialState)
     in case update.tag update of
          ReplaceState \<Rightarrow>
            (case payload update of
               PayloadFn f \<Rightarrow> (f instance prevState nextProps, workInProgress, ms)
             | PayloadVal v \<Rightarrow> (v, workInProgress, ms))
        | CaptureUpdate \<Rightarrow>
            (merged,
             set_data (\<lambda>d. d\<lparr>flags := (flags d - {ShouldCapture}) \<union> {DidCapture}\<rparr>)
               workInProgress,
             ms)
        | UpdateState \<Rightarrow> (merged, workInProgress, ms)
        | ForceUpdate \<Rightarrow> (prevState, workInProgress, ms\<lparr>hasForceUpdate := True\<rparr>))"

text \<open>The variables the loop of processUpdateQueue changes. \<open>newFirstBaseUpdate\<close> is the
  list from \<^verbatim>\<open>newFirstBaseUpdate\<close> to \<^verbatim>\<open>newLastBaseUpdate\<close>.\<close>

record process_state =
  wip :: fiber
  queue :: updateQueue
  newState :: jsv
  newLanes :: lanes
  newBaseState :: jsv
  newFirstBaseUpdate :: "update list"
  module :: module_state

definition shouldSkipUpdate :: "environment \<Rightarrow> lanes \<Rightarrow> update \<Rightarrow> bool" where
  "shouldSkipUpdate env renderLanes update =
    (let updateLane = removeLanes (lane update) (OffscreenLane env);
         isHiddenUpdate = (updateLane \<noteq> lane update)
     in if isHiddenUpdate
        then \<not> isSubsetOfLanes (getWorkInProgressRootRenderLanes env) updateLane
        else \<not> isSubsetOfLanes renderLanes updateLane)"

text \<open>One turn of the \<^verbatim>\<open>do ... while\<close> loop, up to \<^verbatim>\<open>update = update.next\<close>.\<close>

definition processUpdate ::
  "environment \<Rightarrow> jsv \<Rightarrow> jsv \<Rightarrow> lanes \<Rightarrow> update \<Rightarrow> process_state \<Rightarrow> process_state" where
  "processUpdate env props' instance renderLanes update st =
    (let updateLane = removeLanes (lane update) (OffscreenLane env);
         isHiddenUpdate = (updateLane \<noteq> lane update)
     in if shouldSkipUpdate env renderLanes update then
          (let clone = \<lparr>lane = updateLane, tag = update.tag update,
                        payload = payload update, callback = callback update\<rparr>;
               st1 = (if newFirstBaseUpdate st = []
                      then st\<lparr>newFirstBaseUpdate := [clone], newBaseState := newState st\<rparr>
                      else st\<lparr>newFirstBaseUpdate := newFirstBaseUpdate st @ [clone]\<rparr>)
           in st1\<lparr>newLanes := mergeLanes (newLanes st1) updateLane\<rparr>)
        else
          (let st1 = (if updateLane \<noteq> NoLane \<and> updateLane = peekEntangledActionLane env
                      then st\<lparr>module := (module st)\<lparr>didReadFromEntangledAsyncAction := True\<rparr>\<rparr>
                      else st);
               st2 = (if newFirstBaseUpdate st1 \<noteq> []
                      then st1\<lparr>newFirstBaseUpdate := newFirstBaseUpdate st1 @
                              [\<lparr>lane = NoLane, tag = update.tag update,
                                payload = payload update, callback = None\<rparr>]\<rparr>
                      else st1);
               (s, wip', ms) = getStateFromUpdate env (wip st2) (queue st2) update
                                (newState st2) props' instance (module st2);
               st3 = st2\<lparr>newState := s, wip := wip', module := ms\<rparr>
           in case callback update of
                None \<Rightarrow> st3
              | Some cb \<Rightarrow>
                  st3\<lparr>wip :=
                         set_data (\<lambda>d. d\<lparr>flags := flags d \<union> {Callback} \<union>
                                       (if isHiddenUpdate then {Visibility} else {})\<rparr>)
                           (wip st3),
                       queue := (queue st3)\<lparr>callbacks :=
                         (case callbacks (queue st3) of
                            None \<Rightarrow> Some [cb]
                          | Some cbs \<Rightarrow> Some (cbs @ [cb]))\<rparr>\<rparr>))"

text \<open>
  The \<^verbatim>\<open>do ... while (true)\<close> loop. When the list is exhausted the loop looks at
  \<^verbatim>\<open>queue.shared.pending\<close> again: if it is \<^verbatim>\<open>null\<close> the loop ends, otherwise the pending
  records become the rest of the list and \<^verbatim>\<open>shared.pending\<close> is cleared.
\<close>

function processUpdates ::
  "environment \<Rightarrow> jsv \<Rightarrow> jsv \<Rightarrow> lanes \<Rightarrow> update list \<Rightarrow> process_state \<Rightarrow> process_state" where
  "processUpdates env props' instance renderLanes [] st = st"
| "processUpdates env props' instance renderLanes (update # rest) st =
    (let st1 = processUpdate env props' instance renderLanes update st
     in if rest \<noteq> [] then processUpdates env props' instance renderLanes rest st1
        else (case pending (shared (queue st1)) of
                [] \<Rightarrow> st1
              | firstPendingUpdate # others \<Rightarrow>
                  processUpdates env props' instance renderLanes (firstPendingUpdate # others)
                    (st1\<lparr>queue := (queue st1)\<lparr>shared :=
                            (shared (queue st1))\<lparr>pending := []\<rparr>\<rparr>\<rparr>)))"
  by pat_completeness auto
termination
proof -
  have unchanged: "pending (shared (queue (processUpdate env p i rl u st))) =
      pending (shared (queue st))" for env p i rl u st
    by (simp add: processUpdate_def Let_def split: prod.splits option.splits)
  show ?thesis
    by (relation "measure (\<lambda>(env, props', instance, renderLanes, us, st).
                     length us + length (pending (shared (queue st))))")
       (auto simp: unchanged)
qed

text \<open>
  processUpdateQueue on the work-in-progress fiber. \<open>None\<close> is the \<^verbatim>\<open>TypeError\<close> of
  reading a field of a \<^verbatim>\<open>null\<close> queue. The block that also links the pending records
  behind the queue of \<^verbatim>\<open>workInProgress.alternate\<close> writes to that other queue object
  only; it is the subject of the pointer-level section below. The call
  \<^verbatim>\<open>markSkippedUpdateLanes(newLanes)\<close> writes a variable of the work loop only.
\<close>

definition processUpdateQueue ::
  "environment \<Rightarrow> fiber \<Rightarrow> jsv \<Rightarrow> jsv \<Rightarrow> lanes \<Rightarrow> module_state
    \<Rightarrow> (fiber \<times> module_state) option" where
  "processUpdateQueue env workInProgress props' instance renderLanes ms =
    (let ms1 = ms\<lparr>didReadFromEntangledAsyncAction := False\<rparr>
     in case updateQueue (data workInProgress) of
          None \<Rightarrow> None
        | Some queue0 \<Rightarrow>
           (let ms2 = ms1\<lparr>hasForceUpdate := False\<rparr>;
                pendingQueue = pending (shared queue0);
                queue1 = (if pendingQueue \<noteq> []
                          then queue0\<lparr>shared := (shared queue0)\<lparr>pending := []\<rparr>\<rparr>
                          else queue0);
                firstBaseUpdate' = (if pendingQueue \<noteq> []
                                    then firstBaseUpdate queue0 @ pendingQueue
                                    else firstBaseUpdate queue0)
            in if firstBaseUpdate' \<noteq> [] then
                 (let st = processUpdates env props' instance renderLanes firstBaseUpdate'
                             \<lparr>wip = workInProgress, queue = queue1,
                              newState = baseState queue1, newLanes = NoLanes,
                              newBaseState = JNull, newFirstBaseUpdate = [],
                              module = ms2\<rparr>;
                      newBaseState' = (if newFirstBaseUpdate st = [] then newState st
                                       else newBaseState st);
                      queue2 = (queue st)\<lparr>baseState := newBaseState',
                                           firstBaseUpdate := newFirstBaseUpdate st\<rparr>;
                      queue3 = (if firstBaseUpdate' = []
                                then queue2\<lparr>shared := (shared queue2)\<lparr>sharedQueue.lanes := NoLanes\<rparr>\<rparr>
                                else queue2)
                  in Some (set_data (\<lambda>d. d\<lparr>lanes := newLanes st,
                                              memoizedState := newState st,
                                              updateQueue := Some queue3\<rparr>)
                             (wip st),
                           module st))
               else
                 Some (set_data (\<lambda>d. d\<lparr>updateQueue := Some queue1\<rparr>) workInProgress, ms2)))"

section \<open>Creating fibers\<close>

text \<open>
  The constructors of \<^verbatim>\<open>ReactFiber\<close> are imported by the sources and are not part of
  them. Each is modelled by what the sources rely on: which fields the new fiber carries.
\<close>

text \<open>Modelled from the spec: \<^verbatim>\<open>createFiber\<close> of ReactFiber, a fresh render node ("created
  when a logical description has no existing node to reuse"): the given tag, pending props,
  key and mode; no alternate, no parent, no effect flag, position 0.\<close>
definition createFiber ::
  "work_tag \<Rightarrow> pending \<Rightarrow> string option \<Rightarrow> type_of_mode set \<Rightarrow> fiber" where
  "createFiber tag' pendingProps' key' mode' =
     Fiber \<lparr>tag = tag', key = key', elementType = None, type = None, stateNode = None,
            pendingProps = pendingProps', index = 0, ref = None, flags = {},
            lanes = NoLanes, mode = mode', memoizedState = JNull, updateQueue = None\<rparr>
       None None None"

text \<open>Modelled from the spec: \<^verbatim>\<open>createFiberFromText\<close> of ReactFiber, the node of a text
  leaf ("a string/number (text)"; "text/number leaves never carry keys").\<close>
definition createFiberFromText :: "string \<Rightarrow> type_of_mode set \<Rightarrow> lanes \<Rightarrow> fiber" where
  "createFiberFromText content mode' lanes' =
     set_data (\<lambda>d. d\<lparr>lanes := lanes'\<rparr>) (createFiber HostText (PendingText content) None mode')"

text \<open>Modelled from the spec: \<^verbatim>\<open>createFiberFromFragment\<close> of ReactFiber, the node of a
  list-fragment, holding the sequence as its pending props and the given key.\<close>
definition createFiberFromFragment ::
  "child \<Rightarrow> type_of_mode set \<Rightarrow> lanes \<Rightarrow> string option \<Rightarrow> fiber" where
  "createFiberFromFragment elements mode' lanes' key' =
     set_data (\<lambda>d. d\<lparr>lanes := lanes'\<rparr>) (createFiber Fragment (PendingChildren elements) key' mode')"

text \<open>Modelled from the spec: \<^verbatim>\<open>createFiberFromElement\<close> of ReactFiber, the node of a
  single description: it carries the element's key, type and props; a fragment element
  gives a fragment node; the resolved \<open>type\<close> of a lazy element is not known yet.\<close>
definition createFiberFromElement :: "element \<Rightarrow> type_of_mode set \<Rightarrow> lanes \<Rightarrow> fiber" where
  "createFiberFromElement element' mode' lanes' =
     (case element.type element' of
        REACT_FRAGMENT_TYPE \<Rightarrow>
          createFiberFromFragment (props.children (props element')) mode' lanes'
            (element.key element')
      | HostType s \<Rightarrow>
          set_data (\<lambda>d. d\<lparr>elementType := Some (HostType s), type := Some (HostType s),
                            lanes := lanes'\<rparr>)
            (createFiber HostComponent (PendingProps (props element')) (element.key element') mode')
      | ComponentType c \<Rightarrow>
          set_data (\<lambda>d. d\<lparr>elementType := Some (ComponentType c), type := Some (ComponentType c),
                            lanes := lanes'\<rparr>)
            (createFiber FunctionComponent (PendingProps (props element')) (element.key element') mode')
      | LazyType n r \<Rightarrow>
          set_data (\<lambda>d. d\<lparr>elementType := Some (LazyType n r), type := None, lanes := lanes'\<rparr>)
            (createFiber LazyComponent (PendingProps (props element')) (element.key element') mode'))"

text \<open>The JavaScript values that count as false in \<^verbatim>\<open>portal.children || []\<close>.\<close>
definition falsy :: "child \<Rightarrow> bool" where
  "falsy c = (c = CNull \<or> c = CUndefined \<or> c = CBool False \<or> c = CString [] \<or>
              c = CNumber ''0'' \<or> c = CNumber ''NaN'' \<or> c = CBigInt ''0'')"

text \<open>Modelled from the spec: \<^verbatim>\<open>createFiberFromPortal\<close> of ReactFiber, the node of a
  portal: the portal's key, its children (or the empty array) as pending props, and its
  container and implementation in \<open>stateNode\<close>.\<close>
definition createFiberFromPortal :: "portal \<Rightarrow> type_of_mode set \<Rightarrow> lanes \<Rightarrow> fiber" where
  "createFiberFromPortal portal' mode' lanes' =
     set_data (\<lambda>d. d\<lparr>lanes := lanes',
                        stateNode := Some (containerInfo portal', implementation portal')\<rparr>)
       (createFiber HostPortal
          (PendingChildren (if falsy (portal.children portal') then CArray []
                            else portal.children portal'))
          (portal.key portal') mode')"

text \<open>Modelled from the spec: \<^verbatim>\<open>createFiberFromThrow\<close> of ReactFiber, the synthetic
  "throwing" placeholder node: it carries the thrown value, to rethrow it when it is begun.\<close>
definition createFiberFromThrow :: "thrown \<Rightarrow> type_of_mode set \<Rightarrow> lanes \<Rightarrow> fiber" where
  "createFiberFromThrow error mode' lanes' =
     set_data (\<lambda>d. d\<lparr>lanes := lanes'\<rparr>) (createFiber Throw (PendingThrown error) None mode')"

text \<open>Modelled from the spec: \<^verbatim>\<open>createWorkInProgress\<close> of ReactFiber, the work-in-progress
  counterpart of a current node ("clone/reuse that node, carrying over return/committed
  fields"): the plain fields of the current node with the new pending props, no
  structural effect flag and no deletions, and the current node as alternate.\<close>
definition createWorkInProgress :: "fiber \<Rightarrow> pending \<Rightarrow> fiber" where
  "createWorkInProgress current pendingProps' =
     Fiber ((data current)\<lparr>pendingProps := pendingProps', flags := {}\<rparr>)
       (Some current) (return current) None"

section \<open>Update queue: notions used by the theorems\<close>

text \<open>Creating an update and a queue, as the sources do.\<close>

definition createUpdate :: "lane \<Rightarrow> update" where
  "createUpdate lane' = \<lparr>lane = lane', update.tag = UpdateState, payload = PayloadVal JNull,
                          callback = None\<rparr>"

definition initializeUpdateQueue :: "fiber \<Rightarrow> fiber" where
  "initializeUpdateQueue fiber' =
     set_data (\<lambda>d. d\<lparr>updateQueue :=
        Some \<lparr>baseState = memoizedState d, firstBaseUpdate = [],
              shared = \<lparr>pending = [], sharedQueue.lanes = NoLanes, hiddenCallbacks = None\<rparr>,
              callbacks = None\<rparr>\<rparr>) fiber'"

text \<open>The state getStateFromUpdate returns: it depends on the tag and payload of the
  update and on the previous state, not on the fiber or the queue.\<close>

definition nextState :: "environment \<Rightarrow> jsv \<Rightarrow> jsv \<Rightarrow> update_tag \<Rightarrow> payload \<Rightarrow> jsv \<Rightarrow> jsv" where
  "nextState env p i t pl s =
     (case t of
        ReplaceState \<Rightarrow> (case pl of PayloadFn f \<Rightarrow> f i s p | PayloadVal v \<Rightarrow> v)
      | ForceUpdate \<Rightarrow> s
      | _ \<Rightarrow> (let partialState = (case pl of PayloadFn f \<Rightarrow> f i s p | PayloadVal v \<Rightarrow> v)
              in if partialState = JNull \<or> partialState = JUndefined then s
                 else assign env s partialState))"

text \<open>Folding a list of updates into a state, in list order.\<close>

definition foldState :: "environment \<Rightarrow> jsv \<Rightarrow> jsv \<Rightarrow> update list \<Rightarrow> jsv \<Rightarrow> jsv" where
  "foldState env p i us s = foldl (\<lambda>s u. nextState env p i (update.tag u) (payload u) s) s us"

text \<open>The records a call of processUpdateQueue walks: the base list, then the pending
  records in the order they were enqueued.\<close>

definition queuedUpdates :: "updateQueue \<Rightarrow> update list" where
  "queuedUpdates q = firstBaseUpdate q @ pending (shared q)"

text \<open>The variables of processUpdateQueue when its loop starts and when it ends.\<close>

definition loopStart :: "fiber \<Rightarrow> updateQueue \<Rightarrow> module_state \<Rightarrow> process_state" where
  "loopStart w q ms =
     \<lparr>wip = w, queue = q\<lparr>shared := (shared q)\<lparr>pending := []\<rparr>\<rparr>,
      newState = baseState q, newLanes = NoLanes, newBaseState = JNull,
      newFirstBaseUpdate = [],
      module = ms\<lparr>didReadFromEntangledAsyncAction := False, hasForceUpdate := False\<rparr>\<rparr>"

definition loopEnd ::
  "environment \<Rightarrow> jsv \<Rightarrow> jsv \<Rightarrow> lanes \<Rightarrow> fiber \<Rightarrow> updateQueue \<Rightarrow> module_state \<Rightarrow> process_state" where
  "loopEnd env p i rl w q ms =
     foldl (\<lambda>st u. processUpdate env p i rl u st) (loopStart w q ms) (queuedUpdates q)"

text \<open>The state that the retained records give when all of them are applied to the
  retained base state; the computed state when nothing is retained.\<close>

definition full :: "environment \<Rightarrow> jsv \<Rightarrow> jsv \<Rightarrow> process_state \<Rightarrow> jsv" where
  "full env p i st = (if newFirstBaseUpdate st = [] then newState st
                      else foldState env p i (newFirstBaseUpdate st) (newBaseState st))"

definition eventual :: "environment \<Rightarrow> jsv \<Rightarrow> jsv \<Rightarrow> fiber \<Rightarrow> updateQueue \<Rightarrow> jsv" where
  "eventual env p i w q =
     (if queuedUpdates q = [] then memoizedState (data w)
      else foldState env p i (queuedUpdates q) (baseState q))"

text \<open>
  A rendering mask includes the tier of a record when the record's lane, without the
  offscreen bit, is a subset of \<^verbatim>\<open>renderLanes\<close> and the skip test of the loop
  (\<^verbatim>\<open>shouldSkipUpdate\<close>, which compares a record made in a hidden tree with the root
  render lanes instead) does not skip the record.
\<close>

definition includesTier :: "environment \<Rightarrow> lanes \<Rightarrow> update \<Rightarrow> bool" where
  "includesTier env renderLanes u =
     (isSubsetOfLanes renderLanes (removeLanes (lane u) (OffscreenLane env)) \<and>
      \<not> shouldSkipUpdate env renderLanes u)"

text \<open>Running processUpdateQueue once per pass on the same fiber, each pass with its own
  mask and its own values of the work loop; props and instance stay the same.\<close>

fun renderPasses ::
  "jsv \<Rightarrow> jsv \<Rightarrow> (environment \<times> lanes) list \<Rightarrow> fiber \<times> module_state
    \<Rightarrow> (fiber \<times> module_state) option" where
  "renderPasses props' inst [] r = Some r"
| "renderPasses props' inst ((env, renderLanes) # rest) (w, ms) =
     (case processUpdateQueue env w props' inst renderLanes ms of
        None \<Rightarrow> None
      | Some r \<Rightarrow> renderPasses props' inst rest r)"

text \<open>The clone of a record that processUpdateQueue appends to the new base list once a
  record has been skipped: a skipped record keeps its lane (without the offscreen bit) and
  its callback, an applied record gets \<^verbatim>\<open>NoLane\<close> and no callback.\<close>

definition retainedClone :: "environment \<Rightarrow> lanes \<Rightarrow> update \<Rightarrow> update" where
  "retainedClone env rl u =
     (if shouldSkipUpdate env rl u
      then \<lparr>lane = removeLanes (lane u) (OffscreenLane env), update.tag = update.tag u,
            payload = payload u, callback = callback u\<rparr>
      else \<lparr>lane = NoLane, update.tag = update.tag u, payload = payload u, callback = None\<rparr>)"

text \<open>An example: a class component fiber whose queue holds two pending records, "set 1" at
  tier 1 and "set 2" at tier 2; merging keeps the newer value.\<close>

definition exampleEnv :: environment where
  "exampleEnv = \<lparr>assign = (\<lambda>prev partial. partial), OffscreenLane = 536870912,
                  getWorkInProgressRootRenderLanes = 3, peekEntangledActionLane = 0\<rparr>"

text \<open>The same values of the work loop while the root renders lane 1 only.\<close>

definition exampleNarrowRootEnv :: environment where
  "exampleNarrowRootEnv = exampleEnv\<lparr>getWorkInProgressRootRenderLanes := 1\<rparr>"

definition exampleSet :: "lane \<Rightarrow> int \<Rightarrow> update" where
  "exampleSet l n = (createUpdate l)\<lparr>update.tag := ReplaceState, payload := PayloadVal (JNum n)\<rparr>"

definition exampleQueue :: updateQueue where
  "exampleQueue =
     \<lparr>baseState = JNum 0, firstBaseUpdate = [],
      shared = \<lparr>pending = [exampleSet 1 1, exampleSet 2 2], sharedQueue.lanes = NoLanes,
                hiddenCallbacks = None\<rparr>,
      callbacks = None\<rparr>"

definition exampleQueueFiber :: fiber where
  "exampleQueueFiber =
     set_data (\<lambda>d. d\<lparr>updateQueue := Some exampleQueue\<rparr>)
       (createFiber ClassComponent (PendingProps (Props 0 CNull)) None {ConcurrentMode})"

definition exampleModule :: module_state where
  "exampleModule = \<lparr>hasForceUpdate = False, didReadFromEntangledAsyncAction = False\<rparr>"

section \<open>Child reconciler: createChildReconciler\<close>

text \<open>
  The functions below are the closures of \<^verbatim>\<open>createChildReconciler(shouldTrackSideEffects)\<close>;
  the flag of the closure is their first argument. \<^verbatim>\<open>reconcileChildFibers\<close> of the
  sources is the instance with \<open>True\<close>, \<^verbatim>\<open>mountChildFibers\<close> the one with \<open>False\<close>.
  The model is the production build (\<^verbatim>\<open>__DEV__\<close> is false): warnings and debug
  information are left out. A function that mutates \<^verbatim>\<open>returnFiber\<close> returns the new
  value of \<^verbatim>\<open>returnFiber\<close> with its result; a function that can throw returns
  \<open>Inl\<close> of the thrown value.
\<close>

definition deleteChild :: "bool \<Rightarrow> fiber \<Rightarrow> fiber \<Rightarrow> fiber" where
  "deleteChild shouldTrackSideEffects returnFiber childToDelete =
     (if \<not> shouldTrackSideEffects then returnFiber
      else case deletions returnFiber of
             None \<Rightarrow>
               set_data (\<lambda>d. d\<lparr>flags := flags d \<union> {ChildDeletion}\<rparr>)
                 (set_deletions (Some [childToDelete]) returnFiber)
           | Some ds \<Rightarrow> set_deletions (Some (ds @ [childToDelete])) returnFiber)"

text \<open>The result is the new \<^verbatim>\<open>returnFiber\<close>; the source function returns \<^verbatim>\<open>null\<close>.\<close>

definition deleteRemainingChildren :: "bool \<Rightarrow> fiber \<Rightarrow> fiber list \<Rightarrow> fiber" where
  "deleteRemainingChildren shouldTrackSideEffects returnFiber currentFirstChild =
     (if \<not> shouldTrackSideEffects then returnFiber
      else foldl (deleteChild shouldTrackSideEffects) returnFiber currentFirstChild)"

text \<open>
  A JavaScript \<^verbatim>\<open>Map<string | number, Fiber>\<close>: an association list in insertion order;
  \<^verbatim>\<open>set\<close> on a key that is present replaces the value in place, \<^verbatim>\<open>forEach\<close> visits the
  entries in list order. A string key and a number key are never equal.
\<close>

datatype map_key = KeyString string | KeyIndex nat

type_synonym fiber_map = "(map_key \<times> fiber) list"

fun map_set :: "fiber_map \<Rightarrow> map_key \<Rightarrow> fiber \<Rightarrow> fiber_map" where
  "map_set [] k v = [(k, v)]"
| "map_set ((k', v') # m) k v = (if k' = k then (k, v) # m else (k', v') # map_set m k v)"

definition map_get :: "fiber_map \<Rightarrow> map_key \<Rightarrow> fiber option" where
  "map_get m k = map_of m k"

definition map_delete :: "fiber_map \<Rightarrow> map_key \<Rightarrow> fiber_map" where
  "map_delete m k = filter (\<lambda>entry. fst entry \<noteq> k) m"

definition mapRemainingChildren :: "fiber list \<Rightarrow> fiber_map" where
  "mapRemainingChildren currentFirstChild =
     foldl (\<lambda>existingChildren existingChild.
              (case fiber_data.key (data existingChild) of
                 Some k \<Rightarrow> map_set existingChildren (KeyString k) existingChild
               | None \<Rightarrow> map_set existingChildren (KeyIndex (index (data existingChild)))
                           existingChild))
        [] currentFirstChild"

definition useFiber :: "fiber \<Rightarrow> pending \<Rightarrow> fiber" where
  "useFiber fiber' pendingProps' =
     set_data (\<lambda>d. d\<lparr>index := 0\<rparr>) (createWorkInProgress fiber' pendingProps')"

definition placeChild :: "bool \<Rightarrow> fiber \<Rightarrow> nat \<Rightarrow> nat \<Rightarrow> fiber \<times> nat" where
  "placeChild shouldTrackSideEffects newFiber lastPlacedIndex newIndex =
     (let newFiber1 = set_data (\<lambda>d. d\<lparr>index := newIndex\<rparr>) newFiber
      in if \<not> shouldTrackSideEffects
         then (set_data (\<lambda>d. d\<lparr>flags := flags d \<union> {Forked}\<rparr>) newFiber1, lastPlacedIndex)
         else case alternate newFiber1 of
                Some current \<Rightarrow>
                  (let oldIndex = index (data current)
                   in if oldIndex < lastPlacedIndex
                      then (set_data (\<lambda>d. d\<lparr>flags := flags d \<union> {Placement, PlacementDEV}\<rparr>)
                              newFiber1, lastPlacedIndex)
                      else (newFiber1, oldIndex))
              | None \<Rightarrow>
                  (set_data (\<lambda>d. d\<lparr>flags := flags d \<union> {Placement, PlacementDEV}\<rparr>) newFiber1,
                   lastPlacedIndex))"

definition placeSingleChild :: "bool \<Rightarrow> fiber \<Rightarrow> fiber" where
  "placeSingleChild shouldTrackSideEffects newFiber =
     (if shouldTrackSideEffects \<and> alternate newFiber = None
      then set_data (\<lambda>d. d\<lparr>flags := flags d \<union> {Placement, PlacementDEV}\<rparr>) newFiber
      else newFiber)"

definition updateTextNode :: "fiber \<Rightarrow> fiber option \<Rightarrow> string \<Rightarrow> lanes \<Rightarrow> fiber" where
  "updateTextNode returnFiber current textContent lanes' =
     (case current of
        None \<Rightarrow>
          set_return returnFiber (createFiberFromText textContent (mode (data returnFiber)) lanes')
      | Some c \<Rightarrow>
          if fiber_data.tag (data c) \<noteq> HostText
          then set_return returnFiber
                 (createFiberFromText textContent (mode (data returnFiber)) lanes')
          else set_return returnFiber (useFiber c (PendingText textContent)))"

definition updateFragment ::
  "fiber \<Rightarrow> fiber option \<Rightarrow> child \<Rightarrow> lanes \<Rightarrow> string option \<Rightarrow> fiber" where
  "updateFragment returnFiber current fragment lanes' key' =
     (case current of
        None \<Rightarrow>
          set_return returnFiber
            (createFiberFromFragment fragment (mode (data returnFiber)) lanes' key')
      | Some c \<Rightarrow>
          if fiber_data.tag (data c) \<noteq> Fragment
          then set_return returnFiber
                 (createFiberFromFragment fragment (mode (data returnFiber)) lanes' key')
          else set_return returnFiber (useFiber c (PendingChildren fragment)))"

text \<open>\<^verbatim>\<open>init(payload)\<close> of a lazy type; on a type that is not lazy the call is a
  \<^verbatim>\<open>TypeError\<close> (the sources call it on lazy types only).\<close>

definition resolveLazy :: "etype \<Rightarrow> thrown + etype" where
  "resolveLazy lazyType =
     (case lazyType of
        LazyType n r \<Rightarrow> r
      | _ \<Rightarrow> Inl (ThrownError ''TypeError: init is not a function''))"

text \<open>
  The test both updateElement and reconcileSingleElement make on a fiber and the type of
  an element that is not a fragment:
  \<^verbatim>\<open>child.elementType === elementType || (typeof elementType === 'object' && elementType !== null
    && elementType.$$typeof === REACT_LAZY_TYPE && resolveLazy(elementType) === child.type)\<close>.
  Resolving a lazy type can throw.
\<close>

definition sameElementType :: "fiber \<Rightarrow> etype \<Rightarrow> thrown + bool" where
  "sameElementType child' elementType' =
     (if elementType (data child') = Some elementType' then Inr True
      else case elementType' of
             LazyType n r \<Rightarrow>
               (case resolveLazy elementType' of
                  Inl x \<Rightarrow> Inl x
                | Inr t \<Rightarrow> Inr (Some t = fiber_data.type (data child')))
           | _ \<Rightarrow> Inr False)"

definition coerceRef :: "fiber \<Rightarrow> fiber option \<Rightarrow> fiber \<Rightarrow> element \<Rightarrow> fiber" where
  "coerceRef returnFiber current workInProgress element' =
     set_data (\<lambda>d. d\<lparr>ref := element.ref element'\<rparr>) workInProgress"

definition updateElement :: "fiber \<Rightarrow> fiber option \<Rightarrow> element \<Rightarrow> lanes \<Rightarrow> thrown + fiber" where
  "updateElement returnFiber current element' lanes' =
     (let elementType' = element.type element';
          created = set_return returnFiber
                      (coerceRef returnFiber current
                         (createFiberFromElement element' (mode (data returnFiber)) lanes')
                         element')
      in if elementType' = REACT_FRAGMENT_TYPE
         then Inr (updateFragment returnFiber current (props.children (props element')) lanes'
                     (element.key element'))
         else case current of
                None \<Rightarrow> Inr created
              | Some c \<Rightarrow>
                  (case sameElementType c elementType' of
                     Inl x \<Rightarrow> Inl x
                   | Inr True \<Rightarrow>
                       Inr (set_return returnFiber
                              (coerceRef returnFiber current
                                 (useFiber c (PendingProps (props element'))) element'))
                   | Inr False \<Rightarrow> Inr created))"

definition updatePortal :: "fiber \<Rightarrow> fiber option \<Rightarrow> portal \<Rightarrow> lanes \<Rightarrow> fiber" where
  "updatePortal returnFiber current portal' lanes' =
     (let created = set_return returnFiber
                      (createFiberFromPortal portal' (mode (data returnFiber)) lanes')
      in case current of
           None \<Rightarrow> created
         | Some c \<Rightarrow>
             if fiber_data.tag (data c) \<noteq> HostPortal \<or>
                stateNode (data c) \<noteq> Some (containerInfo portal', implementation portal')
             then created
             else set_return returnFiber
                    (useFiber c (PendingChildren
                       (if falsy (portal.children portal') then CArray []
                        else portal.children portal'))))"

definition throwOnInvalidObjectType :: "fiber \<Rightarrow> bool \<Rightarrow> thrown" where
  "throwOnInvalidObjectType returnFiber legacy =
     (if legacy
      then ThrownError ''A React Element from an older version of React was rendered.''
      else ThrownError ''Objects are not valid as a React child'')"

fun createChild :: "fiber \<Rightarrow> child \<Rightarrow> lanes \<Rightarrow> thrown + fiber option" where
  "createChild returnFiber (CString s) lanes' =
     (if s \<noteq> []
      then Inr (Some (set_return returnFiber
                        (createFiberFromText s (mode (data returnFiber)) lanes')))
      else Inr None)"
| "createChild returnFiber (CNumber s) lanes' =
     Inr (Some (set_return returnFiber (createFiberFromText s (mode (data returnFiber)) lanes')))"
| "createChild returnFiber (CBigInt s) lanes' =
     Inr (Some (set_return returnFiber (createFiberFromText s (mode (data returnFiber)) lanes')))"
| "createChild returnFiber (CElement e) lanes' =
     Inr (Some (set_return returnFiber
                  (coerceRef returnFiber None
                     (createFiberFromElement e (mode (data returnFiber)) lanes') e)))"
| "createChild returnFiber (CPortal p) lanes' =
     Inr (Some (set_return returnFiber
                  (createFiberFromPortal p (mode (data returnFiber)) lanes')))"
| "createChild returnFiber (CLazy (Inl x)) lanes' = Inl x"
| "createChild returnFiber (CLazy (Inr resolvedChild)) lanes' =
     createChild returnFiber resolvedChild lanes'"
| "createChild returnFiber (CArray xs) lanes' =
     Inr (Some (set_return returnFiber
                  (createFiberFromFragment (CArray xs) (mode (data returnFiber)) lanes' None)))"
| "createChild returnFiber (CThenable (Inl x)) lanes' = Inl x"
| "createChild returnFiber (CThenable (Inr unwrapped)) lanes' =
     createChild returnFiber unwrapped lanes'"
| "createChild returnFiber (CContext v) lanes' = createChild returnFiber v lanes'"
| "createChild returnFiber (CObject legacy) lanes' =
     Inl (throwOnInvalidObjectType returnFiber legacy)"
| "createChild returnFiber CNull lanes' = Inr None"
| "createChild returnFiber CUndefined lanes' = Inr None"
| "createChild returnFiber (CBool b) lanes' = Inr None"
| "createChild returnFiber CFunction lanes' = Inr None"
| "createChild returnFiber CSymbol lanes' = Inr None"

fun updateSlot :: "fiber \<Rightarrow> fiber option \<Rightarrow> child \<Rightarrow> lanes \<Rightarrow> thrown + fiber option" where
  "updateSlot returnFiber oldFiber (CString s) lanes' =
     (if s \<noteq> []
      then (if (case oldFiber of Some f \<Rightarrow> fiber_data.key (data f) | None \<Rightarrow> None) \<noteq> None
            then Inr None
            else Inr (Some (updateTextNode returnFiber oldFiber s lanes')))
      else Inr None)"
| "updateSlot returnFiber oldFiber (CNumber s) lanes' =
     (if (case oldFiber of Some f \<Rightarrow> fiber_data.key (data f) | None \<Rightarrow> None) \<noteq> None
      then Inr None
      else Inr (Some (updateTextNode returnFiber oldFiber s lanes')))"
| "updateSlot returnFiber oldFiber (CBigInt s) lanes' =
     (if (case oldFiber of Some f \<Rightarrow> fiber_data.key (data f) | None \<Rightarrow> None) \<noteq> None
      then Inr None
      else Inr (Some (updateTextNode returnFiber oldFiber s lanes')))"
| "updateSlot returnFiber oldFiber (CElement e) lanes' =
     (if element.key e = (case oldFiber of Some f \<Rightarrow> fiber_data.key (data f) | None \<Rightarrow> None)
      then (case updateElement returnFiber oldFiber e lanes' of
              Inl x \<Rightarrow> Inl x
            | Inr updated \<Rightarrow> Inr (Some updated))
      else Inr None)"
| "updateSlot returnFiber oldFiber (CPortal p) lanes' =
     (if portal.key p = (case oldFiber of Some f \<Rightarrow> fiber_data.key (data f) | None \<Rightarrow> None)
      then Inr (Some (updatePortal returnFiber oldFiber p lanes'))
      else Inr None)"
| "updateSlot returnFiber oldFiber (CLazy (Inl x)) lanes' = Inl x"
| "updateSlot returnFiber oldFiber (CLazy (Inr resolvedChild)) lanes' =
     updateSlot returnFiber oldFiber resolvedChild lanes'"
| "updateSlot returnFiber oldFiber (CArray xs) lanes' =
     (if (case oldFiber of Some f \<Rightarrow> fiber_data.key (data f) | None \<Rightarrow> None) \<noteq> None
      then Inr None
      else Inr (Some (updateFragment returnFiber oldFiber (CArray xs) lanes' None)))"
| "updateSlot returnFiber oldFiber (CThenable (Inl x)) lanes' = Inl x"
| "updateSlot returnFiber oldFiber (CThenable (Inr unwrapped)) lanes' =
     updateSlot returnFiber oldFiber unwrapped lanes'"
| "updateSlot returnFiber oldFiber (CContext v) lanes' =
     updateSlot returnFiber oldFiber v lanes'"
| "updateSlot returnFiber oldFiber (CObject legacy) lanes' =
     Inl (throwOnInvalidObjectType returnFiber legacy)"
| "updateSlot returnFiber oldFiber CNull lanes' = Inr None"
| "updateSlot returnFiber oldFiber CUndefined lanes' = Inr None"
| "updateSlot returnFiber oldFiber (CBool b) lanes' = Inr None"
| "updateSlot returnFiber oldFiber CFunction lanes' = Inr None"
| "updateSlot returnFiber oldFiber CSymbol lanes' = Inr None"

fun updateFromMap ::
  "fiber_map \<Rightarrow> fiber \<Rightarrow> nat \<Rightarrow> child \<Rightarrow> lanes \<Rightarrow> thrown + fiber option" where
  "updateFromMap existingChildren returnFiber newIdx (CString s) lanes' =
     (if s \<noteq> []
      then Inr (Some (updateTextNode returnFiber (map_get existingChildren (KeyIndex newIdx))
                        s lanes'))
      else Inr None)"
| "updateFromMap existingChildren returnFiber newIdx (CNumber s) lanes' =
     Inr (Some (updateTextNode returnFiber (map_get existingChildren (KeyIndex newIdx)) s lanes'))"
| "updateFromMap existingChildren returnFiber newIdx (CBigInt s) lanes' =
     Inr (Some (updateTextNode returnFiber (map_get existingChildren (KeyIndex newIdx)) s lanes'))"
| "updateFromMap existingChildren returnFiber newIdx (CElement e) lanes' =
     (let matchedFiber = map_get existingChildren
                           (case element.key e of None \<Rightarrow> KeyIndex newIdx | Some k \<Rightarrow> KeyString k)
      in case updateElement returnFiber matchedFiber e lanes' of
           Inl x \<Rightarrow> Inl x
         | Inr updated \<Rightarrow> Inr (Some updated))"
| "updateFromMap existingChildren returnFiber newIdx (CPortal p) lanes' =
     (let matchedFiber = map_get existingChildren
                           (case portal.key p of None \<Rightarrow> KeyIndex newIdx | Some k \<Rightarrow> KeyString k)
      in Inr (Some (updatePortal returnFiber matchedFiber p lanes')))"
| "updateFromMap existingChildren returnFiber newIdx (CLazy (Inl x)) lanes' = Inl x"
| "updateFromMap existingChildren returnFiber newIdx (CLazy (Inr resolvedChild)) lanes' =
     updateFromMap existingChildren returnFiber newIdx resolvedChild lanes'"
| "updateFromMap existingChildren returnFiber newIdx (CArray xs) lanes' =
     Inr (Some (updateFragment returnFiber (map_get existingChildren (KeyIndex newIdx))
                  (CArray xs) lanes' None))"
| "updateFromMap existingChildren returnFiber newIdx (CThenable (Inl x)) lanes' = Inl x"
| "updateFromMap existingChildren returnFiber newIdx (CThenable (Inr unwrapped)) lanes' =
     updateFromMap existingChildren returnFiber newIdx unwrapped lanes'"
| "updateFromMap existingChildren returnFiber newIdx (CContext v) lanes' =
     updateFromMap existingChildren returnFiber newIdx v lanes'"
| "updateFromMap existingChildren returnFiber newIdx (CObject legacy) lanes' =
     Inl (throwOnInvalidObjectType returnFiber legacy)"
| "updateFromMap existingChildren returnFiber newIdx CNull lanes' = Inr None"
| "updateFromMap existingChildren returnFiber newIdx CUndefined lanes' = Inr None"
| "updateFromMap existingChildren returnFiber newIdx (CBool b) lanes' = Inr None"
| "updateFromMap existingChildren returnFiber newIdx CFunction lanes' = Inr None"
| "updateFromMap existingChildren returnFiber newIdx CSymbol lanes' = Inr None"

subsection \<open>reconcileChildrenArray\<close>

text \<open>
  The first \<^verbatim>\<open>for\<close> loop: the old chain and the new children are walked together.
  The arguments are the loop variables: \<^verbatim>\<open>oldFiber\<close> (the rest of the old chain), the
  new children from \<^verbatim>\<open>newIdx\<close> on, \<^verbatim>\<open>newIdx\<close>, \<^verbatim>\<open>lastPlacedIndex\<close> and the
  chain built so far (\<^verbatim>\<open>resultingFirstChild\<close> to \<^verbatim>\<open>previousNewFiber\<close>). The result holds
  their values when the loop is left.
\<close>

fun reconcileChildrenArray_scan ::
  "bool \<Rightarrow> fiber \<Rightarrow> lanes \<Rightarrow> fiber list \<Rightarrow> child list \<Rightarrow> nat \<Rightarrow> nat \<Rightarrow> fiber list
    \<Rightarrow> (thrown + fiber list \<times> child list \<times> nat \<times> nat \<times> fiber list) \<times> fiber" where
  "reconcileChildrenArray_scan shouldTrackSideEffects returnFiber lanes' [] newChildren
       newIdx lastPlacedIndex resulting =
     (Inr ([], newChildren, newIdx, lastPlacedIndex, resulting), returnFiber)"
| "reconcileChildrenArray_scan shouldTrackSideEffects returnFiber lanes' (old # olds) []
       newIdx lastPlacedIndex resulting =
     (Inr (old # olds, [], newIdx, lastPlacedIndex, resulting), returnFiber)"
| "reconcileChildrenArray_scan shouldTrackSideEffects returnFiber lanes' (old # olds)
       (newChild # rest) newIdx lastPlacedIndex resulting =
     (let oldFiber = (if index (data old) > newIdx then None else Some old);
          nextOldFiber = (if index (data old) > newIdx then old # olds else olds)
      in case updateSlot returnFiber oldFiber newChild lanes' of
           Inl x \<Rightarrow> (Inl x, returnFiber)
         | Inr None \<Rightarrow>
             (Inr (old # olds, newChild # rest, newIdx, lastPlacedIndex, resulting), returnFiber)
         | Inr (Some newFiber) \<Rightarrow>
             (let returnFiber1 =
                    (if shouldTrackSideEffects \<and> oldFiber \<noteq> None \<and> alternate newFiber = None
                     then deleteChild shouldTrackSideEffects returnFiber old
                     else returnFiber);
                  placed = placeChild shouldTrackSideEffects newFiber lastPlacedIndex newIdx
              in reconcileChildrenArray_scan shouldTrackSideEffects returnFiber1 lanes'
                   nextOldFiber rest (Suc newIdx) (snd placed) (resulting @ [fst placed])))"

text \<open>The second loop: no old fiber is left, every remaining child is created.\<close>

fun reconcileChildrenArray_create ::
  "bool \<Rightarrow> fiber \<Rightarrow> lanes \<Rightarrow> child list \<Rightarrow> nat \<Rightarrow> nat \<Rightarrow> fiber list
    \<Rightarrow> (thrown + fiber list) \<times> fiber" where
  "reconcileChildrenArray_create shouldTrackSideEffects returnFiber lanes' []
       newIdx lastPlacedIndex resulting = (Inr resulting, returnFiber)"
| "reconcileChildrenArray_create shouldTrackSideEffects returnFiber lanes' (newChild # rest)
       newIdx lastPlacedIndex resulting =
     (case createChild returnFiber newChild lanes' of
        Inl x \<Rightarrow> (Inl x, returnFiber)
      | Inr None \<Rightarrow>
          reconcileChildrenArray_create shouldTrackSideEffects returnFiber lanes' rest
            (Suc newIdx) lastPlacedIndex resulting
      | Inr (Some newFiber) \<Rightarrow>
          (let placed = placeChild shouldTrackSideEffects newFiber lastPlacedIndex newIdx
           in reconcileChildrenArray_create shouldTrackSideEffects returnFiber lanes' rest
                (Suc newIdx) (snd placed) (resulting @ [fst placed])))"

text \<open>The third loop: the remaining old fibers are in the map \<^verbatim>\<open>existingChildren\<close>.\<close>

fun reconcileChildrenArray_fromMap ::
  "bool \<Rightarrow> fiber \<Rightarrow> lanes \<Rightarrow> fiber_map \<Rightarrow> child list \<Rightarrow> nat \<Rightarrow> nat \<Rightarrow> fiber list
    \<Rightarrow> (thrown + fiber list \<times> fiber_map) \<times> fiber" where
  "reconcileChildrenArray_fromMap shouldTrackSideEffects returnFiber lanes' existingChildren []
       newIdx lastPlacedIndex resulting = (Inr (resulting, existingChildren), returnFiber)"
| "reconcileChildrenArray_fromMap shouldTrackSideEffects returnFiber lanes' existingChildren
       (newChild # rest) newIdx lastPlacedIndex resulting =
     (case updateFromMap existingChildren returnFiber newIdx newChild lanes' of
        Inl x \<Rightarrow> (Inl x, returnFiber)
      | Inr None \<Rightarrow>
          reconcileChildrenArray_fromMap shouldTrackSideEffects returnFiber lanes'
            existingChildren rest (Suc newIdx) lastPlacedIndex resulting
      | Inr (Some newFiber) \<Rightarrow>
          (let existingChildren1 =
                 (if shouldTrackSideEffects \<and> alternate newFiber \<noteq> None
                  then map_delete existingChildren
                         (case fiber_data.key (data newFiber) of
                            None \<Rightarrow> KeyIndex newIdx
                          | Some k \<Rightarrow> KeyString k)
                  else existingChildren);
               placed = placeChild shouldTrackSideEffects newFiber lastPlacedIndex newIdx
           in reconcileChildrenArray_fromMap shouldTrackSideEffects returnFiber lanes'
                existingChildren1 rest (Suc newIdx) (snd placed) (resulting @ [fst placed])))"

text \<open>
  reconcileChildrenArray: the new chain, or the thrown value, with the new
  \<^verbatim>\<open>returnFiber\<close>. The calls \<^verbatim>\<open>pushTreeFork\<close> made while hydrating write to the tree
  context of another module only.
\<close>

definition reconcileChildrenArray ::
  "bool \<Rightarrow> fiber \<Rightarrow> fiber list \<Rightarrow> child list \<Rightarrow> lanes \<Rightarrow> (thrown + fiber list) \<times> fiber" where
  "reconcileChildrenArray shouldTrackSideEffects returnFiber currentFirstChild newChildren lanes' =
     (case reconcileChildrenArray_scan shouldTrackSideEffects returnFiber lanes'
             currentFirstChild newChildren 0 0 [] of
        (Inl x, returnFiber1) \<Rightarrow> (Inl x, returnFiber1)
      | (Inr (oldFiber, rest, newIdx, lastPlacedIndex, resulting), returnFiber1) \<Rightarrow>
          if rest = []
          then (Inr resulting,
                deleteRemainingChildren shouldTrackSideEffects returnFiber1 oldFiber)
          else if oldFiber = []
          then reconcileChildrenArray_create shouldTrackSideEffects returnFiber1 lanes' rest
                 newIdx lastPlacedIndex resulting
          else
            (case reconcileChildrenArray_fromMap shouldTrackSideEffects returnFiber1 lanes'
                    (mapRemainingChildren oldFiber) rest newIdx lastPlacedIndex resulting of
               (Inl x, returnFiber2) \<Rightarrow> (Inl x, returnFiber2)
             | (Inr (resulting2, existingChildren), returnFiber2) \<Rightarrow>
                 (Inr resulting2,
                  if shouldTrackSideEffects
                  then foldl (\<lambda>rf entry. deleteChild shouldTrackSideEffects rf (snd entry))
                         returnFiber2 existingChildren
                  else returnFiber2)))"

subsection \<open>Single children\<close>

definition reconcileSingleTextNode ::
  "bool \<Rightarrow> fiber \<Rightarrow> fiber list \<Rightarrow> string \<Rightarrow> lanes \<Rightarrow> fiber \<times> fiber" where
  "reconcileSingleTextNode shouldTrackSideEffects returnFiber currentFirstChild textContent lanes' =
     (case currentFirstChild of
        [] \<Rightarrow>
          (let returnFiber1 = deleteRemainingChildren shouldTrackSideEffects returnFiber []
           in (set_return returnFiber1
                 (createFiberFromText textContent (mode (data returnFiber1)) lanes'),
               returnFiber1))
      | first # siblings \<Rightarrow>
          if fiber_data.tag (data first) = HostText
          then (let returnFiber1 =
                      deleteRemainingChildren shouldTrackSideEffects returnFiber siblings
                in (set_return returnFiber1 (useFiber first (PendingText textContent)),
                    returnFiber1))
          else (let returnFiber1 =
                      deleteRemainingChildren shouldTrackSideEffects returnFiber
                        (first # siblings)
                in (set_return returnFiber1
                      (createFiberFromText textContent (mode (data returnFiber1)) lanes'),
                    returnFiber1)))"

text \<open>
  The \<^verbatim>\<open>while\<close> loop of reconcileSingleElement over the old chain. \<open>Some existing\<close> is
  the reused fiber the loop returns; \<open>None\<close> means the loop was left without one.
\<close>

fun reconcileSingleElement_scan ::
  "bool \<Rightarrow> fiber \<Rightarrow> element \<Rightarrow> fiber list \<Rightarrow> (thrown + fiber option) \<times> fiber" where
  "reconcileSingleElement_scan shouldTrackSideEffects returnFiber element' [] =
     (Inr None, returnFiber)"
| "reconcileSingleElement_scan shouldTrackSideEffects returnFiber element' (child' # siblings) =
     (if fiber_data.key (data child') = element.key element'
      then
        (if element.type element' = REACT_FRAGMENT_TYPE
         then
           (if fiber_data.tag (data child') = Fragment
            then (let returnFiber1 =
                        deleteRemainingChildren shouldTrackSideEffects returnFiber siblings
                  in (Inr (Some (set_return returnFiber1
                                   (useFiber child'
                                      (PendingChildren (props.children (props element')))))),
                      returnFiber1))
            else (Inr None,
                  deleteRemainingChildren shouldTrackSideEffects returnFiber
                    (child' # siblings)))
         else
           (case sameElementType child' (element.type element') of
              Inl x \<Rightarrow> (Inl x, returnFiber)
            | Inr True \<Rightarrow>
                (let returnFiber1 =
                       deleteRemainingChildren shouldTrackSideEffects returnFiber siblings
                 in (Inr (Some (set_return returnFiber1
                                  (coerceRef returnFiber1 (Some child')
                                     (useFiber child' (PendingProps (props element')))
                                     element'))),
                     returnFiber1))
            | Inr False \<Rightarrow>
                (Inr None,
                 deleteRemainingChildren shouldTrackSideEffects returnFiber
                   (child' # siblings))))
      else reconcileSingleElement_scan shouldTrackSideEffects
             (deleteChild shouldTrackSideEffects returnFiber child') element' siblings)"

definition reconcileSingleElement ::
  "bool \<Rightarrow> fiber \<Rightarrow> fiber list \<Rightarrow> element \<Rightarrow> lanes \<Rightarrow> (thrown + fiber) \<times> fiber" where
  "reconcileSingleElement shouldTrackSideEffects returnFiber currentFirstChild element' lanes' =
     (case reconcileSingleElement_scan shouldTrackSideEffects returnFiber element'
             currentFirstChild of
        (Inl x, returnFiber1) \<Rightarrow> (Inl x, returnFiber1)
      | (Inr (Some existing), returnFiber1) \<Rightarrow> (Inr existing, returnFiber1)
      | (Inr None, returnFiber1) \<Rightarrow>
          if element.type element' = REACT_FRAGMENT_TYPE
          then (Inr (set_return returnFiber1
                       (createFiberFromFragment (props.children (props element'))
                          (mode (data returnFiber1)) lanes' (element.key element'))),
                returnFiber1)
          else (Inr (set_return returnFiber1
                       (coerceRef returnFiber1 (case currentFirstChild of [] \<Rightarrow> None | c # cs \<Rightarrow> Some c)
                          (createFiberFromElement element' (mode (data returnFiber1)) lanes')
                          element')),
                returnFiber1))"

fun reconcileSinglePortal_scan ::
  "bool \<Rightarrow> fiber \<Rightarrow> portal \<Rightarrow> fiber list \<Rightarrow> fiber option \<times> fiber" where
  "reconcileSinglePortal_scan shouldTrackSideEffects returnFiber portal' [] = (None, returnFiber)"
| "reconcileSinglePortal_scan shouldTrackSideEffects returnFiber portal' (child' # siblings) =
     (if fiber_data.key (data child') = portal.key portal'
      then
        (if fiber_data.tag (data child') = HostPortal \<and>
            stateNode (data child') = Some (containerInfo portal', implementation portal')
         then (let returnFiber1 =
                     deleteRemainingChildren shouldTrackSideEffects returnFiber siblings
               in (Some (set_return returnFiber1
                           (useFiber child'
                              (PendingChildren
                                 (if falsy (portal.children portal') then CArray []
                                  else portal.children portal')))),
                   returnFiber1))
         else (None,
               deleteRemainingChildren shouldTrackSideEffects returnFiber (child' # siblings)))
      else reconcileSinglePortal_scan shouldTrackSideEffects
             (deleteChild shouldTrackSideEffects returnFiber child') portal' siblings)"

definition reconcileSinglePortal ::
  "bool \<Rightarrow> fiber \<Rightarrow> fiber list \<Rightarrow> portal \<Rightarrow> lanes \<Rightarrow> fiber \<times> fiber" where
  "reconcileSinglePortal shouldTrackSideEffects returnFiber currentFirstChild portal' lanes' =
     (case reconcileSinglePortal_scan shouldTrackSideEffects returnFiber portal'
             currentFirstChild of
        (Some existing, returnFiber1) \<Rightarrow> (existing, returnFiber1)
      | (None, returnFiber1) \<Rightarrow>
          (set_return returnFiber1
             (createFiberFromPortal portal' (mode (data returnFiber1)) lanes'),
           returnFiber1))"

subsection \<open>reconcileChildFibersImpl and reconcileChildFibers\<close>

text \<open>A top-level fragment element without a key stands for its children.\<close>

definition unwrapTopLevelFragment :: "child \<Rightarrow> child" where
  "unwrapTopLevelFragment newChild =
     (case newChild of
        CElement e \<Rightarrow>
          if element.type e = REACT_FRAGMENT_TYPE \<and> element.key e = None
          then props.children (props e)
          else newChild
      | _ \<Rightarrow> newChild)"

text \<open>The number of lazy, thenable and context wrappers around a child: each recursive
  call of reconcileChildFibersImpl removes one.\<close>

fun wrappers :: "child \<Rightarrow> nat" where
  "wrappers (CLazy (Inr c)) = Suc (wrappers c)"
| "wrappers (CThenable (Inr c)) = Suc (wrappers c)"
| "wrappers (CContext c) = Suc (wrappers c)"
| "wrappers (CElement (Element t k r (Props a c))) = Suc (wrappers c)"
| "wrappers _ = 0"

text \<open>
  reconcileChildFibersImpl: the new first child is the chain it heads, \<open>[]\<close> is
  \<^verbatim>\<open>null\<close>.
\<close>

function reconcileChildFibersImpl ::
  "bool \<Rightarrow> fiber \<Rightarrow> fiber list \<Rightarrow> child \<Rightarrow> lanes \<Rightarrow> (thrown + fiber list) \<times> fiber" where
  "reconcileChildFibersImpl shouldTrackSideEffects returnFiber currentFirstChild newChild lanes' =
     (case unwrapTopLevelFragment newChild of
        CElement e \<Rightarrow>
          (case reconcileSingleElement shouldTrackSideEffects returnFiber currentFirstChild e
                  lanes' of
             (Inl x, returnFiber1) \<Rightarrow> (Inl x, returnFiber1)
           | (Inr f, returnFiber1) \<Rightarrow>
               (Inr [placeSingleChild shouldTrackSideEffects f], returnFiber1))
      | CPortal p \<Rightarrow>
          (case reconcileSinglePortal shouldTrackSideEffects returnFiber currentFirstChild p
                  lanes' of
             (f, returnFiber1) \<Rightarrow>
               (Inr [placeSingleChild shouldTrackSideEffects f], returnFiber1))
      | CLazy r \<Rightarrow>
          (case r of
             Inl x \<Rightarrow> (Inl x, returnFiber)
           | Inr result \<Rightarrow>
               reconcileChildFibersImpl shouldTrackSideEffects returnFiber currentFirstChild
                 result lanes')
      | CArray xs \<Rightarrow>
          reconcileChildrenArray shouldTrackSideEffects returnFiber currentFirstChild xs lanes'
      | CThenable r \<Rightarrow>
          (case r of
             Inl x \<Rightarrow> (Inl x, returnFiber)
           | Inr unwrapped \<Rightarrow>
               reconcileChildFibersImpl shouldTrackSideEffects returnFiber currentFirstChild
                 unwrapped lanes')
      | CContext v \<Rightarrow>
          reconcileChildFibersImpl shouldTrackSideEffects returnFiber currentFirstChild v lanes'
      | CObject legacy \<Rightarrow> (Inl (throwOnInvalidObjectType returnFiber legacy), returnFiber)
      | CString s \<Rightarrow>
          if s \<noteq> []
          then (case reconcileSingleTextNode shouldTrackSideEffects returnFiber
                       currentFirstChild s lanes' of
                  (f, returnFiber1) \<Rightarrow>
                    (Inr [placeSingleChild shouldTrackSideEffects f], returnFiber1))
          else (Inr [],
                deleteRemainingChildren shouldTrackSideEffects returnFiber currentFirstChild)
      | CNumber s \<Rightarrow>
          (case reconcileSingleTextNode shouldTrackSideEffects returnFiber currentFirstChild s
                  lanes' of
             (f, returnFiber1) \<Rightarrow>
               (Inr [placeSingleChild shouldTrackSideEffects f], returnFiber1))
      | CBigInt s \<Rightarrow>
          (case reconcileSingleTextNode shouldTrackSideEffects returnFiber currentFirstChild s
                  lanes' of
             (f, returnFiber1) \<Rightarrow>
               (Inr [placeSingleChild shouldTrackSideEffects f], returnFiber1))
      | _ \<Rightarrow>
          (Inr [],
           deleteRemainingChildren shouldTrackSideEffects returnFiber currentFirstChild))"
  by pat_completeness auto
termination
proof -
  have el: "wrappers (props.children (props e)) \<le> wrappers (CElement e)" for e
  proof (cases e)
    case (Element t k r ps)
    then show ?thesis by (cases ps) simp
  qed
  have le: "wrappers (unwrapTopLevelFragment c) \<le> wrappers c" for c
    using el by (cases c) (simp_all add: unwrapTopLevelFragment_def)
  have lz: "wrappers c' < wrappers c" if "unwrapTopLevelFragment c = CLazy (Inr c')" for c c'
    using le [of c] that by simp
  have th: "wrappers c' < wrappers c" if "unwrapTopLevelFragment c = CThenable (Inr c')" for c c'
    using le [of c] that by simp
  have cx: "wrappers c' < wrappers c" if "unwrapTopLevelFragment c = CContext c'" for c c'
    using le [of c] that by simp
  show ?thesis
    by (relation "measure (\<lambda>(t, rf, cfc, c, l). wrappers c)") (auto simp: lz th cx)
qed

declare reconcileChildFibersImpl.simps [simp del]

text \<open>
  What the \<^verbatim>\<open>catch\<close> block of reconcileChildFibers rethrows: the suspense exception, and
  in legacy mode a thenable. \<open>disableLegacyMode\<close> is a feature flag of
  \<^verbatim>\<open>shared/ReactFeatureFlags\<close>, a parameter here.
\<close>

definition isThenable :: "thrown \<Rightarrow> bool" where
  "isThenable x = (case x of ThrownThenable n \<Rightarrow> True | _ \<Rightarrow> False)"

definition rethrows :: "bool \<Rightarrow> fiber \<Rightarrow> thrown \<Rightarrow> bool" where
  "rethrows disableLegacyMode returnFiber x =
     (x = SuspenseException \<or>
      (\<not> disableLegacyMode \<and> ConcurrentMode \<notin> mode (data returnFiber) \<and> isThenable x))"

text \<open>
  reconcileChildFibers. The thenable counter and state that \<^verbatim>\<open>unwrapThenable\<close> passes to
  \<^verbatim>\<open>trackUsedThenable\<close> are not modelled: a thenable child carries what unwrapping it
  does.
\<close>

definition reconcileChildFibers ::
  "bool \<Rightarrow> bool \<Rightarrow> fiber \<Rightarrow> fiber list \<Rightarrow> child \<Rightarrow> lanes \<Rightarrow> (thrown + fiber list) \<times> fiber" where
  "reconcileChildFibers shouldTrackSideEffects disableLegacyMode returnFiber currentFirstChild
       newChild lanes' =
     (case reconcileChildFibersImpl shouldTrackSideEffects returnFiber currentFirstChild
             newChild lanes' of
        (Inr firstChildFiber, returnFiber1) \<Rightarrow> (Inr firstChildFiber, returnFiber1)
      | (Inl x, returnFiber1) \<Rightarrow>
          if rethrows disableLegacyMode returnFiber1 x then (Inl x, returnFiber1)
          else (Inr [set_return returnFiber1
                       (createFiberFromThrow x (mode (data returnFiber1)) lanes')],
                returnFiber1))"

section \<open>Child reconciler: notions used by the theorems\<close>

text \<open>The deletions array of a fiber as a list (\<^verbatim>\<open>null\<close> is the empty list).\<close>

definition deletionsOf :: "fiber \<Rightarrow> fiber list" where
  "deletionsOf f = (case deletions f of None \<Rightarrow> [] | Some ds \<Rightarrow> ds)"

text \<open>The current fibers that the fibers of a new chain reuse, in chain order.\<close>

definition alternates :: "fiber list \<Rightarrow> fiber list" where
  "alternates chain = concat (map (\<lambda>f. case alternate f of None \<Rightarrow> [] | Some a \<Rightarrow> [a]) chain)"

text \<open>The key under which mapRemainingChildren stores a fiber: its explicit key, or its
  index when it has none.\<close>

definition lookupKey :: "fiber \<Rightarrow> map_key" where
  "lookupKey f = (case fiber_data.key (data f) of
                    Some k \<Rightarrow> KeyString k
                  | None \<Rightarrow> KeyIndex (index (data f)))"

text \<open>The map of remaining children is well formed when no key occurs twice and every
  fiber is stored under its own lookup key.\<close>

definition wf_map :: "fiber_map \<Rightarrow> bool" where
  "wf_map m = (distinct (map fst m) \<and> (\<forall>entry \<in> set m. fst entry = lookupKey (snd entry)))"

text \<open>
  What reconcileSingleElement tests on the first old sibling whose key is the element's:
  for a fragment element that the sibling is a fragment, otherwise the element types as
  in \<open>sameElementType\<close>.
\<close>

definition compatibleType :: "fiber \<Rightarrow> element \<Rightarrow> thrown + bool" where
  "compatibleType child' element' =
     (if element.type element' = REACT_FRAGMENT_TYPE
      then Inr (fiber_data.tag (data child') = Fragment)
      else sameElementType child' (element.type element'))"

text \<open>Examples: a host parent, keyed list items, and the chain that mounting a list of
  children under the parent gives (the previous chain of a later update).\<close>

definition exampleParent :: fiber where
  "exampleParent = createFiber HostComponent (PendingProps (Props 0 CNull)) None {ConcurrentMode}"

definition exampleElement :: "string \<Rightarrow> string \<Rightarrow> element" where
  "exampleElement t k = Element (HostType t) (Some k) None (Props 0 CNull)"

definition exampleItem :: "string \<Rightarrow> string \<Rightarrow> child" where
  "exampleItem t k = CElement (Element (HostType t) (Some k) None (Props 0 CNull))"

definition mountedChain :: "fiber \<Rightarrow> child list \<Rightarrow> fiber list" where
  "mountedChain parent' children' =
     (case reconcileChildFibers False False parent' [] (CArray children') 0 of
        (Inr chain, returnFiber1) \<Rightarrow> chain
      | (Inl x, returnFiber1) \<Rightarrow> [])"

text \<open>A current host fiber with the given key, type and index, as a committed list item.\<close>

definition exampleFiber :: "string \<Rightarrow> string \<Rightarrow> nat \<Rightarrow> fiber" where
  "exampleFiber t k i =
     set_data (\<lambda>d. d\<lparr>index := i\<rparr>)
       (createFiberFromElement (Element (HostType t) (Some k) None (Props 0 CNull))
          {ConcurrentMode} 0)"

text \<open>The previous chains of the examples: keys A, B, C; keys A, B; and the chain that
  mounting two items with the same key A gives.\<close>

definition exampleABC :: "fiber list" where
  "exampleABC = [exampleFiber ''li'' ''A'' 0, exampleFiber ''li'' ''B'' 1,
                 exampleFiber ''li'' ''C'' 2]"

definition exampleAB :: "fiber list" where
  "exampleAB = [exampleFiber ''li'' ''A'' 0, exampleFiber ''li'' ''B'' 1]"

definition exampleAA :: "fiber list" where
  "exampleAA = mountedChain exampleParent [exampleItem ''li'' ''A'', exampleItem ''li'' ''A'']"

section \<open>The pending queue as linked objects\<close>

text \<open>
  The block of processUpdateQueue that moves \<^verbatim>\<open>queue.shared.pending\<close> behind the base
  updates works on shared, mutable objects: update objects linked by \<^verbatim>\<open>next\<close>, the two
  queue objects of a fiber and its alternate, and the shared queue object both point to.
  Here the objects live in a store, one partial map per kind of object, and a field that
  holds an object holds its address; \<open>None\<close> is \<^verbatim>\<open>null\<close>. An update object is an
  update record with its \<^verbatim>\<open>next\<close> field. Of a fiber, a queue and a shared queue the
  store keeps the fields this block reads or writes.
\<close>

type_synonym address = nat

record update_object = update +
  next_ref :: "address option"

record shared_object =
  pending_ref :: "address option"

record queue_object =
  firstBaseUpdate_ref :: "address option"
  lastBaseUpdate_ref :: "address option"
  shared_ref :: address

record fiber_object =
  updateQueue_ref :: "address option"
  alternate_ref :: "address option"

record store =
  fibers :: "address \<rightharpoonup> fiber_object"
  queues :: "address \<rightharpoonup> queue_object"
  shareds :: "address \<rightharpoonup> shared_object"
  updates :: "address \<rightharpoonup> update_object"

text \<open>Reading a field of \<^verbatim>\<open>null\<close> throws a \<^verbatim>\<open>TypeError\<close>. An address without an object
  has no counterpart in JavaScript; the model throws there too.\<close>

definition nullTypeError :: thrown where
  "nullTypeError = ThrownError ''TypeError: Cannot read properties of null''"

definition danglingAddress :: thrown where
  "danglingAddress = ThrownError ''no object at this address''"

text \<open>\<^verbatim>\<open>update.next = value\<close> on the update object at an address.\<close>

definition set_next :: "store \<Rightarrow> address \<Rightarrow> address option \<Rightarrow> thrown + store" where
  "set_next s a v =
     (case updates s a of
        None \<Rightarrow> Inl danglingAddress
      | Some ob \<Rightarrow> Inr (s\<lparr>updates := (updates s)(a \<mapsto> ob\<lparr>next_ref := v\<rparr>)\<rparr>))"

text \<open>
  The part of the block that runs when \<^verbatim>\<open>workInProgress.alternate\<close> is not
  \<^verbatim>\<open>null\<close>. \<open>lastBaseUpdate'\<close> is the local variable, which holds
  \<^verbatim>\<open>lastPendingUpdate\<close> by now.
\<close>

definition transferToCurrent ::
  "store \<Rightarrow> address \<Rightarrow> address option \<Rightarrow> address \<Rightarrow> address option \<Rightarrow> thrown + store" where
  "transferToCurrent s current firstPendingUpdate lastPendingUpdate lastBaseUpdate' =
     (case fibers s current of
        None \<Rightarrow> Inl danglingAddress
      | Some currentFiber \<Rightarrow>
          (case updateQueue_ref currentFiber of
             None \<Rightarrow> Inl nullTypeError
           | Some currentQueue \<Rightarrow>
               (case queues s currentQueue of
                  None \<Rightarrow> Inl danglingAddress
                | Some cq \<Rightarrow>
                    (let currentLastBaseUpdate = lastBaseUpdate_ref cq
                     in if currentLastBaseUpdate \<noteq> lastBaseUpdate'
                        then (case (case currentLastBaseUpdate of
                                      None \<Rightarrow>
                                        Inr (s\<lparr>queues := (queues s)(currentQueue \<mapsto>
                                               cq\<lparr>firstBaseUpdate_ref := firstPendingUpdate\<rparr>)\<rparr>)
                                    | Some l \<Rightarrow> set_next s l firstPendingUpdate) of
                                Inl x \<Rightarrow> Inl x
                              | Inr s1 \<Rightarrow>
                                  (case queues s1 currentQueue of
                                     None \<Rightarrow> Inl danglingAddress
                                   | Some cq1 \<Rightarrow>
                                       Inr (s1\<lparr>queues := (queues s1)(currentQueue \<mapsto>
                                              cq1\<lparr>lastBaseUpdate_ref :=
                                                     Some lastPendingUpdate\<rparr>)\<rparr>)))
                        else Inr s))))"

text \<open>
  \<^verbatim>\<open>if (lastBaseUpdate === null) firstBaseUpdate = firstPendingUpdate; else
  lastBaseUpdate.next = firstPendingUpdate;\<close> with the new store and the new value of the
  local variable \<^verbatim>\<open>firstBaseUpdate\<close>.
\<close>

definition appendToBase ::
  "store \<Rightarrow> address option \<Rightarrow> address option \<Rightarrow> address option
    \<Rightarrow> thrown + store \<times> address option" where
  "appendToBase s firstBaseUpdate' lastBaseUpdate' firstPendingUpdate =
     (case lastBaseUpdate' of
        None \<Rightarrow> Inr (s, firstPendingUpdate)
      | Some l \<Rightarrow>
          (case set_next s l firstPendingUpdate of
             Inl x \<Rightarrow> Inl x
           | Inr s1 \<Rightarrow> Inr (s1, firstBaseUpdate')))"

text \<open>
  The body of \<^verbatim>\<open>if (pendingQueue !== null)\<close>, after \<^verbatim>\<open>queue.shared.pending = null\<close>.
\<close>

definition transferNonEmpty ::
  "store \<Rightarrow> fiber_object \<Rightarrow> queue_object \<Rightarrow> address
    \<Rightarrow> thrown + store \<times> address option \<times> address option" where
  "transferNonEmpty s workInProgressFiber q lastPendingUpdate =
     (case updates s lastPendingUpdate of
        None \<Rightarrow> Inl danglingAddress
      | Some lastPending \<Rightarrow>
          (let firstPendingUpdate = next_ref lastPending
           in case set_next s lastPendingUpdate None of
                Inl x \<Rightarrow> Inl x
              | Inr s1 \<Rightarrow>
                  (case appendToBase s1 (firstBaseUpdate_ref q) (lastBaseUpdate_ref q)
                          firstPendingUpdate of
                     Inl x \<Rightarrow> Inl x
                   | Inr (s2, firstBaseUpdate') \<Rightarrow>
                       (case alternate_ref workInProgressFiber of
                          None \<Rightarrow> Inr (s2, firstBaseUpdate', Some lastPendingUpdate)
                        | Some current \<Rightarrow>
                            (case transferToCurrent s2 current firstPendingUpdate
                                    lastPendingUpdate (Some lastPendingUpdate) of
                               Inl x \<Rightarrow> Inl x
                             | Inr s3 \<Rightarrow>
                                 Inr (s3, firstBaseUpdate', Some lastPendingUpdate))))))"

text \<open>
  The block from \<^verbatim>\<open>let firstBaseUpdate = queue.firstBaseUpdate\<close> to the end of
  \<^verbatim>\<open>if (pendingQueue !== null)\<close>. The result is the new store with the values of the
  local variables \<^verbatim>\<open>firstBaseUpdate\<close> and \<^verbatim>\<open>lastBaseUpdate\<close>, the list the loop of
  processUpdateQueue then walks.
\<close>

definition transferPendingQueue ::
  "store \<Rightarrow> address \<Rightarrow> thrown + store \<times> address option \<times> address option" where
  "transferPendingQueue s workInProgress =
     (case fibers s workInProgress of
        None \<Rightarrow> Inl danglingAddress
      | Some workInProgressFiber \<Rightarrow>
          (case updateQueue_ref workInProgressFiber of
             None \<Rightarrow> Inl nullTypeError
           | Some queue' \<Rightarrow>
               (case queues s queue' of
                  None \<Rightarrow> Inl danglingAddress
                | Some q \<Rightarrow>
                    (case shareds s (shared_ref q) of
                       None \<Rightarrow> Inl danglingAddress
                     | Some sharedQueue' \<Rightarrow>
                         (case pending_ref sharedQueue' of
                            None \<Rightarrow> Inr (s, firstBaseUpdate_ref q, lastBaseUpdate_ref q)
                          | Some lastPendingUpdate \<Rightarrow>
                              transferNonEmpty
                                (s\<lparr>shareds := (shareds s)(shared_ref q \<mapsto>
                                      sharedQueue'\<lparr>pending_ref := None\<rparr>)\<rparr>)
                                workInProgressFiber q lastPendingUpdate)))))"

text \<open>
  \<open>segment h p as q\<close>: following \<^verbatim>\<open>next\<close> from the pointer \<open>p\<close> visits the update
  objects at the addresses \<open>as\<close>, in this order, and the \<^verbatim>\<open>next\<close> of the last one is
  \<open>q\<close>. A base-update list is a segment that ends in \<^verbatim>\<open>null\<close>; the pending queue is a
  segment from its first object back to its first object.
\<close>

fun segment ::
  "(address \<rightharpoonup> update_object) \<Rightarrow> address option \<Rightarrow> address list \<Rightarrow> address option \<Rightarrow> bool" where
  "segment h p [] q = (p = q)"
| "segment h p (a # as) q =
     (p = Some a \<and> (case h a of None \<Rightarrow> False | Some ob \<Rightarrow> segment h (next_ref ob) as q))"

text \<open>The base-update list of a queue object holds the update objects at the addresses
  \<open>as\<close>: \<^verbatim>\<open>firstBaseUpdate\<close> starts the list and \<^verbatim>\<open>lastBaseUpdate\<close> is its last
  object, or \<^verbatim>\<open>null\<close> for the empty list.\<close>

definition baseList :: "store \<Rightarrow> queue_object \<Rightarrow> address list \<Rightarrow> bool" where
  "baseList s q as =
     (segment (updates s) (firstBaseUpdate_ref q) as None \<and>
      lastBaseUpdate_ref q = (if as = [] then None else Some (last as)))"

text \<open>The pending queue holds the update objects at the addresses \<open>as\<close>, from the first
  enqueued to the last: \<^verbatim>\<open>shared.pending\<close> is the last one and its \<^verbatim>\<open>next\<close> is the
  first.\<close>

definition pendingRing :: "store \<Rightarrow> shared_object \<Rightarrow> address list \<Rightarrow> bool" where
  "pendingRing s sh as =
     (as \<noteq> [] \<and> distinct as \<and> pending_ref sh = Some (last as) \<and>
      segment (updates s) (Some (hd as)) as (Some (hd as)))"

text \<open>The update record an update object holds.\<close>

definition recordOf :: "update_object \<Rightarrow> update" where
  "recordOf ob = \<lparr>lane = lane ob, tag = update.tag ob, payload = payload ob,
                  callback = callback ob\<rparr>"

text \<open>
  Example: a work-in-progress fiber (address 1) and its alternate (address 2) with their
  own queue objects (addresses 1 and 2) and the same shared queue (address 1). The base
  list of the work-in-progress queue is the update object at address 11, the base list of
  the current queue is the one at address 10; two updates (addresses 20, then 21) are
  pending.
\<close>

definition exampleUpdateObject :: "int \<Rightarrow> address option \<Rightarrow> update_object" where
  "exampleUpdateObject n nxt =
     \<lparr>lane = 1, tag = UpdateState, payload = PayloadVal (JNum n), callback = None,
      next_ref = nxt\<rparr>"

definition exampleStore :: store where
  "exampleStore =
     \<lparr>fibers = [1 \<mapsto> \<lparr>updateQueue_ref = Some 1, alternate_ref = Some 2\<rparr>,
                2 \<mapsto> \<lparr>updateQueue_ref = Some 2, alternate_ref = Some 1\<rparr>],
      queues = [1 \<mapsto> \<lparr>firstBaseUpdate_ref = Some 11, lastBaseUpdate_ref = Some 11,
                       shared_ref = 1\<rparr>,
                2 \<mapsto> \<lparr>firstBaseUpdate_ref = Some 10, lastBaseUpdate_ref = Some 10,
                       shared_ref = 1\<rparr>],
      shareds = [1 \<mapsto> \<lparr>pending_ref = Some 21\<rparr>],
      updates = [10 \<mapsto> exampleUpdateObject 0 None,
                 11 \<mapsto> exampleUpdateObject 0 None,
                 20 \<mapsto> exampleUpdateObject 1 (Some 21),
                 21 \<mapsto> exampleUpdateObject 2 (Some 20)]\<rparr>"

section \<open>Hydration: tryToClaimNextHydratableInstance (React 18.3.1)\<close>

text \<open>
  ReactFiberHydrationContext keeps three module variables, \<^verbatim>\<open>hydrationParentFiber\<close>,
  \<^verbatim>\<open>nextHydratableInstance\<close> (the cursor into the markup) and \<^verbatim>\<open>isHydrating\<close>, and
  mutates the fibers it is given. Fibers live in a store and a variable that holds a fiber
  holds its address, so that a write through one name is seen through the other. The
  model is the production build: the \<^verbatim>\<open>warn...\<close> functions do nothing there. An
  instance of the host (a node of the markup) is a number. The fields of a fiber are the
  ones this module reads or writes, with the prefix \<open>fiber\<close>.
\<close>

type_synonym hydratableInstance = nat

record suspenseState =
  dehydrated :: "hydratableInstance option"
  treeContext :: "nat option"
  retryLane :: lane

record hydrating_fiber =
  fiberTag :: work_tag
  fiberType :: string
  fiberElementType :: string
  fiberPendingProps :: "pending option"
  fiberStateNode :: "hydratableInstance option"
  fiberReturn :: "address option"
  fiberChild :: "address option"
  fiberFlags :: "flag set"
  fiberMode :: "type_of_mode set"
  fiberDeletions :: "address list option"
  fiberMemoizedState :: "suspenseState option"

text \<open>
  What the module imports and this function calls: the host configuration
  (ReactFiberHostConfig), \<^verbatim>\<open>getSuspendedTreeContext\<close> of ReactFiberTreeContext and
  \<^verbatim>\<open>OffscreenLane\<close> of ReactFiberLane. They are parameters.
\<close>

record hydration_environment =
  canHydrateInstance ::
    "hydratableInstance \<Rightarrow> string \<Rightarrow> pending option \<Rightarrow> hydratableInstance option"
  canHydrateTextInstance :: "hydratableInstance \<Rightarrow> pending option \<Rightarrow> hydratableInstance option"
  canHydrateSuspenseInstance :: "hydratableInstance \<Rightarrow> hydratableInstance option"
  getFirstHydratableChild :: "hydratableInstance \<Rightarrow> hydratableInstance option"
  getNextHydratableSibling :: "hydratableInstance \<Rightarrow> hydratableInstance option"
  getSuspendedTreeContext :: "nat option"
  offscreenLane :: lane

text \<open>The store of fibers with the address the next new fiber gets, and the three module
  variables.\<close>

record hydration_state =
  fiberAt :: "address \<rightharpoonup> hydrating_fiber"
  nextFiberAddress :: address
  hydrationParentFiber :: "address option"
  nextHydratableInstance :: "hydratableInstance option"
  isHydrating :: bool

text \<open>A write to fields of the fiber at an address, and a new fiber.\<close>

definition modifyFiber ::
  "hydration_state \<Rightarrow> address \<Rightarrow> (hydrating_fiber \<Rightarrow> hydrating_fiber) \<Rightarrow> hydration_state" where
  "modifyFiber s a g =
     (case fiberAt s a of
        None \<Rightarrow> s
      | Some f \<Rightarrow> s\<lparr>fiberAt := (fiberAt s)(a \<mapsto> g f)\<rparr>)"

definition allocateFiber :: "hydration_state \<Rightarrow> hydrating_fiber \<Rightarrow> address \<times> hydration_state" where
  "allocateFiber s f =
     (nextFiberAddress s,
      s\<lparr>fiberAt := (fiberAt s)(nextFiberAddress s \<mapsto> f),
        nextFiberAddress := Suc (nextFiberAddress s)\<rparr>)"

text \<open>Modelled from the spec: \<^verbatim>\<open>createFiber\<close> of ReactFiber.old for this module, a fresh
  render node with the given tag and mode, no props, no flags and no links.\<close>

definition createHydratingFiber :: "work_tag \<Rightarrow> type_of_mode set \<Rightarrow> hydrating_fiber" where
  "createHydratingFiber tag' mode' =
     \<lparr>fiberTag = tag', fiberType = [], fiberElementType = [], fiberPendingProps = None,
      fiberStateNode = None, fiberReturn = None, fiberChild = None, fiberFlags = {},
      fiberMode = mode', fiberDeletions = None, fiberMemoizedState = None\<rparr>"

text \<open>Modelled from the spec: \<^verbatim>\<open>createFiberFromHostInstanceForDeletion\<close> of
  ReactFiber.old, the dummy node that carries excess markup scheduled for deletion.\<close>

definition createFiberFromHostInstanceForDeletion :: hydrating_fiber where
  "createFiberFromHostInstanceForDeletion =
     (createHydratingFiber HostComponent {})\<lparr>fiberElementType := ''DELETED''\<rparr>"

text \<open>Modelled from the spec: \<^verbatim>\<open>createFiberFromDehydratedFragment\<close> of ReactFiber.old,
  the node of an opaque boundary whose descent is deferred.\<close>

definition createFiberFromDehydratedFragment :: "hydratableInstance \<Rightarrow> hydrating_fiber" where
  "createFiberFromDehydratedFragment dehydratedNode =
     (createHydratingFiber DehydratedFragment {})\<lparr>fiberStateNode := Some dehydratedNode\<rparr>"

text \<open>deleteHydratableInstance; \<^verbatim>\<open>returnFiber\<close> can be \<^verbatim>\<open>null\<close> at the call site, which
  casts it.\<close>

definition deleteHydratableInstance ::
  "hydration_state \<Rightarrow> address option \<Rightarrow> hydratableInstance \<Rightarrow> thrown + hydration_state" where
  "deleteHydratableInstance s returnFiber instance' =
     (let (childToDelete, s1) =
            allocateFiber s (createFiberFromHostInstanceForDeletion
                          \<lparr>fiberStateNode := Some instance', fiberReturn := returnFiber\<rparr>)
      in case returnFiber of
           None \<Rightarrow> Inl nullTypeError
         | Some r \<Rightarrow>
             (case fiberAt s1 r of
                None \<Rightarrow> Inl danglingAddress
              | Some rf \<Rightarrow>
                  (case fiberDeletions rf of
                     None \<Rightarrow>
                       Inr (modifyFiber s1 r
                              (\<lambda>f. f\<lparr>fiberDeletions := Some [childToDelete],
                                      fiberFlags := fiberFlags f \<union> {ChildDeletion}\<rparr>))
                   | Some ds \<Rightarrow>
                       Inr (modifyFiber s1 r
                              (\<lambda>f. f\<lparr>fiberDeletions := Some (ds @ [childToDelete])\<rparr>)))))"

definition insertNonHydratedInstance ::
  "hydration_state \<Rightarrow> address option \<Rightarrow> address \<Rightarrow> hydration_state" where
  "insertNonHydratedInstance s returnFiber fiber' =
     modifyFiber s fiber' (\<lambda>f. f\<lparr>fiberFlags := (fiberFlags f - {Hydrating}) \<union> {Placement}\<rparr>)"

definition tryHydrate ::
  "hydration_environment \<Rightarrow> hydration_state \<Rightarrow> address \<Rightarrow> hydratableInstance
    \<Rightarrow> bool \<times> hydration_state" where
  "tryHydrate env s fiber' nextInstance =
     (case fiberAt s fiber' of
        None \<Rightarrow> (False, s)
      | Some f \<Rightarrow>
          (case fiberTag f of
             HostComponent \<Rightarrow>
               (case canHydrateInstance env nextInstance (fiberType f) (fiberPendingProps f) of
                  Some instance' \<Rightarrow>
                    (True,
                     (modifyFiber s fiber' (\<lambda>f. f\<lparr>fiberStateNode := Some instance'\<rparr>))
                       \<lparr>hydrationParentFiber := Some fiber',
                        nextHydratableInstance := getFirstHydratableChild env instance'\<rparr>)
                | None \<Rightarrow> (False, s))
           | HostText \<Rightarrow>
               (case canHydrateTextInstance env nextInstance (fiberPendingProps f) of
                  Some textInstance \<Rightarrow>
                    (True,
                     (modifyFiber s fiber' (\<lambda>f. f\<lparr>fiberStateNode := Some textInstance\<rparr>))
                       \<lparr>hydrationParentFiber := Some fiber',
                        nextHydratableInstance := None\<rparr>)
                | None \<Rightarrow> (False, s))
           | SuspenseComponent \<Rightarrow>
               (case canHydrateSuspenseInstance env nextInstance of
                  Some suspenseInstance \<Rightarrow>
                    (let state' = \<lparr>dehydrated = Some suspenseInstance,
                                    treeContext = getSuspendedTreeContext env,
                                    retryLane = offscreenLane env\<rparr>;
                         s1 = modifyFiber s fiber' (\<lambda>f. f\<lparr>fiberMemoizedState := Some state'\<rparr>);
                         (dehydratedFragment, s2) =
                           allocateFiber s1 ((createFiberFromDehydratedFragment suspenseInstance)
                                          \<lparr>fiberReturn := Some fiber'\<rparr>);
                         s3 = modifyFiber s2 fiber' (\<lambda>f. f\<lparr>fiberChild := Some dehydratedFragment\<rparr>)
                     in (True, s3\<lparr>hydrationParentFiber := Some fiber',
                                  nextHydratableInstance := None\<rparr>))
                | None \<Rightarrow> (False, s))
           | _ \<Rightarrow> (False, s)))"

definition shouldClientRenderOnMismatch :: "hydrating_fiber \<Rightarrow> bool" where
  "shouldClientRenderOnMismatch f =
     (ConcurrentMode \<in> fiberMode f \<and> DidCapture \<notin> fiberFlags f)"

definition throwOnHydrationMismatch :: thrown where
  "throwOnHydrationMismatch =
     ThrownError (''Hydration failed because the initial UI does not match what was '' @
                  ''rendered on the server.'')"

text \<open>
  tryToClaimNextHydratableInstance. The result is the state when the function returns,
  or the value it throws; nothing has been written when it throws the mismatch error. The
  two reads of \<^verbatim>\<open>fiber.mode\<close> and \<^verbatim>\<open>fiber.flags\<close> need the fiber at the address.
\<close>

definition tryToClaimNextHydratableInstance ::
  "hydration_environment \<Rightarrow> hydration_state \<Rightarrow> address \<Rightarrow> thrown + hydration_state" where
  "tryToClaimNextHydratableInstance env s fiber' =
     (if \<not> isHydrating s then Inr s
      else case fiberAt s fiber' of
             None \<Rightarrow> Inl danglingAddress
           | Some f \<Rightarrow>
               (case nextHydratableInstance s of
                  None \<Rightarrow>
                    if shouldClientRenderOnMismatch f then Inl throwOnHydrationMismatch
                    else Inr ((insertNonHydratedInstance s (hydrationParentFiber s) fiber')
                                \<lparr>isHydrating := False, hydrationParentFiber := Some fiber'\<rparr>)
                | Some firstAttemptedInstance \<Rightarrow>
                    (case tryHydrate env s fiber' firstAttemptedInstance of
                       (True, s1) \<Rightarrow> Inr s1
                     | (False, s1) \<Rightarrow>
                         if shouldClientRenderOnMismatch f then Inl throwOnHydrationMismatch
                         else
                           (let prevHydrationParentFiber = hydrationParentFiber s1;
                                inserted =
                                  (insertNonHydratedInstance s1 (hydrationParentFiber s1) fiber')
                                    \<lparr>isHydrating := False, hydrationParentFiber := Some fiber'\<rparr>
                            in case getNextHydratableSibling env firstAttemptedInstance of
                                 None \<Rightarrow> Inr inserted
                               | Some nextInstance \<Rightarrow>
                                   (case tryHydrate env s1 fiber' nextInstance of
                                      (False, s2) \<Rightarrow>
                                        Inr ((insertNonHydratedInstance s2
                                                (hydrationParentFiber s2) fiber')
                                               \<lparr>isHydrating := False,
                                                hydrationParentFiber := Some fiber'\<rparr>)
                                    | (True, s2) \<Rightarrow>
                                        deleteHydratableInstance s2 prevHydrationParentFiber
                                          firstAttemptedInstance)))))"

text \<open>
  Examples: hydration is on and the markup has no node left; the fiber at address 1 is
  a host component that still carries the hydrating flag, in a legacy-mode tree in the
  first state and in a concurrent-mode tree in the second.
\<close>

definition exampleHydrationEnvironment :: hydration_environment where
  "exampleHydrationEnvironment =
     \<lparr>canHydrateInstance = (\<lambda>i t p. None), canHydrateTextInstance = (\<lambda>i p. None),
      canHydrateSuspenseInstance = (\<lambda>i. None), getFirstHydratableChild = (\<lambda>i. None),
      getNextHydratableSibling = (\<lambda>i. None), getSuspendedTreeContext = None,
      offscreenLane = 536870912\<rparr>"

definition exampleHydrationState :: "type_of_mode set \<Rightarrow> hydration_state" where
  "exampleHydrationState mode' =
     \<lparr>fiberAt = [0 \<mapsto> createHydratingFiber HostRoot mode',
                 1 \<mapsto> (createHydratingFiber HostComponent mode')
                        \<lparr>fiberType := ''div'', fiberFlags := {Hydrating}\<rparr>],
      nextFiberAddress = 2, hydrationParentFiber = Some 0, nextHydratableInstance = None,
      isHydrating = True\<rparr>"

section \<open>Update queue: theorems\<close>

lemma processUpdate_pending:
  "pending (shared (queue (processUpdate env p i rl u st))) = pending (shared (queue st))"
  by (simp add: processUpdate_def Let_def split: prod.splits option.splits)

lemma processUpdates_foldl:
  "pending (shared (queue st)) = [] \<Longrightarrow>
   processUpdates env p i rl us st = foldl (\<lambda>st u. processUpdate env p i rl u st) st us"
proof (induction us arbitrary: st)
  case Nil
  then show ?case by simp
next
  case (Cons u us)
  have pe: "pending (shared (queue (processUpdate env p i rl u st))) = []"
    using Cons.prems by (simp add: processUpdate_pending)
  show ?case
  proof (cases "us = []")
    case True
    then show ?thesis using pe by simp
  next
    case False
    then show ?thesis using Cons.IH [OF pe] by simp
  qed
qed

lemma getStateFromUpdate_eq:
  "getStateFromUpdate env w q u s p i ms =
     (nextState env p i (update.tag u) (payload u) s,
      (if update.tag u = CaptureUpdate
       then set_data (\<lambda>d. d\<lparr>flags := (flags d - {ShouldCapture}) \<union> {DidCapture}\<rparr>) w
       else w),
      (if update.tag u = ForceUpdate then ms\<lparr>hasForceUpdate := True\<rparr> else ms))"
  by (simp add: getStateFromUpdate_def nextState_def Let_def
           split: update_tag.splits payload.splits)

lemma foldState_simps [simp]:
  "foldState env p i [] s = s"
  "foldState env p i (u # us) s = foldState env p i us (nextState env p i (update.tag u) (payload u) s)"
  "foldState env p i (us @ vs) s = foldState env p i vs (foldState env p i us s)"
  by (simp_all add: foldState_def)

lemma newState_processUpdate:
  "newState (processUpdate env p i rl u st) =
     (if shouldSkipUpdate env rl u then newState st
      else nextState env p i (update.tag u) (payload u) (newState st))"
  by (simp add: processUpdate_def getStateFromUpdate_eq Let_def split: option.splits)

lemma newFirstBaseUpdate_processUpdate:
  "newFirstBaseUpdate (processUpdate env p i rl u st) =
     (if shouldSkipUpdate env rl u
      then newFirstBaseUpdate st @
           [\<lparr>lane = removeLanes (lane u) (OffscreenLane env), update.tag = update.tag u,
             payload = payload u, callback = callback u\<rparr>]
      else if newFirstBaseUpdate st = [] then []
      else newFirstBaseUpdate st @
           [\<lparr>lane = NoLane, update.tag = update.tag u, payload = payload u, callback = None\<rparr>])"
  by (simp add: processUpdate_def getStateFromUpdate_eq Let_def split: option.splits)

lemma newBaseState_processUpdate:
  "newBaseState (processUpdate env p i rl u st) =
     (if shouldSkipUpdate env rl u \<and> newFirstBaseUpdate st = [] then newState st
      else newBaseState st)"
  by (simp add: processUpdate_def getStateFromUpdate_eq Let_def split: option.splits)

lemma full_processUpdate:
  "full env p i (processUpdate env p i rl u st) =
     nextState env p i (update.tag u) (payload u) (full env p i st)"
  by (simp add: full_def newState_processUpdate newFirstBaseUpdate_processUpdate
        newBaseState_processUpdate)

lemma full_foldl:
  "full env p i (foldl (\<lambda>st u. processUpdate env p i rl u st) st us) =
     foldState env p i us (full env p i st)"
  by (induction us arbitrary: st) (simp_all add: full_processUpdate)

lemma pending_foldl:
  "pending (shared (queue (foldl (\<lambda>st u. processUpdate env p i rl u st) st us))) =
   pending (shared (queue st))"
  by (induction us arbitrary: st) (simp_all add: processUpdate_pending)

lemma data_set_data [simp]: "data (set_data g f) = g (data f)"
  by (simp add: set_data_def)

lemma processUpdateQueue_unfold:
  assumes q: "updateQueue (data w) = Some q"
  shows "processUpdateQueue env w p i rl ms =
     (if queuedUpdates q = []
      then Some (set_data (\<lambda>d. d\<lparr>updateQueue := Some (q\<lparr>shared := (shared q)\<lparr>pending := []\<rparr>\<rparr>)\<rparr>) w,
                 ms\<lparr>didReadFromEntangledAsyncAction := False, hasForceUpdate := False\<rparr>)
      else (let st = loopEnd env p i rl w q ms
            in Some (set_data (\<lambda>d. d\<lparr>lanes := newLanes st, memoizedState := newState st,
                        updateQueue := Some ((queue st)\<lparr>baseState :=
                            (if newFirstBaseUpdate st = [] then newState st else newBaseState st),
                          firstBaseUpdate := newFirstBaseUpdate st\<rparr>)\<rparr>) (wip st),
                     module st)))"
proof -
  have us: "(if pending (shared q) \<noteq> [] then firstBaseUpdate q @ pending (shared q)
             else firstBaseUpdate q) = queuedUpdates q"
    by (simp add: queuedUpdates_def)
  have q1: "(if pending (shared q) \<noteq> [] then q\<lparr>shared := (shared q)\<lparr>pending := []\<rparr>\<rparr> else q)
            = q\<lparr>shared := (shared q)\<lparr>pending := []\<rparr>\<rparr>"
    by simp
  have start: "\<lparr>wip = w, queue = q\<lparr>shared := (shared q)\<lparr>pending := []\<rparr>\<rparr>,
        newState = baseState (q\<lparr>shared := (shared q)\<lparr>pending := []\<rparr>\<rparr>), newLanes = NoLanes,
        newBaseState = JNull, newFirstBaseUpdate = [],
        module = ms\<lparr>didReadFromEntangledAsyncAction := False, hasForceUpdate := False\<rparr>\<rparr>
      = loopStart w q ms"
    by (simp add: loopStart_def)
  have pe: "pending (shared (queue (loopStart w q ms))) = []"
    by (simp add: loopStart_def)
  have loop: "processUpdates env p i rl (queuedUpdates q) (loopStart w q ms)
      = loopEnd env p i rl w q ms"
    using processUpdates_foldl [OF pe] by (simp add: loopEnd_def)
  show ?thesis
    unfolding processUpdateQueue_def Let_def q option.case us q1 start loop
    by simp
qed

lemma pending_loopEnd: "pending (shared (queue (loopEnd env p i rl w q ms))) = []"
  by (simp add: loopEnd_def pending_foldl) (simp add: loopStart_def)

lemma processUpdateQueue_total:
  "updateQueue (data w) = Some q \<Longrightarrow> \<exists>w' ms'. processUpdateQueue env w p i rl ms = Some (w', ms')"
  by (simp add: processUpdateQueue_unfold Let_def)

lemma processUpdateQueue_empty:
  assumes "updateQueue (data w) = Some q" "queuedUpdates q = []"
    "processUpdateQueue env w p i rl ms = Some (w', ms')"
  shows "memoizedState (data w') = memoizedState (data w)"
    "updateQueue (data w') = Some (q\<lparr>shared := (shared q)\<lparr>pending := []\<rparr>\<rparr>)"
  using assms by (auto simp: processUpdateQueue_unfold)

lemma processUpdateQueue_nonempty:
  assumes "updateQueue (data w) = Some q" "queuedUpdates q \<noteq> []"
    "processUpdateQueue env w p i rl ms = Some (w', ms')"
  shows "memoizedState (data w') = newState (loopEnd env p i rl w q ms)"
    "updateQueue (data w') =
       Some ((queue (loopEnd env p i rl w q ms))\<lparr>baseState :=
                (if newFirstBaseUpdate (loopEnd env p i rl w q ms) = []
                 then newState (loopEnd env p i rl w q ms)
                 else newBaseState (loopEnd env p i rl w q ms)),
              firstBaseUpdate := newFirstBaseUpdate (loopEnd env p i rl w q ms)\<rparr>)"
  using assms by (auto simp: processUpdateQueue_unfold Let_def)

lemma foldl_noskip:
  assumes "\<forall>v \<in> set pre. \<not> shouldSkipUpdate env rl v" "newFirstBaseUpdate st = []"
  shows "newFirstBaseUpdate (foldl (\<lambda>st u. processUpdate env p i rl u st) st pre) = [] \<and>
         newState (foldl (\<lambda>st u. processUpdate env p i rl u st) st pre) =
           foldState env p i pre (newState st) \<and>
         newBaseState (foldl (\<lambda>st u. processUpdate env p i rl u st) st pre) = newBaseState st"
  using assms
  by (induction pre arbitrary: st)
     (simp_all add: newState_processUpdate newFirstBaseUpdate_processUpdate
        newBaseState_processUpdate)

lemma foldl_after_skip:
  assumes "newFirstBaseUpdate st \<noteq> []"
  shows "newFirstBaseUpdate (foldl (\<lambda>st u. processUpdate env p i rl u st) st vs) =
           newFirstBaseUpdate st @ map (retainedClone env rl) vs \<and>
         newBaseState (foldl (\<lambda>st u. processUpdate env p i rl u st) st vs) = newBaseState st"
  using assms
  by (induction vs arbitrary: st)
     (simp_all add: newFirstBaseUpdate_processUpdate newBaseState_processUpdate
        retainedClone_def)

lemma foldState_foldl:
  "foldl (\<lambda>s v. fst (getStateFromUpdate env w q v s p i ms)) s us = foldState env p i us s"
  by (simp add: foldState_def getStateFromUpdate_eq)

text \<open>
  Claim C2. In one call of processUpdateQueue, let \<open>u\<close> be the first record whose tier is
  not a subset of the rendering mask, \<open>pre\<close> the records before it and \<open>post\<close> the records
  after it. Then the new base state is the state computed from the old base state by the
  records of \<open>pre\<close> (not the old base state itself), and the retained base list is exactly
  one clone of \<open>u\<close> followed by one clone of every record of \<open>post\<close>, skipped or not, in
  the same order: none dropped, none duplicated.
\<close>

theorem first_skip_starts_retained_list:
  assumes q: "updateQueue (data w) = Some q"
    and split: "firstBaseUpdate q @ pending (shared q) = pre @ u # post"
    and pre: "\<forall>v \<in> set pre. \<not> shouldSkipUpdate env rl v"
    and u: "shouldSkipUpdate env rl u"
  shows "\<exists>w' ms' q'.
      processUpdateQueue env w p i rl ms = Some (w', ms') \<and>
      updateQueue (data w') = Some q' \<and>
      baseState q' =
        foldl (\<lambda>s v. fst (getStateFromUpdate env w q v s p i ms)) (baseState q) pre \<and>
      firstBaseUpdate q' = map (retainedClone env rl) (u # post) \<and>
      pending (shared q') = []"
proof -
  let ?step = "\<lambda>st u. processUpdate env p i rl u st"
  let ?st0 = "loopStart w q ms"
  let ?st1 = "foldl ?step ?st0 pre"
  let ?st2 = "processUpdate env p i rl u ?st1"
  let ?e = "loopEnd env p i rl w q ms"
  have us: "queuedUpdates q = pre @ u # post"
    using split by (simp add: queuedUpdates_def)
  have st0: "newFirstBaseUpdate ?st0 = []" "newState ?st0 = baseState q"
    by (simp_all add: loopStart_def)
  have st1: "newFirstBaseUpdate ?st1 = []" "newState ?st1 = foldState env p i pre (baseState q)"
    using foldl_noskip [OF pre st0(1), where p = p and i = i] st0(2) by simp_all
  have st2: "newFirstBaseUpdate ?st2 = [retainedClone env rl u]"
            "newBaseState ?st2 = foldState env p i pre (baseState q)"
    using st1 u
    by (simp_all add: newFirstBaseUpdate_processUpdate newBaseState_processUpdate
          retainedClone_def)
  have ne: "newFirstBaseUpdate ?st2 \<noteq> []"
    using st2 by simp
  have e: "?e = foldl ?step ?st2 post"
    by (simp add: loopEnd_def us)
  have fin: "newFirstBaseUpdate ?e = map (retainedClone env rl) (u # post)"
            "newBaseState ?e = foldState env p i pre (baseState q)"
    using foldl_after_skip [OF ne, where vs = post] st2 by (simp_all add: e)
  obtain w' ms' where r: "processUpdateQueue env w p i rl ms = Some (w', ms')"
    using processUpdateQueue_total [OF q] by blast
  have ne': "queuedUpdates q \<noteq> []"
    using us by simp
  have "updateQueue (data w') =
       Some ((queue ?e)\<lparr>baseState := foldState env p i pre (baseState q),
              firstBaseUpdate := map (retainedClone env rl) (u # post)\<rparr>)"
    using processUpdateQueue_nonempty(2) [OF q ne' r] fin by simp
  then show ?thesis
    using r by (simp add: foldState_foldl pending_loopEnd)
qed

theorem first_skip_starts_retained_list_witness:
  "updateQueue (data exampleQueueFiber) = Some exampleQueue \<and>
   firstBaseUpdate exampleQueue @ pending (shared exampleQueue) =
     [exampleSet 1 1] @ exampleSet 2 2 # [] \<and>
   \<not> shouldSkipUpdate exampleEnv 1 (exampleSet 1 1) \<and>
   shouldSkipUpdate exampleEnv 1 (exampleSet 2 2) \<and>
   (\<exists>w' ms' q'.
      processUpdateQueue exampleEnv exampleQueueFiber JNull JNull 1 exampleModule = Some (w', ms') \<and>
      updateQueue (data w') = Some q' \<and>
      baseState q' = JNum 1 \<and>
      firstBaseUpdate q' = [exampleSet 2 2] \<and>
      pending (shared q') = [])"
proof -
  have h1: "updateQueue (data exampleQueueFiber) = Some exampleQueue"
    by (simp add: exampleQueueFiber_def)
  have h2: "firstBaseUpdate exampleQueue @ pending (shared exampleQueue) =
     [exampleSet 1 1] @ exampleSet 2 2 # []"
    by (simp add: exampleQueue_def)
  have h3: "\<forall>v \<in> set [exampleSet 1 1]. \<not> shouldSkipUpdate exampleEnv 1 v"
    by (simp add: shouldSkipUpdate_def exampleSet_def createUpdate_def exampleEnv_def
          removeLanes_def isSubsetOfLanes_def)
  have h4: "shouldSkipUpdate exampleEnv 1 (exampleSet 2 2)"
    by (simp add: shouldSkipUpdate_def exampleSet_def createUpdate_def exampleEnv_def
          removeLanes_def isSubsetOfLanes_def)
  have c: "retainedClone exampleEnv 1 (exampleSet 2 2) = exampleSet 2 2"
    using h4 by (simp add: retainedClone_def)
       (simp add: exampleSet_def createUpdate_def exampleEnv_def removeLanes_def)
  have f: "fst (getStateFromUpdate exampleEnv exampleQueueFiber exampleQueue (exampleSet 1 1)
                 (baseState exampleQueue) JNull JNull exampleModule) = JNum 1"
    by (simp add: getStateFromUpdate_def exampleSet_def createUpdate_def)
  show ?thesis
    using h1 h2 h3 h4
      first_skip_starts_retained_list [OF h1 h2 h3 h4, of JNull JNull exampleModule]
    by (simp add: c f)
qed

lemma nextState_assign:
  "assign e = assign env \<Longrightarrow> nextState e p i t pl s = nextState env p i t pl s"
  by (simp add: nextState_def Let_def split: update_tag.splits)

lemma foldState_assign:
  assumes "assign e = assign env"
  shows "foldState e p i us s = foldState env p i us s"
proof -
  have "nextState e p i t pl s' = nextState env p i t pl s'" for t pl s'
    using assms by (rule nextState_assign)
  then show ?thesis
    by (simp add: foldState_def)
qed

lemma eventual_assign:
  assumes "assign e = assign env"
  shows "eventual e p i w q = eventual env p i w q"
  unfolding eventual_def foldState_assign [OF assms] by (rule refl)

lemma full_loopEnd:
  "full env p i (loopEnd env p i rl w q ms) = foldState env p i (queuedUpdates q) (baseState q)"
  by (simp add: loopEnd_def full_foldl) (simp add: full_def loopStart_def)

lemma lanes_foldl:
  "\<forall>c \<in> set (newFirstBaseUpdate (foldl (\<lambda>st u. processUpdate env p i rl u st) st us)).
      c \<in> set (newFirstBaseUpdate st) \<or>
      lane c = NoLane \<or> (\<exists>u \<in> set us. lane c = removeLanes (lane u) (OffscreenLane env))"
proof (induction us arbitrary: st)
  case Nil
  then show ?case by simp
next
  case (Cons u us)
  show ?case
  proof
    fix c
    assume "c \<in> set (newFirstBaseUpdate (foldl (\<lambda>st u. processUpdate env p i rl u st) st (u # us)))"
    then have "c \<in> set (newFirstBaseUpdate (processUpdate env p i rl u st)) \<or>
       lane c = NoLane \<or> (\<exists>v \<in> set us. lane c = removeLanes (lane v) (OffscreenLane env))"
      using Cons.IH [of "processUpdate env p i rl u st"] by simp
    then show "c \<in> set (newFirstBaseUpdate st) \<or> lane c = NoLane \<or>
       (\<exists>v \<in> set (u # us). lane c = removeLanes (lane v) (OffscreenLane env))"
      by (auto simp: newFirstBaseUpdate_processUpdate split: if_splits)
  qed
qed

lemma pass_keeps_eventual:
  assumes q: "updateQueue (data w) = Some q"
    and r: "processUpdateQueue env w p i rl ms = Some (w', ms')"
  shows "\<exists>q'. updateQueue (data w') = Some q' \<and>
           eventual env p i w' q' = eventual env p i w q \<and>
           (\<forall>c \<in> set (queuedUpdates q').
              lane c = NoLane \<or>
              (\<exists>u \<in> set (queuedUpdates q). lane c = removeLanes (lane u) (OffscreenLane env)))"
proof (cases "queuedUpdates q = []")
  case True
  let ?q' = "q\<lparr>shared := (shared q)\<lparr>pending := []\<rparr>\<rparr>"
  have a: "memoizedState (data w') = memoizedState (data w)" "updateQueue (data w') = Some ?q'"
    using processUpdateQueue_empty [OF q True r] by simp_all
  have b: "queuedUpdates ?q' = []"
    using True by (simp add: queuedUpdates_def)
  show ?thesis
    using a b True by (simp add: eventual_def)
next
  case False
  define e where "e = loopEnd env p i rl w q ms"
  define b where "b = (if newFirstBaseUpdate e = [] then newState e else newBaseState e)"
  define q' where "q' = (queue e)\<lparr>baseState := b, firstBaseUpdate := newFirstBaseUpdate e\<rparr>"
  have a: "memoizedState (data w') = newState e" "updateQueue (data w') = Some q'"
    using processUpdateQueue_nonempty [OF q False r] by (simp_all add: e_def b_def q'_def)
  have qu: "queuedUpdates q' = newFirstBaseUpdate e"
    by (simp add: q'_def queuedUpdates_def e_def pending_loopEnd)
  have bs: "baseState q' = b"
    by (simp add: q'_def)
  have ev: "eventual env p i w' q' = full env p i e"
    unfolding eventual_def full_def qu bs using a(1) by (simp add: b_def)
  have ln: "lane c = NoLane \<or>
            (\<exists>u \<in> set (queuedUpdates q). lane c = removeLanes (lane u) (OffscreenLane env))"
    if "c \<in> set (queuedUpdates q')" for c
  proof -
    have "c \<in> set (newFirstBaseUpdate (foldl (\<lambda>st u. processUpdate env p i rl u st)
                 (loopStart w q ms) (queuedUpdates q)))"
      using that qu by (simp add: loopEnd_def e_def)
    from lanes_foldl [rule_format, OF this] show ?thesis
      by (simp add: loopStart_def)
  qed
  have "eventual env p i w' q' = eventual env p i w q"
    unfolding ev e_def full_loopEnd using False by (simp add: eventual_def)
  then show ?thesis
    using a(2) ln by blast
qed

lemma pass_without_skip:
  assumes q: "updateQueue (data w) = Some q"
    and r: "processUpdateQueue env w p i rl ms = Some (w', ms')"
    and all: "\<forall>u \<in> set (queuedUpdates q). \<not> shouldSkipUpdate env rl u"
  shows "memoizedState (data w') = eventual env p i w q"
proof (cases "queuedUpdates q = []")
  case True
  then show ?thesis
    using processUpdateQueue_empty(1) [OF q True r] by (simp add: eventual_def)
next
  case False
  let ?e = "loopEnd env p i rl w q ms"
  have "newState ?e = foldState env p i (queuedUpdates q) (baseState q)"
    using foldl_noskip [OF all, where st = "loopStart w q ms" and p = p and i = i]
    by (simp add: loopEnd_def) (simp add: loopStart_def)
  then show ?thesis
    using processUpdateQueue_nonempty(1) [OF q False r] False by (simp add: eventual_def)
qed

lemma removeLanes_idem: "removeLanes (removeLanes a b) b = removeLanes a b"
  by (simp add: removeLanes_def and.assoc)

lemma removeLanes_NoLane: "removeLanes NoLane b = NoLane"
  by (simp add: removeLanes_def NoLane_def)

lemma isSubsetOfLanes_NoLane: "isSubsetOfLanes a NoLane"
  by (simp add: isSubsetOfLanes_def NoLane_def)

lemma includesTier_clone:
  assumes "includesTier env rl u" "OffscreenLane e = OffscreenLane env"
    "lane c = NoLane \<or> lane c = removeLanes (lane u) (OffscreenLane e)"
  shows "includesTier env rl c"
  using assms
  by (auto simp: includesTier_def shouldSkipUpdate_def Let_def removeLanes_idem
        removeLanes_NoLane isSubsetOfLanes_NoLane)

lemma includesTier_noskip: "includesTier env rl u \<Longrightarrow> \<not> shouldSkipUpdate env rl u"
  by (simp add: includesTier_def)

lemma passes_reach_eventual:
  assumes "updateQueue (data w) = Some q"
    and "\<forall>pass \<in> set passes. assign (fst pass) = assign env \<and>
                              OffscreenLane (fst pass) = OffscreenLane env"
    and "\<forall>u \<in> set (queuedUpdates q). includesTier env rl u"
  shows "\<exists>w1 ms1. renderPasses p i (passes @ [(env, rl)]) (w, ms) = Some (w1, ms1) \<and>
                   memoizedState (data w1) = eventual env p i w q"
  using assms
proof (induction passes arbitrary: w q ms)
  case Nil
  obtain w' ms' where r: "processUpdateQueue env w p i rl ms = Some (w', ms')"
    using processUpdateQueue_total [OF Nil.prems(1)] by blast
  have "\<forall>u \<in> set (queuedUpdates q). \<not> shouldSkipUpdate env rl u"
    using Nil.prems(3) includesTier_noskip by blast
  from pass_without_skip [OF Nil.prems(1) r this]
  show ?case using r by simp
next
  case (Cons pass passes)
  obtain e l where pass: "pass = (e, l)" by (cases pass)
  have e: "assign e = assign env" "OffscreenLane e = OffscreenLane env"
    using Cons.prems(2) pass by simp_all
  obtain w' ms' where r: "processUpdateQueue e w p i l ms = Some (w', ms')"
    using processUpdateQueue_total [OF Cons.prems(1)] by blast
  from pass_keeps_eventual [OF Cons.prems(1) r]
  obtain q' where q': "updateQueue (data w') = Some q'"
      "eventual e p i w' q' = eventual e p i w q"
      "\<forall>c \<in> set (queuedUpdates q').
              lane c = NoLane \<or>
              (\<exists>u \<in> set (queuedUpdates q). lane c = removeLanes (lane u) (OffscreenLane e))"
    by blast
  have inc: "\<forall>c \<in> set (queuedUpdates q'). includesTier env rl c"
  proof
    fix c assume "c \<in> set (queuedUpdates q')"
    with q'(3) consider "lane c = NoLane"
      | u where "u \<in> set (queuedUpdates q)" "lane c = removeLanes (lane u) (OffscreenLane e)"
      by blast
    then show "includesTier env rl c"
    proof cases
      case 1
      then show ?thesis
        by (simp add: includesTier_def shouldSkipUpdate_def Let_def removeLanes_NoLane
              isSubsetOfLanes_NoLane)
    next
      case 2
      then show ?thesis
        using includesTier_clone [OF _ e(2), of rl u c] Cons.prems(3) by blast
    qed
  qed
  have rest: "\<forall>pass \<in> set passes. assign (fst pass) = assign env \<and>
                              OffscreenLane (fst pass) = OffscreenLane env"
    using Cons.prems(2) by simp
  from Cons.IH [OF q'(1) rest inc, of ms']
  obtain w1 ms1 where "renderPasses p i (passes @ [(env, rl)]) (w', ms') = Some (w1, ms1)"
      "memoizedState (data w1) = eventual env p i w' q'"
    by blast
  then show ?case
    using r pass q'(2) by (simp add: eventual_assign [OF e(1)])
qed

text \<open>
  Claim C1. For every base state and every list of queued records with mixed tiers:
  running processUpdateQueue over any number of passes with any masks and then once more
  with a mask that includes every tier gives the same memoized state as running it once
  with that mask on the original queue, and that state is the fold of all records in
  insertion order. The mask includes a tier in the sense of \<open>includesTier\<close>: the lane of
  the record without the offscreen bit is a subset of the mask, and the skip test of the
  loop does not skip the record. The passes share the \<^verbatim>\<open>assign\<close> function and the
  offscreen lane of the last pass; their masks, root render lanes and entangled lanes are
  arbitrary.
\<close>

theorem queue_determinism:
  assumes q: "updateQueue (data w) = Some q"
    and same: "\<forall>pass \<in> set passes. assign (fst pass) = assign env \<and>
                              OffscreenLane (fst pass) = OffscreenLane env"
    and every: "\<forall>u \<in> set (firstBaseUpdate q @ pending (shared q)). includesTier env rl u"
  shows "\<exists>w1 ms1 w2 ms2.
      renderPasses p i (passes @ [(env, rl)]) (w, ms) = Some (w1, ms1) \<and>
      processUpdateQueue env w p i rl ms = Some (w2, ms2) \<and>
      memoizedState (data w1) = memoizedState (data w2) \<and>
      (firstBaseUpdate q @ pending (shared q) \<noteq> [] \<longrightarrow>
         memoizedState (data w1) =
           foldl (\<lambda>s v. fst (getStateFromUpdate env w q v s p i ms)) (baseState q)
             (firstBaseUpdate q @ pending (shared q)))"
proof -
  have inc: "\<forall>u \<in> set (queuedUpdates q). includesTier env rl u"
    using every by (simp add: queuedUpdates_def)
  from passes_reach_eventual [OF q same inc, of p i ms]
  obtain w1 ms1 where a: "renderPasses p i (passes @ [(env, rl)]) (w, ms) = Some (w1, ms1)"
      "memoizedState (data w1) = eventual env p i w q"
    by blast
  obtain w2 ms2 where b: "processUpdateQueue env w p i rl ms = Some (w2, ms2)"
    using processUpdateQueue_total [OF q] by blast
  have "\<forall>u \<in> set (queuedUpdates q). \<not> shouldSkipUpdate env rl u"
    using inc includesTier_noskip by blast
  from pass_without_skip [OF q b this]
  have c: "memoizedState (data w2) = eventual env p i w q" .
  show ?thesis
    using a b c by (simp add: foldState_foldl) (simp add: eventual_def queuedUpdates_def)
qed

theorem queue_determinism_witness:
  "updateQueue (data exampleQueueFiber) = Some exampleQueue \<and>
   includesTier exampleNarrowRootEnv 3 (exampleSet 1 1) \<and>
   includesTier exampleNarrowRootEnv 3 (exampleSet 2 2) \<and>
   (\<exists>w1 ms1 w2 ms2.
      renderPasses JNull JNull ([(exampleEnv, 1)] @ [(exampleNarrowRootEnv, 3)])
        (exampleQueueFiber, exampleModule) = Some (w1, ms1) \<and>
      processUpdateQueue exampleNarrowRootEnv exampleQueueFiber JNull JNull 3 exampleModule = Some (w2, ms2) \<and>
      memoizedState (data w1) = memoizedState (data w2) \<and>
      memoizedState (data w1) = JNum 2)"
proof -
  have h1: "updateQueue (data exampleQueueFiber) = Some exampleQueue"
    by (simp add: exampleQueueFiber_def)
  have h2: "\<forall>pass \<in> set [(exampleEnv, 1::lanes)]. assign (fst pass) = assign exampleNarrowRootEnv \<and>
      OffscreenLane (fst pass) = OffscreenLane exampleNarrowRootEnv"
    by (simp add: exampleNarrowRootEnv_def)
  have i1: "includesTier exampleNarrowRootEnv 3 (exampleSet 1 1)"
    by (simp add: includesTier_def shouldSkipUpdate_def Let_def exampleSet_def
          createUpdate_def exampleNarrowRootEnv_def exampleEnv_def removeLanes_def
          isSubsetOfLanes_def)
  have i2: "includesTier exampleNarrowRootEnv 3 (exampleSet 2 2)"
    by (simp add: includesTier_def shouldSkipUpdate_def Let_def exampleSet_def
          createUpdate_def exampleNarrowRootEnv_def exampleEnv_def removeLanes_def
          isSubsetOfLanes_def)
  have us: "firstBaseUpdate exampleQueue @ pending (shared exampleQueue) =
      [exampleSet 1 1, exampleSet 2 2]"
    by (simp add: exampleQueue_def)
  have h3: "\<forall>u \<in> set (firstBaseUpdate exampleQueue @ pending (shared exampleQueue)).
      includesTier exampleNarrowRootEnv 3 u"
    unfolding us using i1 i2 by simp
  have f: "foldl (\<lambda>s v. fst (getStateFromUpdate exampleNarrowRootEnv exampleQueueFiber exampleQueue v s
                 JNull JNull exampleModule)) (baseState exampleQueue)
             [exampleSet 1 1, exampleSet 2 2] = JNum 2"
    by (simp add: getStateFromUpdate_def exampleSet_def createUpdate_def)
  have "\<exists>w1 ms1 w2 ms2.
      renderPasses JNull JNull ([(exampleEnv, 1)] @ [(exampleNarrowRootEnv, 3)])
        (exampleQueueFiber, exampleModule) = Some (w1, ms1) \<and>
      processUpdateQueue exampleNarrowRootEnv exampleQueueFiber JNull JNull 3 exampleModule = Some (w2, ms2) \<and>
      memoizedState (data w1) = memoizedState (data w2) \<and>
      memoizedState (data w1) = JNum 2"
    using queue_determinism [OF h1 h2 h3, of JNull JNull exampleModule]
    unfolding us f by simp
  then show ?thesis
    using h1 i1 i2 by blast
qed

section \<open>Child reconciler: theorems\<close>

lemma sel_set_data [simp]:
  "alternate (set_data g f) = alternate f"
  "return (set_data g f) = return f"
  "deletions (set_data g f) = deletions f"
  by (simp_all add: set_data_def)

lemma sel_set_return [simp]:
  "data (set_return r f) = data f"
  "alternate (set_return r f) = alternate f"
  "return (set_return r f) = Some r"
  "deletions (set_return r f) = deletions f"
  by (simp_all add: set_return_def)

lemma sel_set_deletions [simp]:
  "data (set_deletions ds f) = data f"
  "alternate (set_deletions ds f) = alternate f"
  "return (set_deletions ds f) = return f"
  "deletions (set_deletions ds f) = ds"
  by (simp_all add: set_deletions_def)

lemma deletionsOf_deleteChild [simp]:
  "deletionsOf (deleteChild True rf c) = deletionsOf rf @ [c]"
  by (simp add: deleteChild_def deletionsOf_def split: option.splits)

lemma deletionsOf_foldl_deleteChild:
  "deletionsOf (foldl (deleteChild True) rf cs) = deletionsOf rf @ cs"
  by (induction cs arbitrary: rf) simp_all

lemma deletionsOf_deleteRemainingChildren [simp]:
  "deletionsOf (deleteRemainingChildren True rf cs) = deletionsOf rf @ cs"
  by (simp add: deleteRemainingChildren_def deletionsOf_foldl_deleteChild)

lemma data_deleteChild_mode [simp]: "mode (data (deleteChild t rf c)) = mode (data rf)"
  by (simp add: deleteChild_def split: option.splits)

lemma alternate_created [simp]:
  "alternate (createFiber t p k m) = None"
  "alternate (createFiberFromText s m l) = None"
  "alternate (createFiberFromFragment c m l k) = None"
  "alternate (createFiberFromElement e m l) = None"
  "alternate (createFiberFromPortal po m l) = None"
  "alternate (createFiberFromThrow x m l) = None"
  by (simp_all add: createFiber_def createFiberFromText_def createFiberFromFragment_def
        createFiberFromElement_def createFiberFromPortal_def createFiberFromThrow_def
        split: etype.splits)

lemma useFiber_sel [simp]:
  "alternate (useFiber c p) = Some c"
  "fiber_data.key (data (useFiber c p)) = fiber_data.key (data c)"
  "index (data (useFiber c p)) = 0"
  "flags (data (useFiber c p)) = {}"
  by (simp_all add: useFiber_def createWorkInProgress_def)

lemma coerceRef_sel [simp]:
  "alternate (coerceRef rf cur w e) = alternate w"
  "fiber_data.key (data (coerceRef rf cur w e)) = fiber_data.key (data w)"
  "index (data (coerceRef rf cur w e)) = index (data w)"
  "flags (data (coerceRef rf cur w e)) = flags (data w)"
  by (simp_all add: coerceRef_def)

lemma placeChild_alternate [simp]:
  "alternate (fst (placeChild t nf l i)) = alternate nf"
  by (simp add: placeChild_def Let_def split: option.splits)

lemma placeChild_key [simp]:
  "fiber_data.key (data (fst (placeChild t nf l i))) = fiber_data.key (data nf)"
  by (simp add: placeChild_def Let_def split: option.splits)

text \<open>
  Claim C4. With side-effect tracking enabled, placeChild marks a newly created fiber (no
  alternate) for placement and returns \<open>lastPlacedIndex\<close> unchanged; it marks a reused
  fiber whose previous index is less than \<open>lastPlacedIndex\<close>; it adds no flag to a reused
  fiber whose previous index is greater or equal; and for a reused fiber it returns the
  maximum of \<open>lastPlacedIndex\<close> and the previous index. In every case the fiber gets the
  new index.
\<close>

theorem placeChild_high_water_mark:
  "(alternate newFiber = None \<longrightarrow>
      Placement \<in> flags (data (fst (placeChild True newFiber lastPlacedIndex newIndex))) \<and>
      snd (placeChild True newFiber lastPlacedIndex newIndex) = lastPlacedIndex) \<and>
   (\<forall>current. alternate newFiber = Some current \<longrightarrow>
      (index (data current) < lastPlacedIndex \<longrightarrow>
         Placement \<in> flags (data (fst (placeChild True newFiber lastPlacedIndex newIndex)))) \<and>
      (lastPlacedIndex \<le> index (data current) \<longrightarrow>
         flags (data (fst (placeChild True newFiber lastPlacedIndex newIndex))) =
           flags (data newFiber)) \<and>
      snd (placeChild True newFiber lastPlacedIndex newIndex) =
        max lastPlacedIndex (index (data current))) \<and>
   index (data (fst (placeChild True newFiber lastPlacedIndex newIndex))) = newIndex"
  by (auto simp: placeChild_def Let_def split: option.splits)


lemma updateTextNode_alternate:
  "alternate (updateTextNode rf cur s l) = None \<or>
   (\<exists>old. cur = Some old \<and> alternate (updateTextNode rf cur s l) = Some old \<and>
        fiber_data.key (data (updateTextNode rf cur s l)) = fiber_data.key (data old))"
  by (auto simp: updateTextNode_def split: option.splits)

lemma updateFragment_alternate:
  "alternate (updateFragment rf cur c l k) = None \<or>
   (\<exists>old. cur = Some old \<and> alternate (updateFragment rf cur c l k) = Some old \<and>
        fiber_data.key (data (updateFragment rf cur c l k)) = fiber_data.key (data old))"
  by (auto simp: updateFragment_def split: option.splits)

lemma updatePortal_alternate:
  "alternate (updatePortal rf cur p l) = None \<or>
   (\<exists>old. cur = Some old \<and> alternate (updatePortal rf cur p l) = Some old \<and>
        fiber_data.key (data (updatePortal rf cur p l)) = fiber_data.key (data old))"
  by (auto simp: updatePortal_def Let_def split: option.splits)

lemma updateElement_alternate:
  assumes "updateElement rf cur e l = Inr nf"
  shows "alternate nf = None \<or>
   (\<exists>old. cur = Some old \<and> alternate nf = Some old \<and>
        fiber_data.key (data nf) = fiber_data.key (data old))"
proof (cases "element.type e = REACT_FRAGMENT_TYPE")
  case True
  then have "nf = updateFragment rf cur (props.children (props e)) l (element.key e)"
    using assms by (simp add: updateElement_def Let_def)
  then show ?thesis
    using updateFragment_alternate [of rf cur "props.children (props e)" l "element.key e"]
    by simp
next
  case False
  then show ?thesis
    using assms
    by (auto simp: updateElement_def Let_def split: option.splits sum.splits bool.splits)
qed

lemma updateSlot_alternate:
  "updateSlot rf cur c l = Inr (Some nf) \<Longrightarrow>
   alternate nf = None \<or> (\<exists>old. cur = Some old \<and> alternate nf = Some old)"
proof (induction rf cur c l rule: updateSlot.induct)
  case (1 rf cur s l)
  then show ?case
    using updateTextNode_alternate [of rf cur s l] by (auto split: if_splits)
next
  case (2 rf cur s l)
  then show ?case
    using updateTextNode_alternate [of rf cur s l] by (auto split: if_splits)
next
  case (3 rf cur s l)
  then show ?case
    using updateTextNode_alternate [of rf cur s l] by (auto split: if_splits)
next
  case (4 rf cur e l)
  then show ?case
    using updateElement_alternate [of rf cur e l]
    by (auto split: if_splits sum.splits)
next
  case (5 rf cur p l)
  then show ?case
    using updatePortal_alternate [of rf cur p l] by (auto split: if_splits)
next
  case (8 rf cur xs l)
  then show ?case
    using updateFragment_alternate [of rf cur "CArray xs" l None] by (auto split: if_splits)
qed simp_all

lemma createChild_alternate:
  "createChild rf c l = Inr (Some nf) \<Longrightarrow> alternate nf = None"
  by (induction rf c l rule: createChild.induct) (auto split: if_splits)

lemma updateFromMap_alternate:
  "updateFromMap m rf idx c l = Inr (Some nf) \<Longrightarrow>
   alternate nf = None \<or>
   (\<exists>old k. map_get m k = Some old \<and> alternate nf = Some old \<and>
          fiber_data.key (data nf) = fiber_data.key (data old) \<and>
          (k = KeyIndex idx \<or> (\<exists>s. k = KeyString s)))"
proof (induction m rf idx c l rule: updateFromMap.induct)
  case (1 m rf idx s l)
  then show ?case
    using updateTextNode_alternate [of rf "map_get m (KeyIndex idx)" s l]
    by (auto split: if_splits)
next
  case (2 m rf idx s l)
  then show ?case
    using updateTextNode_alternate [of rf "map_get m (KeyIndex idx)" s l]
    by (auto split: if_splits)
next
  case (3 m rf idx s l)
  then show ?case
    using updateTextNode_alternate [of rf "map_get m (KeyIndex idx)" s l]
    by (auto split: if_splits)
next
  case (4 m rf idx e l)
  let ?k = "case element.key e of None \<Rightarrow> KeyIndex idx | Some k \<Rightarrow> KeyString k"
  from 4 have "updateElement rf (map_get m ?k) e l = Inr nf"
    by (auto simp: Let_def split: sum.splits)
  from updateElement_alternate [OF this]
  consider "alternate nf = None"
    | old where "map_get m ?k = Some old" "alternate nf = Some old"
        "fiber_data.key (data nf) = fiber_data.key (data old)"
    by auto
  then show ?case
  proof cases
    case 1
    then show ?thesis by simp
  next
    case 2
    have "?k = KeyIndex idx \<or> (\<exists>s. ?k = KeyString s)"
      by (simp split: option.splits)
    with 2 show ?thesis by auto
  qed
next
  case (5 m rf idx p l)
  let ?k = "case portal.key p of None \<Rightarrow> KeyIndex idx | Some k \<Rightarrow> KeyString k"
  from 5 have nf: "nf = updatePortal rf (map_get m ?k) p l"
    by (auto simp: Let_def)
  from updatePortal_alternate [of rf "map_get m ?k" p l]
  consider "alternate nf = None"
    | old where "map_get m ?k = Some old" "alternate nf = Some old"
        "fiber_data.key (data nf) = fiber_data.key (data old)"
    unfolding nf by auto
  then show ?case
  proof cases
    case 1
    then show ?thesis by simp
  next
    case 2
    have "?k = KeyIndex idx \<or> (\<exists>s. ?k = KeyString s)"
      by (simp split: option.splits)
    with 2 show ?thesis by auto
  qed
next
  case (8 m rf idx xs l)
  then show ?case
    using updateFragment_alternate [of rf "map_get m (KeyIndex idx)" "CArray xs" l None]
    by (auto split: if_splits)
qed simp_all

lemma alternates_simps [simp]:
  "alternates [] = []"
  "alternates (xs @ ys) = alternates xs @ alternates ys"
  "alternates [f] = (case alternate f of None \<Rightarrow> [] | Some a \<Rightarrow> [a])"
  by (simp_all add: alternates_def)

lemma scan_accounts:
  "reconcileChildrenArray_scan True rf l olds news idx lp res =
     (Inr (olds', news', idx', lp', res'), rf') \<Longrightarrow>
   \<exists>used added. olds = used @ olds' \<and> deletionsOf rf' = deletionsOf rf @ added \<and>
      mset added + mset (alternates res') = mset (alternates res) + mset used"
proof (induction True rf l olds news idx lp res rule: reconcileChildrenArray_scan.induct)
  case (1 rf l news idx lp res)
  then show ?case by simp
next
  case (2 rf l old olds idx lp res)
  then show ?case by simp
next
  case (3 rf l old olds c cs idx lp res)
  let ?oldFiber = "if index (data old) > idx then None else Some old"
  let ?next = "if index (data old) > idx then old # olds else olds"
  from "3.prems" obtain r where r: "updateSlot rf ?oldFiber c l = Inr r"
    by (cases "updateSlot rf ?oldFiber c l") (simp_all add: Let_def)
  show ?case
  proof (cases r)
    case None
    with "3.prems" r have "olds' = old # olds" "rf' = rf" "res' = res"
      by (simp_all add: Let_def)
    then show ?thesis by simp
  next
    case (Some nf)
    let ?rf1 = "if ?oldFiber \<noteq> None \<and> alternate nf = None then deleteChild True rf old else rf"
    let ?placed = "placeChild True nf lp idx"
    have rec: "reconcileChildrenArray_scan True ?rf1 l ?next cs (Suc idx) (snd ?placed)
                 (res @ [fst ?placed]) = (Inr (olds', news', idx', lp', res'), rf')"
      using "3.prems" r Some by (simp add: Let_def)
    have "\<exists>used added. ?next = used @ olds' \<and>
        deletionsOf rf' = deletionsOf ?rf1 @ added \<and>
        mset added + mset (alternates res') =
           mset (alternates (res @ [fst ?placed])) + mset used"
      using "3.hyps" [OF refl refl r Some refl refl] rec by simp
    then obtain used added where ih: "?next = used @ olds'"
        "deletionsOf rf' = deletionsOf ?rf1 @ added"
        "mset added + mset (alternates res') =
           mset (alternates (res @ [fst ?placed])) + mset used"
      by blast
    from updateSlot_alternate [OF r [unfolded Some]]
    consider (fresh) "alternate nf = None"
      | (reuse) "?oldFiber = Some old" "alternate nf = Some old"
      by (auto split: if_splits)
    then show ?thesis
    proof cases
      case fresh
      show ?thesis
      proof (cases "index (data old) > idx")
        case True
        then show ?thesis
          using ih fresh by auto
      next
        case False
        have "old # olds = (old # used) @ olds'"
          using ih(1) False by simp
        moreover have "deletionsOf rf' = deletionsOf rf @ (old # added)"
          using ih(2) False fresh by simp
        moreover have "mset (old # added) + mset (alternates res') =
            mset (alternates res) + mset (old # used)"
          using ih(3) fresh by simp
        ultimately show ?thesis by blast
      qed
    next
      case reuse
      then have le: "\<not> index (data old) > idx"
        by (auto split: if_splits)
      have "old # olds = (old # used) @ olds'"
        using ih(1) le by simp
      moreover have "deletionsOf rf' = deletionsOf rf @ added"
        using ih(2) reuse by simp
      moreover have "mset added + mset (alternates res') =
            mset (alternates res) + mset (old # used)"
        using ih(3) reuse by simp
      ultimately show ?thesis by blast
    qed
  qed
qed

lemma create_accounts:
  "reconcileChildrenArray_create t rf l news idx lp res = (Inr res', rf') \<Longrightarrow>
   rf' = rf \<and> alternates res' = alternates res"
proof (induction t rf l news idx lp res rule: reconcileChildrenArray_create.induct)
  case (1 t rf l idx lp res)
  then show ?case by simp
next
  case (2 t rf l c cs idx lp res)
  from "2.prems" obtain r where r: "createChild rf c l = Inr r"
    by (cases "createChild rf c l") simp_all
  show ?case
  proof (cases r)
    case None
    then show ?thesis using 2 r by simp
  next
    case (Some nf)
    have "alternate nf = None"
      using createChild_alternate r Some by blast
    then show ?thesis
      using "2.IH"(2) [OF r [unfolded Some] refl] "2.prems" r Some by (simp add: Let_def)
  qed
qed

lemma map_get_wf:
  "wf_map m \<Longrightarrow> map_get m k = Some old \<Longrightarrow> (k, old) \<in> set m \<and> k = lookupKey old"
  by (auto simp: wf_map_def map_get_def dest: map_of_SomeD)

lemma map_delete_absent:
  "k \<notin> fst ` set m \<Longrightarrow> map_delete m k = m"
  by (induction m) (auto simp: map_delete_def)

lemma map_delete_present:
  "distinct (map fst m) \<Longrightarrow> (k, old) \<in> set m \<Longrightarrow>
   mset (map snd (map_delete m k)) + {#old#} = mset (map snd m)"
proof (induction m)
  case Nil
  then show ?case by simp
next
  case (Cons e m)
  show ?case
  proof (cases "fst e = k")
    case True
    then have "k \<notin> fst ` set m" using Cons.prems(1) by auto
    then have "map_delete m k = m" by (rule map_delete_absent)
    moreover have "snd e = old"
      using Cons.prems True by (cases e) (auto simp: rev_image_eqI)
    ultimately show ?thesis
      using True by (simp add: map_delete_def)
  next
    case False
    then have "(k, old) \<in> set m" using Cons.prems(2) by auto
    then have "mset (map snd (map_delete m k)) + {#old#} = mset (map snd m)"
      using Cons.IH Cons.prems(1) by simp
    then show ?thesis
      using False by (simp add: map_delete_def)
  qed
qed

lemma wf_map_delete: "wf_map m \<Longrightarrow> wf_map (map_delete m k)"
  by (auto simp: wf_map_def map_delete_def distinct_map_filter)

lemma map_set_fresh: "k \<notin> fst ` set m \<Longrightarrow> map_set m k v = m @ [(k, v)]"
  by (induction m) auto

lemma mapRemainingChildren_step:
  "(case fiber_data.key (data c) of
      Some k \<Rightarrow> map_set m (KeyString k) c
    | None \<Rightarrow> map_set m (KeyIndex (index (data c))) c) = map_set m (lookupKey c) c"
  by (simp add: lookupKey_def split: option.splits)

lemma foldl_map_set:
  "distinct (map fst m @ map lookupKey olds) \<Longrightarrow>
   foldl (\<lambda>m c. map_set m (lookupKey c) c) m olds = m @ map (\<lambda>f. (lookupKey f, f)) olds"
proof (induction olds arbitrary: m)
  case Nil
  then show ?case by simp
next
  case (Cons c olds)
  have fresh: "lookupKey c \<notin> fst ` set m"
    using Cons.prems by auto
  have "distinct (map fst (m @ [(lookupKey c, c)]) @ map lookupKey olds)"
    using Cons.prems by auto
  from Cons.IH [OF this] show ?case
    by (simp add: map_set_fresh [OF fresh])
qed

lemma mapRemainingChildren_distinct:
  "distinct (map lookupKey olds) \<Longrightarrow>
   mapRemainingChildren olds = map (\<lambda>f. (lookupKey f, f)) olds"
  using foldl_map_set [of "[]" olds]
  by (simp add: mapRemainingChildren_def mapRemainingChildren_step)

lemma wf_mapRemainingChildren:
  "distinct (map lookupKey olds) \<Longrightarrow> wf_map (mapRemainingChildren olds)"
  by (simp add: mapRemainingChildren_distinct wf_map_def comp_def)

lemma fromMap_accounts:
  "wf_map m \<Longrightarrow>
   reconcileChildrenArray_fromMap True rf l m news idx lp res = (Inr (res', m'), rf') \<Longrightarrow>
   rf' = rf \<and> wf_map m' \<and>
   mset (map snd m') + mset (alternates res') = mset (map snd m) + mset (alternates res)"
proof (induction True rf l m news idx lp res rule: reconcileChildrenArray_fromMap.induct)
  case (1 rf l m idx lp res)
  then show ?case by simp
next
  case (2 rf l m c cs idx lp res)
  from "2.prems" obtain r where r: "updateFromMap m rf idx c l = Inr r"
    by (cases "updateFromMap m rf idx c l") simp_all
  show ?case
  proof (cases r)
    case None
    then show ?thesis
      using "2.hyps"(1) [OF r [unfolded None]] "2.prems" r by simp
  next
    case (Some nf)
    let ?dk = "case fiber_data.key (data nf) of None \<Rightarrow> KeyIndex idx | Some k \<Rightarrow> KeyString k"
    let ?m1 = "if alternate nf \<noteq> None then map_delete m ?dk else m"
    let ?placed = "placeChild True nf lp idx"
    have rec: "reconcileChildrenArray_fromMap True rf l ?m1 cs (Suc idx) (snd ?placed)
                 (res @ [fst ?placed]) = (Inr (res', m'), rf')"
      using "2.prems"(2) r Some by (simp add: Let_def)
    have wf1: "wf_map ?m1"
      using "2.prems"(1) by (simp add: wf_map_delete)
    have ih: "rf' = rf \<and> wf_map m' \<and>
       mset (map snd m') + mset (alternates res') =
         mset (map snd ?m1) + mset (alternates (res @ [fst ?placed]))"
      using "2.hyps"(2) [OF r Some refl refl] wf1 rec by simp
    from updateFromMap_alternate [OF r [unfolded Some]]
    consider (fresh) "alternate nf = None"
      | (reuse) old k where "map_get m k = Some old" "alternate nf = Some old"
          "fiber_data.key (data nf) = fiber_data.key (data old)"
          "k = KeyIndex idx \<or> (\<exists>s. k = KeyString s)"
      by auto
    then show ?thesis
    proof cases
      case fresh
      then show ?thesis using ih by simp
    next
      case reuse
      note both = map_get_wf [OF "2.prems"(1) reuse(1)]
      have mem: "(k, old) \<in> set m"
        using both by (rule conjunct1)
      have k: "k = lookupKey old"
        using both by (rule conjunct2)
      have dk: "?dk = k"
        using reuse(3,4) k by (auto simp: lookupKey_def split: option.splits)
      have "mset (map snd (map_delete m k)) + {#old#} = mset (map snd m)"
        using map_delete_present [OF _ mem] "2.prems"(1) by (simp add: wf_map_def)
      then show ?thesis
        using ih reuse(2) dk by (simp add: union_commute union_lcomm) 
    qed
  qed
qed

lemma deletionsOf_foldl_entries:
  "deletionsOf (foldl (\<lambda>rf entry. deleteChild True rf (snd entry)) rf m) =
     deletionsOf rf @ map snd m"
  by (induction m arbitrary: rf) simp_all

text \<open>
  Claim C7, as amended. With side-effect tracking enabled, for every previous chain whose
  lookup keys (explicit key, or index for a fiber without key) are pairwise distinct and
  every new sequence whose reconciliation returns a chain: the fibers this reconciliation
  appends to the parent's deletions array are, each exactly once, the previous siblings
  that no fiber of the new chain reuses.
\<close>

theorem deletions_complete_for_distinct_keys:
  assumes keys: "distinct (map lookupKey olds)"
    and result: "reconcileChildrenArray True rf olds news l = (Inr chain, rf')"
  shows "\<exists>added. deletionsOf rf' = deletionsOf rf @ added \<and>
           mset added + mset (alternates chain) = mset olds \<and>
           distinct added \<and> set added = set olds - set (alternates chain)"
proof -
  obtain s rf1 where scan: "reconcileChildrenArray_scan True rf l olds news 0 0 [] = (s, rf1)"
    by (cases "reconcileChildrenArray_scan True rf l olds news 0 0 []")
  from result scan obtain oldFiber rest idx lp res where
    s: "s = Inr (oldFiber, rest, idx, lp, res)"
    by (cases s) (auto simp: reconcileChildrenArray_def)
  from scan_accounts [OF scan [unfolded s]]
  obtain used added1 where a1: "olds = used @ oldFiber"
      "deletionsOf rf1 = deletionsOf rf @ added1"
      "mset added1 + mset (alternates res) = mset used"
    by auto
  have dist_rest: "distinct (map lookupKey oldFiber)"
    using keys a1(1) by simp
  have main: "\<exists>added. deletionsOf rf' = deletionsOf rf @ added \<and>
           mset added + mset (alternates chain) = mset olds"
  proof (cases "rest = []")
    case True
    then have "chain = res" "rf' = deleteRemainingChildren True rf1 oldFiber"
      using result scan s by (simp_all add: reconcileChildrenArray_def)
    then have "deletionsOf rf' = deletionsOf rf @ (added1 @ oldFiber)"
        "mset (added1 @ oldFiber) + mset (alternates chain) = mset olds"
      using a1 by simp_all
    then show ?thesis by blast
  next
    case False
    show ?thesis
    proof (cases "oldFiber = []")
      case True
      then have "reconcileChildrenArray_create True rf1 l rest idx lp res = (Inr chain, rf')"
        using result scan s False by (simp add: reconcileChildrenArray_def)
      from create_accounts [OF this] show ?thesis
        using a1 True by auto
    next
      case nonempty: False
      obtain t rf2 where fm: "reconcileChildrenArray_fromMap True rf1 l
          (mapRemainingChildren oldFiber) rest idx lp res = (t, rf2)"
        by (cases "reconcileChildrenArray_fromMap True rf1 l
          (mapRemainingChildren oldFiber) rest idx lp res")
      from result scan s False nonempty fm obtain res2 m2 where
        t: "t = Inr (res2, m2)"
        by (cases t) (auto simp: reconcileChildrenArray_def)
      have out: "chain = res2"
          "rf' = foldl (\<lambda>rf entry. deleteChild True rf (snd entry)) rf2 m2"
        using result scan s False nonempty fm t by (simp_all add: reconcileChildrenArray_def)
      from fromMap_accounts [OF wf_mapRemainingChildren [OF dist_rest] fm [unfolded t]]
      have a2: "rf2 = rf1"
          "mset (map snd m2) + mset (alternates res2) =
             mset (map snd (mapRemainingChildren oldFiber)) + mset (alternates res)"
        by simp_all
      have m0: "map snd (mapRemainingChildren oldFiber) = oldFiber"
        by (simp add: mapRemainingChildren_distinct [OF dist_rest] comp_def)
      have "deletionsOf rf' = deletionsOf rf @ (added1 @ map snd m2)"
        using out a2(1) a1(2) by (simp add: deletionsOf_foldl_entries)
      moreover have "mset (added1 @ map snd m2) + mset (alternates chain) = mset olds"
        using a2(2) a1(1,3) out(1) m0 by (simp add: union_commute union_lcomm)
      ultimately show ?thesis by blast
    qed
  qed
  then obtain added where ad: "deletionsOf rf' = deletionsOf rf @ added"
      "mset added + mset (alternates chain) = mset olds"
    by blast
  have dolds: "distinct olds"
    using keys by (simp add: distinct_map)
  have eq: "mset (added @ alternates chain) = mset olds"
    using ad(2) by simp
  have "distinct (added @ alternates chain)"
    using mset_eq_imp_distinct_iff [OF eq] dolds by simp
  then have "distinct added" "set added \<inter> set (alternates chain) = {}"
    by simp_all
  moreover have "set added \<union> set (alternates chain) = set olds"
    using mset_eq_setD [OF eq] by simp
  ultimately have "distinct added \<and> set added = set olds - set (alternates chain)"
    by blast
  then show ?thesis
    using ad by blast
qed

lemma single_scan_skips:
  "\<forall>f \<in> set pre. fiber_data.key (data f) \<noteq> element.key e \<Longrightarrow>
   reconcileSingleElement_scan True rf e (pre @ rest) =
     reconcileSingleElement_scan True (foldl (deleteChild True) rf pre) e rest"
  by (induction pre arbitrary: rf) simp_all

lemma single_scan_none:
  "\<forall>f \<in> set chain. fiber_data.key (data f) \<noteq> element.key e \<Longrightarrow>
   reconcileSingleElement_scan True rf e chain = (Inr None, foldl (deleteChild True) rf chain)"
  using single_scan_skips [of chain e rf "[]"] by simp

lemma mode_foldl_deleteChild [simp]:
  "mode (data (foldl (deleteChild t) rf cs)) = mode (data rf)"
  by (induction cs arbitrary: rf) simp_all

lemma placeSingleChild_created:
  "alternate f = None \<Longrightarrow> Placement \<in> flags (data (placeSingleChild True f))"
  by (simp add: placeSingleChild_def)

lemma placeSingleChild_reused:
  "alternate f = Some c \<Longrightarrow> placeSingleChild t f = f"
  by (simp add: placeSingleChild_def)

text \<open>
  Claim C6. For the tracking reconciler and a single element \<open>e\<close>: let \<open>c\<close> be the first
  previous sibling whose key equals the key of \<open>e\<close> (no key matching no key), \<open>pre\<close> the
  siblings before it and \<open>post\<close> those after it. If the type of \<open>c\<close> is compatible, \<open>c\<close> is
  reused (index 0, alone in the new chain), every sibling of \<open>pre\<close> and \<open>post\<close> is appended
  to the deletions, and the reused fiber is not marked for placement. If the type is not
  compatible, \<open>pre\<close>, \<open>c\<close> and \<open>post\<close> are all appended to the deletions and a fresh fiber
  is created and marked for placement. If no sibling has the key, every previous sibling
  is appended to the deletions and a fresh fiber is created and marked for placement.
  (Resolving a lazy element type can throw; then the type is neither.)
\<close>

theorem single_element_reuse_or_replace:
  "(\<forall>pre c post.
      (\<forall>f \<in> set pre. fiber_data.key (data f) \<noteq> element.key e) \<and>
      fiber_data.key (data c) = element.key e \<longrightarrow>
        (compatibleType c e = Inr True \<longrightarrow>
           (\<exists>existing rf'.
              reconcileSingleElement True rf (pre @ c # post) e l = (Inr existing, rf') \<and>
              alternate existing = Some c \<and> index (data existing) = 0 \<and>
              deletionsOf rf' = deletionsOf rf @ pre @ post \<and>
              placeSingleChild True existing = existing \<and>
              Placement \<notin> flags (data existing))) \<and>
        (compatibleType c e = Inr False \<longrightarrow>
           (\<exists>created rf'.
              reconcileSingleElement True rf (pre @ c # post) e l = (Inr created, rf') \<and>
              alternate created = None \<and>
              deletionsOf rf' = deletionsOf rf @ pre @ c # post \<and>
              Placement \<in> flags (data (placeSingleChild True created))))) \<and>
   (\<forall>chain.
      (\<forall>f \<in> set chain. fiber_data.key (data f) \<noteq> element.key e) \<longrightarrow>
        (\<exists>created rf'.
           reconcileSingleElement True rf chain e l = (Inr created, rf') \<and>
           alternate created = None \<and>
           deletionsOf rf' = deletionsOf rf @ chain \<and>
           Placement \<in> flags (data (placeSingleChild True created))))"
proof (intro conjI allI impI)
  fix pre c post
  assume h: "(\<forall>f \<in> set pre. fiber_data.key (data f) \<noteq> element.key e) \<and>
      fiber_data.key (data c) = element.key e"
  let ?rf0 = "foldl (deleteChild True) rf pre"
  have skip: "reconcileSingleElement_scan True rf e (pre @ c # post) =
      reconcileSingleElement_scan True ?rf0 e (c # post)"
    using h single_scan_skips by blast
  {
    assume ok: "compatibleType c e = Inr True"
    let ?rf1 = "deleteRemainingChildren True ?rf0 post"
    define existing where "existing =
      (if element.type e = REACT_FRAGMENT_TYPE
       then set_return ?rf1 (useFiber c (PendingChildren (props.children (props e))))
       else set_return ?rf1 (coerceRef ?rf1 (Some c) (useFiber c (PendingProps (props e))) e))"
    have "reconcileSingleElement_scan True ?rf0 e (c # post) = (Inr (Some existing), ?rf1)"
      using h ok by (auto simp: compatibleType_def existing_def Let_def split: if_splits)
    then have r: "reconcileSingleElement True rf (pre @ c # post) e l = (Inr existing, ?rf1)"
      by (simp add: reconcileSingleElement_def skip)
    have p: "alternate existing = Some c" "index (data existing) = 0"
        "Placement \<notin> flags (data existing)"
      by (simp_all add: existing_def)
    have d: "deletionsOf ?rf1 = deletionsOf rf @ pre @ post"
      by (simp add: deletionsOf_foldl_deleteChild)
    show "\<exists>existing rf'.
              reconcileSingleElement True rf (pre @ c # post) e l = (Inr existing, rf') \<and>
              alternate existing = Some c \<and> index (data existing) = 0 \<and>
              deletionsOf rf' = deletionsOf rf @ pre @ post \<and>
              placeSingleChild True existing = existing \<and>
              Placement \<notin> flags (data existing)"
      using r p d placeSingleChild_reused [OF p(1)] by blast
  }
  {
    assume no: "compatibleType c e = Inr False"
    let ?rf1 = "deleteRemainingChildren True ?rf0 (c # post)"
    define created where "created =
      (if element.type e = REACT_FRAGMENT_TYPE
       then set_return ?rf1 (createFiberFromFragment (props.children (props e))
              (mode (data ?rf1)) l (element.key e))
       else set_return ?rf1 (coerceRef ?rf1 (case pre @ c # post of [] \<Rightarrow> None | x # xs \<Rightarrow> Some x)
              (createFiberFromElement e (mode (data ?rf1)) l) e))"
    have "reconcileSingleElement_scan True ?rf0 e (c # post) = (Inr None, ?rf1)"
      using h no by (auto simp: compatibleType_def Let_def split: if_splits)
    then have r: "reconcileSingleElement True rf (pre @ c # post) e l = (Inr created, ?rf1)"
      by (simp add: reconcileSingleElement_def skip created_def)
    have p: "alternate created = None"
      by (simp add: created_def)
    have d: "deletionsOf ?rf1 = deletionsOf rf @ pre @ c # post"
      by (simp add: deletionsOf_foldl_deleteChild)
    show "\<exists>created rf'.
              reconcileSingleElement True rf (pre @ c # post) e l = (Inr created, rf') \<and>
              alternate created = None \<and>
              deletionsOf rf' = deletionsOf rf @ pre @ c # post \<and>
              Placement \<in> flags (data (placeSingleChild True created))"
      using r p d placeSingleChild_created [OF p] by blast
  }
next
  fix chain
  assume h: "\<forall>f \<in> set chain. fiber_data.key (data f) \<noteq> element.key e"
  let ?rf1 = "foldl (deleteChild True) rf chain"
  define created where "created =
      (if element.type e = REACT_FRAGMENT_TYPE
       then set_return ?rf1 (createFiberFromFragment (props.children (props e))
              (mode (data ?rf1)) l (element.key e))
       else set_return ?rf1 (coerceRef ?rf1 (case chain of [] \<Rightarrow> None | x # xs \<Rightarrow> Some x)
              (createFiberFromElement e (mode (data ?rf1)) l) e))"
  have r: "reconcileSingleElement True rf chain e l = (Inr created, ?rf1)"
    by (simp add: reconcileSingleElement_def single_scan_none [OF h] created_def)
  have p: "alternate created = None"
    by (simp add: created_def)
  have d: "deletionsOf ?rf1 = deletionsOf rf @ chain"
    by (simp add: deletionsOf_foldl_deleteChild)
  show "\<exists>created rf'.
           reconcileSingleElement True rf chain e l = (Inr created, rf') \<and>
           alternate created = None \<and>
           deletionsOf rf' = deletionsOf rf @ chain \<and>
           Placement \<in> flags (data (placeSingleChild True created))"
    using r p d placeSingleChild_created [OF p] by blast
qed

lemma mode_deleteRemainingChildren [simp]:
  "mode (data (deleteRemainingChildren t rf cs)) = mode (data rf)"
  by (simp add: deleteRemainingChildren_def)

lemma mode_scan:
  "mode (data (snd (reconcileChildrenArray_scan t rf l olds news idx lp res))) = mode (data rf)"
proof (induction t rf l olds news idx lp res rule: reconcileChildrenArray_scan.induct)
  case (3 t rf l old olds c cs idx lp res)
  show ?case
  proof (cases "updateSlot rf (if index (data old) > idx then None else Some old) c l")
    case (Inl x)
    then show ?thesis by (simp add: Let_def)
  next
    case (Inr r)
    show ?thesis
    proof (cases r)
      case None
      then show ?thesis using Inr by (simp add: Let_def)
    next
      case (Some nf)
      then show ?thesis
        using "3.IH" [OF refl refl Inr Some refl refl] Inr by (simp add: Let_def)
    qed
  qed
qed simp_all

lemma snd_create:
  "snd (reconcileChildrenArray_create t rf l news idx lp res) = rf"
proof (induction t rf l news idx lp res rule: reconcileChildrenArray_create.induct)
  case (2 t rf l c cs idx lp res)
  show ?case
  proof (cases "createChild rf c l")
    case (Inl x)
    then show ?thesis by simp
  next
    case (Inr r)
    show ?thesis
    proof (cases r)
      case None
      then show ?thesis using "2.IH"(1) Inr by simp
    next
      case (Some nf)
      then show ?thesis using "2.IH"(2) [OF Inr Some refl] Inr by (simp add: Let_def)
    qed
  qed
qed simp

lemma snd_fromMap:
  "snd (reconcileChildrenArray_fromMap t rf l m news idx lp res) = rf"
proof (induction t rf l m news idx lp res rule: reconcileChildrenArray_fromMap.induct)
  case (2 t rf l m c cs idx lp res)
  show ?case
  proof (cases "updateFromMap m rf idx c l")
    case (Inl x)
    then show ?thesis by simp
  next
    case (Inr r)
    show ?thesis
    proof (cases r)
      case None
      then show ?thesis using "2.IH"(1) Inr by simp
    next
      case (Some nf)
      then show ?thesis using "2.IH"(2) [OF Inr Some refl refl] Inr by (simp add: Let_def)
    qed
  qed
qed simp

lemma mode_foldl_entries [simp]:
  "mode (data (foldl (\<lambda>rf entry. deleteChild t rf (snd entry)) rf m)) = mode (data rf)"
  by (induction m arbitrary: rf) simp_all

lemma mode_reconcileChildrenArray:
  "mode (data (snd (reconcileChildrenArray t rf olds news l))) = mode (data rf)"
proof -
  obtain s rf1 where scan: "reconcileChildrenArray_scan t rf l olds news 0 0 [] = (s, rf1)"
    by (cases "reconcileChildrenArray_scan t rf l olds news 0 0 []")
  have m1: "mode (data rf1) = mode (data rf)"
    using mode_scan [of t rf l olds news 0 0 "[]"] scan by simp
  show ?thesis
  proof (cases s)
    case (Inl x)
    then show ?thesis using scan m1 by (simp add: reconcileChildrenArray_def)
  next
    case (Inr v)
    obtain oldFiber rest idx lp res where v: "v = (oldFiber, rest, idx, lp, res)"
      by (cases v)
    obtain u rf2 where fm: "reconcileChildrenArray_fromMap t rf1 l
          (mapRemainingChildren oldFiber) rest idx lp res = (u, rf2)"
      by (cases "reconcileChildrenArray_fromMap t rf1 l
          (mapRemainingChildren oldFiber) rest idx lp res")
    have rf2: "rf2 = rf1"
      using snd_fromMap [of t rf1 l "mapRemainingChildren oldFiber" rest idx lp res] fm by simp
    show ?thesis
      using scan Inr v m1 fm rf2 snd_create [of t rf1 l rest idx lp res]
      by (cases u) (auto simp: reconcileChildrenArray_def split: prod.splits)
  qed
qed

lemma mode_single_scan:
  "mode (data (snd (reconcileSingleElement_scan t rf e chain))) = mode (data rf)"
  by (induction t rf e chain rule: reconcileSingleElement_scan.induct)
     (auto simp: Let_def split: sum.splits bool.splits)

lemma mode_reconcileSingleElement:
  "mode (data (snd (reconcileSingleElement t rf chain e l))) = mode (data rf)"
proof -
  obtain s rf1 where scan: "reconcileSingleElement_scan t rf e chain = (s, rf1)"
    by (cases "reconcileSingleElement_scan t rf e chain")
  have m1: "mode (data rf1) = mode (data rf)"
    using mode_single_scan [of t rf e chain] scan by simp
  show ?thesis
  proof (cases s)
    case (Inl x)
    then show ?thesis using scan m1 by (simp add: reconcileSingleElement_def)
  next
    case (Inr r)
    then show ?thesis using scan m1 by (cases r) (simp_all add: reconcileSingleElement_def)
  qed
qed

lemma mode_portal_scan:
  "mode (data (snd (reconcileSinglePortal_scan t rf p chain))) = mode (data rf)"
  by (induction t rf p chain rule: reconcileSinglePortal_scan.induct)
     (auto simp: Let_def)

lemma mode_reconcileSinglePortal:
  "mode (data (snd (reconcileSinglePortal t rf chain p l))) = mode (data rf)"
proof -
  obtain r rf1 where scan: "reconcileSinglePortal_scan t rf p chain = (r, rf1)"
    by (cases "reconcileSinglePortal_scan t rf p chain")
  have m1: "mode (data rf1) = mode (data rf)"
    using mode_portal_scan [of t rf p chain] scan by simp
  show ?thesis
    using scan m1 by (cases r) (simp_all add: reconcileSinglePortal_def)
qed

lemma mode_reconcileSingleTextNode:
  "mode (data (snd (reconcileSingleTextNode t rf chain s l))) = mode (data rf)"
  by (auto simp: reconcileSingleTextNode_def Let_def split: list.splits)

lemma mode_reconcileChildFibersImpl:
  "mode (data (snd (reconcileChildFibersImpl t rf chain c l))) = mode (data rf)"
proof (induction t rf chain c l rule: reconcileChildFibersImpl.induct)
  case (1 t rf chain c l)
  note unfold = reconcileChildFibersImpl.simps [of t rf chain c l]
  have tnode: "mode (data (snd (case reconcileSingleTextNode t rf chain s l of
                 (f, returnFiber1) \<Rightarrow> (Inr [placeSingleChild t f] :: thrown + fiber list,
                                        returnFiber1)))) = mode (data rf)" for s
    using mode_reconcileSingleTextNode [of t rf chain s l]
    by (cases "reconcileSingleTextNode t rf chain s l") simp
  show ?case
  proof (cases "unwrapTopLevelFragment c")
    case (CElement e)
    obtain r rf1 where r: "reconcileSingleElement t rf chain e l = (r, rf1)"
      by (cases "reconcileSingleElement t rf chain e l")
    have "mode (data rf1) = mode (data rf)"
      using mode_reconcileSingleElement [of t rf chain e l] r by simp
    then show ?thesis
      unfolding unfold CElement using r by (cases r) simp_all
  next
    case (CPortal p)
    obtain f rf1 where r: "reconcileSinglePortal t rf chain p l = (f, rf1)"
      by (cases "reconcileSinglePortal t rf chain p l")
    have "mode (data rf1) = mode (data rf)"
      using mode_reconcileSinglePortal [of t rf chain p l] r by simp
    then show ?thesis
      unfolding unfold CPortal using r by simp
  next
    case (CLazy r)
    show ?thesis
    proof (cases r)
      case (Inl x)
      then show ?thesis unfolding unfold CLazy by simp
    next
      case (Inr result)
      from "1.IH"(1) [OF CLazy Inr] show ?thesis
        unfolding unfold CLazy Inr by simp
    qed
  next
    case (CArray xs)
    then show ?thesis
      unfolding unfold using mode_reconcileChildrenArray [of t rf chain xs l] by simp
  next
    case (CThenable r)
    show ?thesis
    proof (cases r)
      case (Inl x)
      then show ?thesis unfolding unfold CThenable by simp
    next
      case (Inr result)
      from "1.IH"(2) [OF CThenable Inr] show ?thesis
        unfolding unfold CThenable Inr by simp
    qed
  next
    case (CContext v)
    from "1.IH"(3) [OF CContext] show ?thesis
      unfolding unfold CContext by simp
  next
    case (CString s)
    then show ?thesis
      unfolding unfold using tnode [of s] by simp
  next
    case (CNumber s)
    then show ?thesis
      unfolding unfold using tnode [of s] by simp
  next
    case (CBigInt s)
    then show ?thesis
      unfolding unfold using tnode [of s] by simp
  next
    case CNull
    then show ?thesis unfolding unfold by simp
  next
    case CUndefined
    then show ?thesis unfolding unfold by simp
  next
    case (CBool b)
    then show ?thesis unfolding unfold by simp
  next
    case CFunction
    then show ?thesis unfolding unfold by simp
  next
    case CSymbol
    then show ?thesis unfolding unfold by simp
  next
    case (CObject legacy)
    then show ?thesis unfolding unfold by simp
  qed
qed

text \<open>
  Claim C9. If reconcileChildFibersImpl throws \<open>x\<close>, reconcileChildFibers rethrows \<open>x\<close>
  unchanged when \<open>x\<close> is the suspense exception, or a thenable while legacy mode is enabled
  and the parent is not in concurrent mode; for every other \<open>x\<close> it throws nothing and
  returns, as the only child, a throw fiber that carries \<open>x\<close> and whose \<open>return\<close> is the
  parent.
\<close>

theorem reconcileChildFibers_catch:
  assumes "reconcileChildFibersImpl t returnFiber currentFirstChild newChild l = (Inl x, rf1)"
  shows "(x = SuspenseException \<or>
            (\<not> disableLegacyMode \<and> ConcurrentMode \<notin> mode (data returnFiber) \<and>
             (\<exists>n. x = ThrownThenable n)) \<longrightarrow>
          reconcileChildFibers t disableLegacyMode returnFiber currentFirstChild newChild l =
            (Inl x, rf1)) \<and>
         (\<not> (x = SuspenseException \<or>
            (\<not> disableLegacyMode \<and> ConcurrentMode \<notin> mode (data returnFiber) \<and>
             (\<exists>n. x = ThrownThenable n))) \<longrightarrow>
          (\<exists>throwFiber.
             reconcileChildFibers t disableLegacyMode returnFiber currentFirstChild newChild l =
               (Inr [throwFiber], rf1) \<and>
             fiber_data.tag (data throwFiber) = Throw \<and>
             pendingProps (data throwFiber) = PendingThrown x \<and>
             return throwFiber = Some rf1))"
proof -
  have m: "mode (data rf1) = mode (data returnFiber)"
    using mode_reconcileChildFibersImpl [of t returnFiber currentFirstChild newChild l] assms
    by simp
  have th: "isThenable x = (\<exists>n. x = ThrownThenable n)"
    by (cases x) (simp_all add: isThenable_def)
  have re: "rethrows disableLegacyMode rf1 x =
      (x = SuspenseException \<or>
            (\<not> disableLegacyMode \<and> ConcurrentMode \<notin> mode (data returnFiber) \<and>
             (\<exists>n. x = ThrownThenable n)))"
    by (simp add: rethrows_def m th)
  show ?thesis
    unfolding re [symmetric]
    using assms
    by (simp add: reconcileChildFibers_def createFiberFromThrow_def createFiber_def)
qed

text \<open>
  Claim C10. For the tracking reconciler, every parent and every previous chain: when the
  new child is null, undefined, a boolean or the empty string, every previous child is
  appended to the deletions and the new first child is null; every other string gives one
  text fiber holding that string.
\<close>

theorem empty_children_delete_all:
  "(newChild = CNull \<or> newChild = CUndefined \<or> newChild = CBool b \<or> newChild = CString [] \<longrightarrow>
      (\<exists>rf'. reconcileChildFibers True disableLegacyMode returnFiber currentFirstChild
                newChild l = (Inr [], rf') \<and>
             deletionsOf rf' = deletionsOf returnFiber @ currentFirstChild)) \<and>
   (s \<noteq> [] \<longrightarrow>
      (\<exists>f rf'. reconcileChildFibers True disableLegacyMode returnFiber currentFirstChild
                  (CString s) l = (Inr [f], rf') \<and>
               fiber_data.tag (data f) = HostText \<and>
               pendingProps (data f) = PendingText s))"
proof (intro conjI impI)
  assume "newChild = CNull \<or> newChild = CUndefined \<or> newChild = CBool b \<or> newChild = CString []"
  then have "reconcileChildFibersImpl True returnFiber currentFirstChild newChild l =
      (Inr [], deleteRemainingChildren True returnFiber currentFirstChild)"
    by (auto simp: reconcileChildFibersImpl.simps unwrapTopLevelFragment_def)
  then show "\<exists>rf'. reconcileChildFibers True disableLegacyMode returnFiber currentFirstChild
                newChild l = (Inr [], rf') \<and>
             deletionsOf rf' = deletionsOf returnFiber @ currentFirstChild"
    by (simp add: reconcileChildFibers_def)
next
  assume s: "s \<noteq> []"
  obtain f rf' where t: "reconcileSingleTextNode True returnFiber currentFirstChild s l = (f, rf')"
    by (cases "reconcileSingleTextNode True returnFiber currentFirstChild s l")
  have p: "fiber_data.tag (data f) = HostText \<and> pendingProps (data f) = PendingText s"
    using t
    by (auto simp: reconcileSingleTextNode_def Let_def useFiber_def createWorkInProgress_def
          createFiberFromText_def createFiber_def split: list.splits if_splits)
  have "reconcileChildFibersImpl True returnFiber currentFirstChild (CString s) l =
      (Inr [placeSingleChild True f], rf')"
    using s t by (simp add: reconcileChildFibersImpl.simps unwrapTopLevelFragment_def)
  then show "\<exists>f rf'. reconcileChildFibers True disableLegacyMode returnFiber currentFirstChild
                  (CString s) l = (Inr [f], rf') \<and>
               fiber_data.tag (data f) = HostText \<and>
               pendingProps (data f) = PendingText s"
    using p by (simp add: reconcileChildFibers_def placeSingleChild_def)
qed

lemma updateElement_reuse:
  assumes "compatibleType c e = Inr True"
  shows "\<exists>w. updateElement rf (Some c) e l = Inr w \<and> alternate w = Some c \<and>
             flags (data w) = {} \<and> fiber_data.key (data w) = fiber_data.key (data c)"
  using assms
  by (auto simp: updateElement_def compatibleType_def updateFragment_def Let_def
        split: if_splits sum.splits bool.splits)

lemma placeChild_kept:
  assumes "alternate w = Some c" "last' \<le> index (data c)"
  shows "placeChild True w last' i = (set_data (\<lambda>d. d\<lparr>index := i\<rparr>) w, index (data c))"
  using assms by (simp add: placeChild_def Let_def)

lemma placeChild_moved:
  assumes "alternate w = Some c" "index (data c) < last'"
  shows "placeChild True w last' i =
     (set_data (\<lambda>d. d\<lparr>flags := flags d \<union> {Placement, PlacementDEV}\<rparr>)
        (set_data (\<lambda>d. d\<lparr>index := i\<rparr>) w), last')"
  using assms by (simp add: placeChild_def Let_def)

text \<open>
  Claim C5, as amended. Reconciling a previous chain with keys [A,B,C] (three different
  keys, indices 0, 1, 2) against a new sequence of elements with keys [C,A,B] and
  compatible types reuses all three fibers and deletes none; the fiber for C is not
  marked for placement, and the fibers for A and B are both marked: the two fibers that
  C has overtaken are the ones placed again.
\<close>

theorem rotation_places_the_overtaken:
  assumes keys: "fiber_data.key (data a) = Some ka" "fiber_data.key (data b) = Some kb"
      "fiber_data.key (data c) = Some kc" "distinct [ka, kb, kc]"
    and positions: "index (data a) = 0" "index (data b) = 1" "index (data c) = 2"
    and elements: "element.key ea = Some ka" "element.key eb = Some kb"
      "element.key ec = Some kc"
    and types: "compatibleType a ea = Inr True" "compatibleType b eb = Inr True"
      "compatibleType c ec = Inr True"
  shows "\<exists>c' a' b' rf'.
      reconcileChildrenArray True rf [a, b, c] [CElement ec, CElement ea, CElement eb] l =
        (Inr [c', a', b'], rf') \<and>
      alternate c' = Some c \<and> alternate a' = Some a \<and> alternate b' = Some b \<and>
      Placement \<notin> flags (data c') \<and> Placement \<in> flags (data a') \<and>
      Placement \<in> flags (data b') \<and> deletionsOf rf' = deletionsOf rf"
proof -
  obtain wc where wc: "updateElement rf (Some c) ec l = Inr wc" "alternate wc = Some c"
      "flags (data wc) = {}" "fiber_data.key (data wc) = Some kc"
    using updateElement_reuse [OF types(3), of rf l] keys(3) by auto
  obtain wa where wa: "updateElement rf (Some a) ea l = Inr wa" "alternate wa = Some a"
      "flags (data wa) = {}" "fiber_data.key (data wa) = Some ka"
    using updateElement_reuse [OF types(1), of rf l] keys(1) by auto
  obtain wb where wb: "updateElement rf (Some b) eb l = Inr wb" "alternate wb = Some b"
      "flags (data wb) = {}" "fiber_data.key (data wb) = Some kb"
    using updateElement_reuse [OF types(2), of rf l] keys(2) by auto
  have ne: "ka \<noteq> kb" "ka \<noteq> kc" "kb \<noteq> kc" "kb \<noteq> ka" "kc \<noteq> ka" "kc \<noteq> kb"
    using keys(4) by auto
  have scan: "reconcileChildrenArray_scan True rf l [a, b, c]
      [CElement ec, CElement ea, CElement eb] 0 0 [] =
      (Inr ([a, b, c], [CElement ec, CElement ea, CElement eb], 0, 0, []), rf)"
    using keys ne positions elements by simp
  have m: "mapRemainingChildren [a, b, c] =
      [(KeyString ka, a), (KeyString kb, b), (KeyString kc, c)]"
    using keys ne by (simp add: mapRemainingChildren_def)
  define c' where "c' = set_data (\<lambda>d. d\<lparr>index := 0\<rparr>) wc"
  define a' where "a' = set_data (\<lambda>d. d\<lparr>flags := flags d \<union> {Placement, PlacementDEV}\<rparr>)
        (set_data (\<lambda>d. d\<lparr>index := Suc 0\<rparr>) wa)"
  define b' where "b' = set_data (\<lambda>d. d\<lparr>flags := flags d \<union> {Placement, PlacementDEV}\<rparr>)
        (set_data (\<lambda>d. d\<lparr>index := Suc (Suc 0)\<rparr>) wb)"
  have pc: "placeChild True wc 0 0 = (c', Suc (Suc 0))"
    using placeChild_kept [OF wc(2), of 0 0] positions by (simp add: c'_def)
  have pa: "placeChild True wa (Suc (Suc 0)) (Suc 0) = (a', Suc (Suc 0))"
    using placeChild_moved [OF wa(2), of "Suc (Suc 0)" "Suc 0"] positions
    by (simp add: a'_def)
  have pb: "placeChild True wb (Suc (Suc 0)) (Suc (Suc 0)) = (b', Suc (Suc 0))"
    using placeChild_moved [OF wb(2), of "Suc (Suc 0)" "Suc (Suc 0)"] positions
    by (simp add: b'_def)
  have fm: "reconcileChildrenArray_fromMap True rf l
      [(KeyString ka, a), (KeyString kb, b), (KeyString kc, c)]
      [CElement ec, CElement ea, CElement eb] 0 0 [] = (Inr ([c', a', b'], []), rf)"
    using ne elements wc wa wb
    by (simp add: map_get_def map_delete_def pc pa pb)
  have sel: "alternate c' = Some c" "alternate a' = Some a" "alternate b' = Some b"
      "Placement \<notin> flags (data c')" "Placement \<in> flags (data a')"
      "Placement \<in> flags (data b')"
    using wc wa wb by (simp_all add: c'_def a'_def b'_def set_data_def)
  have "reconcileChildrenArray True rf [a, b, c] [CElement ec, CElement ea, CElement eb] l =
      (Inr [c', a', b'], rf)"
    unfolding reconcileChildrenArray_def scan
    by (simp add: m fm del: reconcileChildrenArray_fromMap.simps)
  then show ?thesis
    using sel by blast
qed

subsection \<open>The child reconciler on examples\<close>

lemma exampleFiber_sel:
  "alternate (exampleFiber t k i) = None"
  "index (data (exampleFiber t k i)) = i"
  "fiber_data.key (data (exampleFiber t k i)) = Some k"
  "flags (data (exampleFiber t k i)) = {}"
  by (simp_all add: exampleFiber_def createFiberFromElement_def createFiber_def set_data_def)

lemma exampleFiber_compatible:
  "compatibleType (exampleFiber t k i) (exampleElement t' k') = Inr (t = t')"
  by (simp add: compatibleType_def exampleElement_def sameElementType_def exampleFiber_def
        createFiberFromElement_def createFiber_def set_data_def)

lemma exampleItem_element: "exampleItem t k = CElement (exampleElement t k)"
  by (simp add: exampleItem_def exampleElement_def)

lemma deletionsOf_exampleParent: "deletionsOf exampleParent = []"
  by (simp add: deletionsOf_def exampleParent_def createFiber_def)

theorem placeChild_high_water_mark_witness:
  "alternate (exampleFiber ''li'' ''D'' 0) = None \<and>
   Placement \<in> flags (data (fst (placeChild True (exampleFiber ''li'' ''D'' 0) 2 3))) \<and>
   snd (placeChild True (exampleFiber ''li'' ''D'' 0) 2 3) = 2 \<and>
   index (data (fst (placeChild True (exampleFiber ''li'' ''D'' 0) 2 3))) = 3 \<and>
   alternate (useFiber (exampleFiber ''li'' ''A'' 0) (PendingProps (Props 0 CNull))) =
     Some (exampleFiber ''li'' ''A'' 0) \<and>
   index (data (exampleFiber ''li'' ''A'' 0)) < 2 \<and>
   Placement \<in> flags (data (fst (placeChild True
      (useFiber (exampleFiber ''li'' ''A'' 0) (PendingProps (Props 0 CNull))) 2 1))) \<and>
   snd (placeChild True
      (useFiber (exampleFiber ''li'' ''A'' 0) (PendingProps (Props 0 CNull))) 2 1) = 2 \<and>
   alternate (useFiber (exampleFiber ''li'' ''C'' 2) (PendingProps (Props 0 CNull))) =
     Some (exampleFiber ''li'' ''C'' 2) \<and>
   0 \<le> index (data (exampleFiber ''li'' ''C'' 2)) \<and>
   flags (data (fst (placeChild True
      (useFiber (exampleFiber ''li'' ''C'' 2) (PendingProps (Props 0 CNull))) 0 0))) = {} \<and>
   snd (placeChild True
      (useFiber (exampleFiber ''li'' ''C'' 2) (PendingProps (Props 0 CNull))) 0 0) = 2"
  using placeChild_high_water_mark [of "exampleFiber ''li'' ''D'' 0" 2 3]
    placeChild_high_water_mark
      [of "useFiber (exampleFiber ''li'' ''A'' 0) (PendingProps (Props 0 CNull))" 2 1]
    placeChild_high_water_mark
      [of "useFiber (exampleFiber ''li'' ''C'' 2) (PendingProps (Props 0 CNull))" 0 0]
  by (simp add: exampleFiber_sel)

text \<open>
  The rotation of claim C5 on the example chain: the new chain is C, A, B; the fiber for C
  carries no placement flag, the fibers for A and B both carry it.
\<close>

theorem rotation_marks_two_not_one:
  "(case reconcileChildrenArray True exampleParent exampleABC
           [exampleItem ''li'' ''C'', exampleItem ''li'' ''A'', exampleItem ''li'' ''B''] 0 of
      (Inr chain, rf') \<Rightarrow>
        map (\<lambda>f. (fiber_data.key (data f), Placement \<in> flags (data f))) chain =
          [(Some ''C'', False), (Some ''A'', True), (Some ''B'', True)]
    | (Inl x, rf') \<Rightarrow> False)"
  by code_simp

theorem rotation_places_the_overtaken_witness:
  "\<exists>c' a' b' rf'.
      reconcileChildrenArray True exampleParent exampleABC
        [exampleItem ''li'' ''C'', exampleItem ''li'' ''A'', exampleItem ''li'' ''B''] 0 =
        (Inr [c', a', b'], rf') \<and>
      alternate c' = Some (exampleFiber ''li'' ''C'' 2) \<and>
      alternate a' = Some (exampleFiber ''li'' ''A'' 0) \<and>
      alternate b' = Some (exampleFiber ''li'' ''B'' 1) \<and>
      Placement \<notin> flags (data c') \<and> Placement \<in> flags (data a') \<and>
      Placement \<in> flags (data b') \<and> deletionsOf rf' = []"
  using rotation_places_the_overtaken
    [of "exampleFiber ''li'' ''A'' 0" "''A''" "exampleFiber ''li'' ''B'' 1" "''B''"
        "exampleFiber ''li'' ''C'' 2" "''C''"
        "exampleElement ''li'' ''A''" "exampleElement ''li'' ''B''"
        "exampleElement ''li'' ''C''" exampleParent 0]
  by (simp add: exampleFiber_sel exampleFiber_compatible exampleItem_element exampleABC_def
        deletionsOf_exampleParent) (simp add: exampleElement_def)

text \<open>
  Two previous siblings with the same key A (the chain that mounting two such items
  gives), reconciled against one item with key B: the map of remaining children keeps the
  second sibling only, so the first sibling (index 0) is neither reused nor put in the
  deletions array; the deletions hold the second sibling alone.
\<close>

theorem repeated_key_sibling_is_not_deleted:
  "(case reconcileChildrenArray True exampleParent exampleAA [exampleItem ''li'' ''B''] 0 of
      (Inr chain, rf') \<Rightarrow>
        map (\<lambda>f. (fiber_data.key (data f), index (data f))) exampleAA =
          [(Some ''A'', 0), (Some ''A'', 1)] \<and>
        alternates chain = [] \<and>
        map (\<lambda>f. index (data f)) (deletionsOf rf') = [1]
    | (Inl x, rf') \<Rightarrow> False)"
  by code_simp

theorem deletions_complete_for_distinct_keys_witness:
  "distinct (map lookupKey exampleABC) \<and>
   (\<exists>chain rf' added.
      reconcileChildrenArray True exampleParent exampleABC
        [exampleItem ''li'' ''B'', exampleItem ''li'' ''C'', exampleItem ''li'' ''D''] 0 =
        (Inr chain, rf') \<and>
      deletionsOf rf' = added \<and>
      mset added + mset (alternates chain) = mset exampleABC \<and>
      distinct added \<and> set added = set exampleABC - set (alternates chain))"
proof -
  have d: "distinct (map lookupKey exampleABC)"
    by (simp add: exampleABC_def lookupKey_def exampleFiber_sel)
  have "(case reconcileChildrenArray True exampleParent exampleABC
           [exampleItem ''li'' ''B'', exampleItem ''li'' ''C'', exampleItem ''li'' ''D''] 0 of
      (Inr chain, rf') \<Rightarrow> True | (Inl x, rf') \<Rightarrow> False)"
    by code_simp
  then obtain chain rf' where r: "reconcileChildrenArray True exampleParent exampleABC
        [exampleItem ''li'' ''B'', exampleItem ''li'' ''C'', exampleItem ''li'' ''D''] 0 =
        (Inr chain, rf')"
    by (auto split: prod.splits sum.splits)
  from deletions_complete_for_distinct_keys [OF d r] d r
  show ?thesis by (simp add: deletionsOf_exampleParent)
qed


theorem single_element_reuse_or_replace_witness:
  "compatibleType (exampleFiber ''li'' ''B'' 1) (exampleElement ''li'' ''B'') = Inr True \<and>
   (\<exists>existing rf'.
      reconcileSingleElement True exampleParent exampleAB (exampleElement ''li'' ''B'') 0 =
        (Inr existing, rf') \<and>
      alternate existing = Some (exampleFiber ''li'' ''B'' 1) \<and> index (data existing) = 0 \<and>
      deletionsOf rf' = [exampleFiber ''li'' ''A'' 0] \<and>
      placeSingleChild True existing = existing \<and>
      Placement \<notin> flags (data existing)) \<and>
   compatibleType (exampleFiber ''li'' ''B'' 1) (exampleElement ''div'' ''B'') = Inr False \<and>
   (\<exists>created rf'.
      reconcileSingleElement True exampleParent exampleAB (exampleElement ''div'' ''B'') 0 =
        (Inr created, rf') \<and>
      alternate created = None \<and>
      deletionsOf rf' = exampleAB \<and>
      Placement \<in> flags (data (placeSingleChild True created))) \<and>
   (\<exists>created rf'.
      reconcileSingleElement True exampleParent exampleAB (exampleElement ''li'' ''Z'') 0 =
        (Inr created, rf') \<and>
      alternate created = None \<and>
      deletionsOf rf' = exampleAB \<and>
      Placement \<in> flags (data (placeSingleChild True created)))"
proof -
  have k: "element.key (exampleElement t k) = Some k" for t k
    by (simp add: exampleElement_def)
  have nokey: "\<forall>f \<in> set exampleAB.
      fiber_data.key (data f) \<noteq> element.key (exampleElement ''li'' ''Z'')"
    by (simp add: exampleAB_def exampleFiber_sel k)
  have pre: "(\<forall>f \<in> set [exampleFiber ''li'' ''A'' 0].
        fiber_data.key (data f) \<noteq> element.key (exampleElement t ''B'')) \<and>
      fiber_data.key (data (exampleFiber ''li'' ''B'' 1)) =
        element.key (exampleElement t ''B'')" for t
    by (simp add: exampleFiber_sel k)
  note th1 = single_element_reuse_or_replace
      [of "exampleElement ''li'' ''B''" exampleParent 0, THEN conjunct1, rule_format,
       OF pre, THEN conjunct1, rule_format]
  note th2 = single_element_reuse_or_replace
      [of "exampleElement ''div'' ''B''" exampleParent 0, THEN conjunct1, rule_format,
       OF pre, THEN conjunct2, rule_format]
  note th3 = single_element_reuse_or_replace
      [of "exampleElement ''li'' ''Z''" exampleParent 0, THEN conjunct2, THEN spec, THEN mp,
       OF nokey]
  have c1: "compatibleType (exampleFiber ''li'' ''B'' 1) (exampleElement ''li'' ''B'') =
      Inr True"
    by (simp add: exampleFiber_compatible)
  have c2: "compatibleType (exampleFiber ''li'' ''B'' 1) (exampleElement ''div'' ''B'') =
      Inr False"
    by (simp add: exampleFiber_compatible)
  show ?thesis
    using th1 [OF c1, where post = "[]"] th2 [OF c2, where post = "[]"] th3 c1 c2
    by (simp add: deletionsOf_exampleParent exampleAB_def)
qed

theorem reconcileChildFibers_catch_witness:
  "(\<exists>throwFiber.
      reconcileChildFibers True False exampleParent [] (CObject False) 0 =
        (Inr [throwFiber], exampleParent) \<and>
      fiber_data.tag (data throwFiber) = Throw \<and>
      pendingProps (data throwFiber) =
        PendingThrown (ThrownError ''Objects are not valid as a React child'') \<and>
      return throwFiber = Some exampleParent) \<and>
   reconcileChildFibers True False exampleParent [] (CThenable (Inl SuspenseException)) 0 =
     (Inl SuspenseException, exampleParent)"
proof -
  have a: "reconcileChildFibersImpl True exampleParent [] (CObject False) 0 =
      (Inl (ThrownError ''Objects are not valid as a React child''), exampleParent)"
    by (simp add: reconcileChildFibersImpl.simps unwrapTopLevelFragment_def
          throwOnInvalidObjectType_def)
  have b: "reconcileChildFibersImpl True exampleParent [] (CThenable (Inl SuspenseException)) 0 =
      (Inl SuspenseException, exampleParent)"
    by (simp add: reconcileChildFibersImpl.simps unwrapTopLevelFragment_def)
  show ?thesis
    using reconcileChildFibers_catch [OF a, of False] reconcileChildFibers_catch [OF b, of False]
    by simp
qed

theorem empty_children_delete_all_witness:
  "(\<exists>rf'. reconcileChildFibers True True exampleParent exampleAB (CString []) 0 =
            (Inr [], rf') \<and>
          deletionsOf rf' = exampleAB) \<and>
   (\<exists>f rf'. reconcileChildFibers True True exampleParent exampleAB (CString ''0'') 0 =
              (Inr [f], rf') \<and>
            fiber_data.tag (data f) = HostText \<and>
            pendingProps (data f) = PendingText ''0'')"
  using empty_children_delete_all
    [of "CString []" False True exampleParent exampleAB 0 "''0''"]
  by (simp add: deletionsOf_exampleParent)

section \<open>The pending queue as linked objects: theorems\<close>

lemma segment_frame:
  "a \<notin> set as \<Longrightarrow> segment (h(a \<mapsto> ob)) p as q = segment h p as q"
  by (induction as arbitrary: p) (auto split: option.splits)

lemma segment_append:
  "segment h p (as @ bs) q = (\<exists>m. segment h p as m \<and> segment h m bs q)"
  by (induction as arbitrary: p) (auto split: option.splits)

lemma segment_single:
  "segment h p [a] q = (p = Some a \<and> (\<exists>ob. h a = Some ob \<and> next_ref ob = q))"
  by (auto split: option.splits)

lemma segment_functional:
  "segment h p as None \<Longrightarrow> segment h p bs None \<Longrightarrow> as = bs"
proof (induction as arbitrary: p bs)
  case Nil
  then show ?case by (cases bs) auto
next
  case (Cons a as)
  then show ?case by (cases bs) (auto split: option.splits)
qed

lemma segment_distinct:
  "segment h p as None \<Longrightarrow> distinct as"
proof (induction as arbitrary: p)
  case Nil
  then show ?case by simp
next
  case (Cons a as)
  then obtain ob where ob: "h a = Some ob" "segment h (next_ref ob) as None" "p = Some a"
    by (auto split: option.splits)
  have "a \<notin> set as"
  proof
    assume "a \<in> set as"
    then obtain xs ys where as: "as = xs @ a # ys" by (meson split_list)
    with ob(2) obtain m where "segment h m (a # ys) None"
      by (auto simp: segment_append)
    then have "segment h (next_ref ob) ys None"
      using ob(1) by (auto split: option.splits)
    from segment_functional [OF ob(2) this] as show False by simp
  qed
  then show ?case using Cons.IH [OF ob(2)] by simp
qed

lemma segment_last_null:
  "segment h p as None \<Longrightarrow> a \<in> set as \<Longrightarrow> h a = Some ob \<Longrightarrow> next_ref ob = None \<Longrightarrow>
   a = last as"
proof (induction as arbitrary: p)
  case Nil
  then show ?case by simp
next
  case (Cons b bs)
  then obtain ob' where ob': "h b = Some ob'" "segment h (next_ref ob') bs None"
    by (auto split: option.splits)
  show ?case
  proof (cases "a = b")
    case True
    then have "segment h None bs None" using ob' Cons.prems(3,4) by simp
    then have "bs = []" by (cases bs) auto
    then show ?thesis using True by simp
  next
    case False
    then have "a \<in> set bs" using Cons.prems(2) by simp
    from Cons.IH [OF ob'(2) this Cons.prems(3,4)] this show ?thesis by auto
  qed
qed

lemma segment_last_object:
  "segment h p as q \<Longrightarrow> as \<noteq> [] \<Longrightarrow> \<exists>ob. h (last as) = Some ob \<and> next_ref ob = q"
proof -
  assume a: "segment h p as q" "as \<noteq> []"
  then obtain xs where "as = xs @ [last as]" by (metis append_butlast_last_id)
  then have "segment h p (xs @ [last as]) q" using a by simp
  then show ?thesis by (auto simp: segment_append split: option.splits)
qed

lemma segment_relink:
  assumes "segment h p as q" "as \<noteq> []" "distinct as" "h (last as) = Some ob"
  shows "segment (h(last as \<mapsto> ob\<lparr>next_ref := q'\<rparr>)) p as q'"
proof -
  obtain xs where as: "as = xs @ [last as]" using assms(2) by (metis append_butlast_last_id)
  have "distinct (xs @ [last as])" using assms(3) as by simp
  then have d: "last as \<notin> set xs" by simp
  from assms(1) as have "segment h p (xs @ [last as]) q" by simp
  then obtain m where m: "segment h p xs m" "segment h m [last as] q"
    by (auto simp: segment_append)
  then have "m = Some (last as)" by simp
  then have "segment (h(last as \<mapsto> ob\<lparr>next_ref := q'\<rparr>)) p (xs @ [last as]) q'"
    using m(1) d by (auto simp: segment_append segment_frame)
  then show ?thesis using as by simp
qed


lemma set_next_Inr:
  "updates s a = Some ob \<Longrightarrow>
   set_next s a v = Inr (s\<lparr>updates := (updates s)(a \<mapsto> ob\<lparr>next_ref := v\<rparr>)\<rparr>)"
  by (simp add: set_next_def)

lemma recordOf_next [simp]: "recordOf (ob\<lparr>next_ref := v\<rparr>) = recordOf ob"
  by (simp add: recordOf_def)

text \<open>Writing \<open>next\<close> of an object whose \<open>next\<close> is null: a list that holds the object
  ends there, so it now ends in the new value; another list is unchanged.\<close>

lemma segment_after_link:
  assumes "segment h p as None" "h l = Some lo" "next_ref lo = None"
  shows "\<exists>q. segment (h(l \<mapsto> lo\<lparr>next_ref := v\<rparr>)) p as q"
proof (cases "l \<in> set as")
  case True
  then have l: "l = last as" "as \<noteq> []"
    using segment_last_null [OF assms(1) _ assms(2,3)] by auto
  from segment_relink [OF assms(1) l(2) segment_distinct [OF assms(1)], of lo v] l assms(2)
  show ?thesis by auto
next
  case False
  then show ?thesis using assms(1) by (auto simp: segment_frame)
qed


text \<open>
  Claim C3. Let a work-in-progress fiber have an alternate; let the base-update lists of
  the two queue objects be well formed (\<open>bs\<close> and \<open>cs\<close>, which may share update objects)
  and let the pending queue hold the update objects \<open>ps\<close>, none of them in a base list
  yet. Then the transfer block does not throw; the list it hands to the loop of
  processUpdateQueue is \<open>bs\<close> followed by \<open>ps\<close>; the base-update list of the alternate's
  queue object is \<open>cs\<close> followed by the same objects \<open>ps\<close>, with \<^verbatim>\<open>lastBaseUpdate\<close> on
  the last pending object; \<^verbatim>\<open>shared.pending\<close> is null; and every update object holds
  the record it held before. The test \<^verbatim>\<open>currentLastBaseUpdate !== lastBaseUpdate\<close> of the
  block compares with the last pending object, which is in no base list, so it holds
  whatever the two last base updates were.
\<close>

theorem pending_updates_reach_both_queues:
  assumes wip: "fibers s w = Some wfib" "updateQueue_ref wfib = Some wq" "queues s wq = Some q"
    and cur: "alternate_ref wfib = Some c" "fibers s c = Some cfib"
      "updateQueue_ref cfib = Some cq" "queues s cq = Some qc"
    and sh: "shareds s (shared_ref q) = Some sq" "pendingRing s sq ps"
    and base: "baseList s q bs" "baseList s qc cs"
    and fresh: "set ps \<inter> set bs = {}" "set ps \<inter> set cs = {}"
  shows "\<exists>s' first' qc' sq'.
      transferPendingQueue s w = Inr (s', first', Some (last ps)) \<and>
      segment (updates s') first' (bs @ ps) None \<and>
      queues s' cq = Some qc' \<and> baseList s' qc' (cs @ ps) \<and>
      shareds s' (shared_ref q) = Some sq' \<and> pending_ref sq' = None \<and>
      (\<forall>a. map_option recordOf (updates s' a) = map_option recordOf (updates s a))"
proof -
  define h where "h = updates s"
  define f where "f = hd ps"
  define lp where "lp = last ps"
  have ps: "ps \<noteq> []" "distinct ps" "pending_ref sq = Some lp"
      "segment h (Some f) ps (Some f)"
    using sh(2) by (simp_all add: pendingRing_def h_def f_def lp_def)
  have lp_in: "lp \<in> set ps" using ps(1) by (simp add: lp_def)
  obtain lpo where lpo: "h lp = Some lpo" "next_ref lpo = Some f"
    using segment_last_object [OF ps(4) ps(1)] by (auto simp: lp_def)
  have bs: "segment h (firstBaseUpdate_ref q) bs None"
      "lastBaseUpdate_ref q = (if bs = [] then None else Some (last bs))"
    using base(1) by (simp_all add: baseList_def h_def)
  have cs: "segment h (firstBaseUpdate_ref qc) cs None"
      "lastBaseUpdate_ref qc = (if cs = [] then None else Some (last cs))"
    using base(2) by (simp_all add: baseList_def h_def)
  have dbs: "distinct bs" and dcs: "distinct cs"
    using segment_distinct bs(1) cs(1) by blast+
  have lp_bs: "lp \<notin> set bs" and lp_cs: "lp \<notin> set cs"
    using fresh lp_in by auto
  txt \<open>the pending queue is cut open\<close>
  define s0 where "s0 = s\<lparr>shareds := (shareds s)(shared_ref q \<mapsto> sq\<lparr>pending_ref := None\<rparr>)\<rparr>"
  define h1 where "h1 = h(lp \<mapsto> lpo\<lparr>next_ref := None\<rparr>)"
  define s1 where "s1 = s0\<lparr>updates := h1\<rparr>"
  have cut: "set_next s0 lp None = Inr s1"
    using lpo(1) by (simp add: set_next_def s0_def s1_def h1_def h_def)
  have ps1: "segment h1 (Some f) ps None"
    using segment_relink [OF ps(4) ps(1) ps(2), of lpo None] lpo(1)
    by (simp add: h1_def lp_def)
  have bs1: "segment h1 (firstBaseUpdate_ref q) bs None"
    using bs(1) lp_bs by (simp add: h1_def segment_frame)
  have cs1: "segment h1 (firstBaseUpdate_ref qc) cs None"
    using cs(1) lp_cs by (simp add: h1_def segment_frame)
  have rec1: "map_option recordOf (h1 a) = map_option recordOf (h a)" for a
    using lpo(1) by (simp add: h1_def)
  txt \<open>the work-in-progress list\<close>
  obtain s2 first' where app: "appendToBase s1 (firstBaseUpdate_ref q) (lastBaseUpdate_ref q)
        (Some f) = Inr (s2, first')"
    and s2: "fibers s2 = fibers s" "queues s2 = queues s" "shareds s2 = shareds s0"
    and w2: "bs \<noteq> [] \<longrightarrow> first' = firstBaseUpdate_ref q \<and>
                segment (updates s2) (firstBaseUpdate_ref q) bs (Some f)"
            "bs = [] \<longrightarrow> first' = Some f"
    and p2: "segment (updates s2) (Some f) ps None"
    and c2: "\<exists>qx. segment (updates s2) (firstBaseUpdate_ref qc) cs qx"
    and rec2: "\<forall>a. map_option recordOf (updates s2 a) = map_option recordOf (h a)"
  proof (cases "bs = []")
    case True
    have "appendToBase s1 (firstBaseUpdate_ref q) (lastBaseUpdate_ref q) (Some f) =
        Inr (s1, Some f)"
      using bs(2) True by (simp add: appendToBase_def)
    moreover have "updates s1 = h1" "fibers s1 = fibers s" "queues s1 = queues s"
        "shareds s1 = shareds s0"
      by (simp_all add: s1_def s0_def)
    ultimately show ?thesis
      using that [of s1 "Some f"] True ps1 cs1 rec1 by auto
  next
    case False
    define l where "l = last bs"
    obtain lo where lo: "h l = Some lo" "next_ref lo = None"
      using segment_last_object [OF bs(1) False] by (auto simp: l_def)
    have l_bs: "l \<in> set bs" using False by (simp add: l_def)
    then have l_ps: "l \<notin> set ps" "l \<noteq> lp" using fresh(1) lp_bs by auto
    have lo1: "h1 l = Some lo" using lo(1) l_ps(2) by (simp add: h1_def)
    define h2 where "h2 = h1(l \<mapsto> lo\<lparr>next_ref := Some f\<rparr>)"
    define t2 where "t2 = s1\<lparr>updates := h2\<rparr>"
    have "set_next s1 l (Some f) = Inr t2"
      using lo1 by (simp add: set_next_def s1_def t2_def h2_def)
    then have a: "appendToBase s1 (firstBaseUpdate_ref q) (lastBaseUpdate_ref q) (Some f) =
        Inr (t2, firstBaseUpdate_ref q)"
      using bs(2) False by (simp add: appendToBase_def l_def)
    have b: "updates t2 = h2" "fibers t2 = fibers s" "queues t2 = queues s"
        "shareds t2 = shareds s0"
      by (simp_all add: t2_def s1_def s0_def)
    have w: "segment h2 (firstBaseUpdate_ref q) bs (Some f)"
      using segment_relink [OF bs1 False dbs, of lo "Some f"] lo1
      by (simp add: h2_def l_def)
    have p: "segment h2 (Some f) ps None"
      using ps1 l_ps(1) by (simp add: h2_def segment_frame)
    have "next_ref lo = None" by (rule lo(2))
    from segment_after_link [OF cs1 lo1 this, of "Some f"]
    have c: "\<exists>qx. segment h2 (firstBaseUpdate_ref qc) cs qx"
      by (simp add: h2_def)
    have r: "map_option recordOf (h2 a) = map_option recordOf (h a)" for a
      using rec1 [of a] lo1 rec1 [of l] by (simp add: h2_def)
    show ?thesis
      using that [of t2 "firstBaseUpdate_ref q"] a b w p c r False by simp
  qed
  have wl: "segment (updates s2) first' (bs @ ps) None"
    using w2 p2 by (cases "bs = []") (auto simp: segment_append)
  txt \<open>the list of the current queue\<close>
  have cq2: "fibers s2 c = Some cfib" "queues s2 cq = Some qc"
    using cur s2 by simp_all
  have ne: "lastBaseUpdate_ref qc \<noteq> Some lp"
    using cs(2) lp_cs by (cases "cs = []") auto
  obtain s3 qc' where tc: "transferToCurrent s2 c (Some f) lp (Some lp) = Inr s3"
    and s3: "shareds s3 = shareds s0" "queues s3 cq = Some qc'"
    and c3: "baseList s3 qc' (cs @ ps)"
    and w3: "segment (updates s3) first' (bs @ ps) None"
    and rec3: "\<forall>a. map_option recordOf (updates s3 a) = map_option recordOf (h a)"
  proof (cases "cs = []")
    case True
    define t3 where "t3 = s2\<lparr>queues := (queues s2)(cq \<mapsto>
        qc\<lparr>firstBaseUpdate_ref := Some f, lastBaseUpdate_ref := Some lp\<rparr>)\<rparr>"
    have "transferToCurrent s2 c (Some f) lp (Some lp) = Inr t3"
      using cq2 cur(3) cs(2) True by (simp add: transferToCurrent_def t3_def)
    moreover have "baseList t3 (qc\<lparr>firstBaseUpdate_ref := Some f,
        lastBaseUpdate_ref := Some lp\<rparr>) (cs @ ps)"
      using True p2 ps(1) by (simp add: baseList_def t3_def lp_def)
    ultimately show ?thesis
      using that [of t3] wl rec2 s2 by (simp add: t3_def)
  next
    case False
    define l where "l = last cs"
    have l_cs: "l \<in> set cs" using False by (simp add: l_def)
    then have l_ps: "l \<notin> set ps" using fresh(2) by auto
    obtain lo where lo: "h l = Some lo" "next_ref lo = None"
      using segment_last_object [OF cs(1) False] by (auto simp: l_def)
    obtain qx where qx: "segment (updates s2) (firstBaseUpdate_ref qc) cs qx"
      using c2 by blast
    obtain lo2 where lo2: "updates s2 l = Some lo2"
      using segment_last_object [OF qx False] by (auto simp: l_def)
    define h3 where "h3 = (updates s2)(l \<mapsto> lo2\<lparr>next_ref := Some f\<rparr>)"
    define t3 where "t3 = s2\<lparr>updates := h3\<rparr>"
    define t4 where "t4 = t3\<lparr>queues := (queues t3)(cq \<mapsto>
        qc\<lparr>lastBaseUpdate_ref := Some lp\<rparr>)\<rparr>"
    have sn: "set_next s2 l (Some f) = Inr t3"
      using lo2 by (simp add: set_next_def t3_def h3_def)
    have "transferToCurrent s2 c (Some f) lp (Some lp) = Inr t4"
      using cq2 cur(3) cs(2) False ne sn
      by (simp add: transferToCurrent_def l_def [symmetric] t4_def) (simp add: t3_def)
    moreover have cl: "segment h3 (firstBaseUpdate_ref qc) cs (Some f)"
      using segment_relink [OF qx False dcs, of lo2 "Some f"] lo2
      by (simp add: h3_def l_def)
    have pl: "segment h3 (Some f) ps None"
      using p2 l_ps by (simp add: h3_def segment_frame)
    have "baseList t4 (qc\<lparr>lastBaseUpdate_ref := Some lp\<rparr>) (cs @ ps)"
      using cl pl ps(1) by (auto simp: baseList_def t4_def t3_def segment_append lp_def)
    moreover have "segment h3 first' (bs @ ps) None"
    proof (cases "bs = []")
      case True
      then show ?thesis using w2(2) pl by simp
    next
      case nb: False
      have "segment h3 (firstBaseUpdate_ref q) bs (Some f)"
      proof (cases "l \<in> set bs")
        case True
        then have "l = last bs"
          using segment_last_null [OF bs(1) True lo] by simp
        then show ?thesis
          using segment_relink [OF _ nb dbs, of "updates s2" "firstBaseUpdate_ref q"
              "Some f" lo2 "Some f"] w2(1) nb lo2
          by (simp add: h3_def)
      next
        case False
        then show ?thesis using w2(1) nb by (simp add: h3_def segment_frame)
      qed
      then show ?thesis using w2(1) nb pl by (auto simp: segment_append)
    qed
    moreover have "map_option recordOf (h3 a) = map_option recordOf (h a)" for a
      using rec2 lo2 by (auto simp: h3_def dest: spec [of _ l])
    ultimately show ?thesis
      using that [of t4 "qc\<lparr>lastBaseUpdate_ref := Some lp\<rparr>"] s2
      by (simp add: t4_def t3_def)
  qed
  have tn: "transferNonEmpty s0 wfib q lp = Inr (s3, first', Some lp)"
    using lpo cut app tc cur(1)
    by (simp add: transferNonEmpty_def s0_def h_def)
  have "transferPendingQueue s w = Inr (s3, first', Some lp)"
    using wip sh(1) ps(3) tn by (simp add: transferPendingQueue_def s0_def)
  moreover have "shareds s3 (shared_ref q) = Some (sq\<lparr>pending_ref := None\<rparr>)"
    using s3(1) by (simp add: s0_def)
  ultimately show ?thesis
    using w3 s3(2) c3 rec3 by (simp add: lp_def h_def)
qed


theorem pending_updates_reach_both_queues_witness:
  "pendingRing exampleStore \<lparr>pending_ref = Some 21\<rparr> [20, 21] \<and>
   baseList exampleStore
     \<lparr>firstBaseUpdate_ref = Some 11, lastBaseUpdate_ref = Some 11, shared_ref = 1\<rparr> [11] \<and>
   baseList exampleStore
     \<lparr>firstBaseUpdate_ref = Some 10, lastBaseUpdate_ref = Some 10, shared_ref = 1\<rparr> [10] \<and>
   (\<exists>s' first' qc' sq'.
      transferPendingQueue exampleStore 1 = Inr (s', first', Some 21) \<and>
      segment (updates s') first' [11, 20, 21] None \<and>
      queues s' 2 = Some qc' \<and> baseList s' qc' [10, 20, 21] \<and>
      shareds s' 1 = Some sq' \<and> pending_ref sq' = None \<and>
      (\<forall>a. map_option recordOf (updates s' a) =
           map_option recordOf (updates exampleStore a)))"
proof -
  have ring: "pendingRing exampleStore \<lparr>pending_ref = Some 21\<rparr> [20, 21]"
    by (simp add: pendingRing_def exampleStore_def exampleUpdateObject_def)
  have b1: "baseList exampleStore
     \<lparr>firstBaseUpdate_ref = Some 11, lastBaseUpdate_ref = Some 11, shared_ref = 1\<rparr> [11]"
    by (simp add: baseList_def exampleStore_def exampleUpdateObject_def)
  have b2: "baseList exampleStore
     \<lparr>firstBaseUpdate_ref = Some 10, lastBaseUpdate_ref = Some 10, shared_ref = 1\<rparr> [10]"
    by (simp add: baseList_def exampleStore_def exampleUpdateObject_def)
  have "\<exists>s' first' qc' sq'.
      transferPendingQueue exampleStore 1 = Inr (s', first', Some (last [20, 21])) \<and>
      segment (updates s') first' ([11] @ [20, 21]) None \<and>
      queues s' 2 = Some qc' \<and> baseList s' qc' ([10] @ [20, 21]) \<and>
      shareds s' (shared_ref \<lparr>firstBaseUpdate_ref = Some 11, lastBaseUpdate_ref = Some 11,
                                shared_ref = 1\<rparr>) = Some sq' \<and> pending_ref sq' = None \<and>
      (\<forall>a. map_option recordOf (updates s' a) =
           map_option recordOf (updates exampleStore a))"
    by (rule pending_updates_reach_both_queues
          [where w = 1 and wq = 1 and c = 2 and cq = 2
             and wfib = "\<lparr>updateQueue_ref = Some 1, alternate_ref = Some 2\<rparr>"
             and cfib = "\<lparr>updateQueue_ref = Some 2, alternate_ref = Some 1\<rparr>"
             and sq = "\<lparr>pending_ref = Some 21\<rparr>", OF _ _ _ _ _ _ _ _ ring b1 b2])
       (simp_all add: exampleStore_def)
  then show ?thesis
    using ring b1 b2 by simp
qed

section \<open>Hydration: theorems\<close>

text \<open>
  Claim C8, as amended. While hydrating, if the cursor \<^verbatim>\<open>nextHydratableInstance\<close> is null
  when a fiber tries to claim an instance: if the fiber is in concurrent mode and has not
  captured an error, the function throws the hydration-mismatch error and writes nothing;
  otherwise the fiber is marked for insertion (placement flag set, hydrating flag cleared,
  no instance claimed), hydration mode is turned off, and every later call of the function
  returns at once without claiming anything.
\<close>

theorem exhausted_cursor_inserts_or_throws:
  assumes "isHydrating s" "nextHydratableInstance s = None" "fiberAt s fiber' = Some f"
  shows "if shouldClientRenderOnMismatch f
         then tryToClaimNextHydratableInstance env s fiber' = Inl throwOnHydrationMismatch
         else (\<exists>s'. tryToClaimNextHydratableInstance env s fiber' = Inr s' \<and>
                 fiberAt s' fiber' =
                   Some (f\<lparr>fiberFlags := (fiberFlags f - {Hydrating}) \<union> {Placement}\<rparr>) \<and>
                 \<not> isHydrating s' \<and> hydrationParentFiber s' = Some fiber' \<and>
                 nextHydratableInstance s' = None \<and>
                 (\<forall>later. tryToClaimNextHydratableInstance env s' later = Inr s'))"
  using assms
  by (simp add: tryToClaimNextHydratableInstance_def insertNonHydratedInstance_def
        modifyFiber_def)

theorem exhausted_cursor_inserts_or_throws_witness:
  "isHydrating (exampleHydrationState {}) \<and>
   nextHydratableInstance (exampleHydrationState {}) = None \<and>
   (\<exists>s'. tryToClaimNextHydratableInstance exampleHydrationEnvironment
            (exampleHydrationState {}) 1 = Inr s' \<and>
          map_option fiberFlags (fiberAt s' 1) = Some {Placement} \<and>
          map_option fiberStateNode (fiberAt s' 1) = Some None \<and>
          \<not> isHydrating s' \<and> hydrationParentFiber s' = Some 1 \<and>
          tryToClaimNextHydratableInstance exampleHydrationEnvironment s' 0 = Inr s')"
proof -
  have a: "isHydrating (exampleHydrationState {})"
      "nextHydratableInstance (exampleHydrationState {}) = None"
      "fiberAt (exampleHydrationState {}) 1 =
         Some ((createHydratingFiber HostComponent {})
                 \<lparr>fiberType := ''div'', fiberFlags := {Hydrating}\<rparr>)"
    by (simp_all add: exampleHydrationState_def)
  have b: "\<not> shouldClientRenderOnMismatch ((createHydratingFiber HostComponent {})
                 \<lparr>fiberType := ''div'', fiberFlags := {Hydrating}\<rparr>)"
    by (simp add: shouldClientRenderOnMismatch_def createHydratingFiber_def)
  from exhausted_cursor_inserts_or_throws [OF a, of exampleHydrationEnvironment] b
  obtain s' where s': "tryToClaimNextHydratableInstance exampleHydrationEnvironment
            (exampleHydrationState {}) 1 = Inr s'"
      "fiberAt s' 1 = Some ((createHydratingFiber HostComponent {})
                 \<lparr>fiberType := ''div'', fiberFlags := {Placement}\<rparr>)"
      "\<not> isHydrating s'" "hydrationParentFiber s' = Some 1"
      "\<forall>later. tryToClaimNextHydratableInstance exampleHydrationEnvironment s' later = Inr s'"
    by (auto simp: createHydratingFiber_def)
  then show ?thesis
    using a by (simp add: createHydratingFiber_def)
qed

text \<open>
  A host component of a concurrent-mode tree that has not captured an error, with the
  cursor null: the function throws; the fiber is not marked for insertion and hydration
  mode stays on.
\<close>

theorem exhausted_cursor_throws_in_concurrent_mode:
  "isHydrating (exampleHydrationState {ConcurrentMode}) \<and>
   nextHydratableInstance (exampleHydrationState {ConcurrentMode}) = None \<and>
   tryToClaimNextHydratableInstance exampleHydrationEnvironment
     (exampleHydrationState {ConcurrentMode}) 1 = Inl throwOnHydrationMismatch"
  by (simp add: tryToClaimNextHydratableInstance_def exampleHydrationState_def
        shouldClientRenderOnMismatch_def createHydratingFiber_def)

end
